(* ===== verification/Prelude.thy ===== *)
theory Prelude
  imports Main "HOL-Library.Char_ord" "HOL-Library.List_Lexorder" "HOL-Library.Sublist"
    "HOL-Library.Word"
begin

text \<open>
  What the components share. Go values: a Go string or byte slice is a \<open>string\<close>, that is a list
  of 8-bit \<open>char\<close>s, so \<open>length\<close> is Go's \<open>len\<close>; an \<open>int64\<close> is a 64-bit word read with
  \<open>sint\<close>; an error is a value of \<open>go_err\<close>, and a fallible function returns
  \<open>go_err + 'a\<close> with \<open>Inl\<close> for a non-nil error. The operations of the Go packages
  \<open>strings\<close>, \<open>strconv\<close>, \<open>errors\<close> and \<open>io\<close> that the sources call are defined here, followed
  by the two loop combinators for \<open>for ... range\<close> with an early return.
\<close>

named_theorems go_simps \<open>evaluation of the Go library functions on literals\<close>
named_theorems wire_rules \<open>how an operation extends the requests on the wire\<close>

type_synonym bytes = "char list"
type_synonym i64 = "64 word"

section \<open>Package strings\<close>

definition has_prefix :: "string \<Rightarrow> string \<Rightarrow> bool" where
  "has_prefix s p \<longleftrightarrow> take (length p) s = p"

definition has_suffix :: "string \<Rightarrow> string \<Rightarrow> bool" where
  "has_suffix s p \<longleftrightarrow> length p \<le> length s \<and> drop (length s - length p) s = p"

definition trim_prefix :: "string \<Rightarrow> string \<Rightarrow> string" where
  "trim_prefix s p = (if has_prefix s p then drop (length p) s else s)"

definition trim_suffix :: "string \<Rightarrow> string \<Rightarrow> string" where
  "trim_suffix s p = (if has_suffix s p then take (length s - length p) s else s)"

text \<open>\<open>strings.Index\<close>: the position of the first occurrence, \<open>None\<close> for -1.\<close>

fun index_of :: "string \<Rightarrow> string \<Rightarrow> nat option" where
  "index_of [] sub = (if sub = [] then Some 0 else None)"
| "index_of (c # s) sub =
     (if has_prefix (c # s) sub then Some 0 else map_option Suc (index_of s sub))"

text \<open>\<open>strings.LastIndex\<close> for a one-byte separator.\<close>

fun last_index_of :: "string \<Rightarrow> char \<Rightarrow> nat option" where
  "last_index_of [] c = None"
| "last_index_of (x # s) c =
     (case last_index_of s c of
        Some i \<Rightarrow> Some (Suc i)
      | None \<Rightarrow> if x = c then Some 0 else None)"

definition str_contains :: "string \<Rightarrow> string \<Rightarrow> bool" where
  "str_contains s sub \<longleftrightarrow> index_of s sub \<noteq> None"

text \<open>\<open>strings.ContainsAny\<close> with ASCII characters.\<close>

definition contains_any :: "string \<Rightarrow> string \<Rightarrow> bool" where
  "contains_any s chars \<longleftrightarrow> (\<exists>c \<in> set s. c \<in> set chars)"

text \<open>\<open>strings.Split\<close> with a one-byte separator: always at least one piece.\<close>

fun split_on :: "char \<Rightarrow> string \<Rightarrow> string list" where
  "split_on sep [] = [[]]"
| "split_on sep (c # s) =
     (if c = sep then [] # split_on sep s
      else (case split_on sep s of p # ps \<Rightarrow> (c # p) # ps | [] \<Rightarrow> [[c]]))"

text \<open>\<open>strings.FieldsFunc\<close>: the maximal runs of characters that are not separators.\<close>

definition fields_func :: "(char \<Rightarrow> bool) \<Rightarrow> string \<Rightarrow> string list" where
  "fields_func sep s =
     filter (\<lambda>f. f \<noteq> []) (foldr (\<lambda>c acc. case acc of
        f # fs \<Rightarrow> if sep c then [] # f # fs else (c # f) # fs
      | [] \<Rightarrow> if sep c then [[], []] else [[c]]) s [[]])"

text \<open>\<open>strings.Join\<close>\<close>

fun str_join :: "string list \<Rightarrow> string \<Rightarrow> string" where
  "str_join [] sep = []"
| "str_join [x] sep = x"
| "str_join (x # y # xs) sep = x @ sep @ str_join (y # xs) sep"

text \<open>\<open>strings.ReplaceAll\<close> for a non-empty pattern: left to right, not overlapping.\<close>

function replace_all :: "string \<Rightarrow> string \<Rightarrow> string \<Rightarrow> string" where
  "replace_all s old new =
     (if old = [] \<or> s = [] then s
      else if has_prefix s old then new @ replace_all (drop (length old) s) old new
      else hd s # replace_all (tl s) old new)"
  by pat_completeness auto
termination
  by (relation "measure (\<lambda>(s, old, new). length s)") auto

declare replace_all.simps [simp del]

definition to_lower_ascii :: "char \<Rightarrow> char" where
  "to_lower_ascii c = (if CHR ''A'' \<le> c \<and> c \<le> CHR ''Z'' then char_of (of_char c + 32 :: nat) else c)"

text \<open>
  \<open>strings.EqualFold\<close> against an ASCII string. Unicode simple folding relates an ASCII letter to
  its other case and, outside ASCII, \<open>s\<close> to U+017F (bytes C5 BF) and \<open>k\<close> to U+212A (bytes
  E2 84 AA) only, so this is exact whenever the second string is ASCII, as it is at both call
  sites (a computed digest).
\<close>

fun equal_fold :: "string \<Rightarrow> string \<Rightarrow> bool" where
  "equal_fold s [] = (s = [])"
| "equal_fold s (t # ts) =
     (case s of
        [] \<Rightarrow> False
      | c # cs \<Rightarrow>
          if to_lower_ascii c = to_lower_ascii t then equal_fold cs ts
          else if to_lower_ascii t = CHR ''s'' \<and> has_prefix s [CHR 0xC5, CHR 0xBF]
            then equal_fold (drop 2 s) ts
          else if to_lower_ascii t = CHR ''k'' \<and> has_prefix s [CHR 0xE2, CHR 0x84, CHR 0xAA]
            then equal_fold (drop 3 s) ts
          else False)"

text \<open>
  \<open>strings.TrimSpace\<close>: the UTF-8 encodings of the Unicode characters with property White\_Space.
\<close>

definition white_space :: "string list" where
  "white_space =
     [[CHR 9], [CHR 10], [CHR 11], [CHR 12], [CHR 13], [CHR 32], [CHR 0xC2, CHR 0x85],
      [CHR 0xC2, CHR 0xA0], [CHR 0xE1, CHR 0x9A, CHR 0x80]]
     @ map (\<lambda>n. [CHR 0xE2, CHR 0x80, char_of (n :: nat)]) ([128..<139] @ [168, 169, 175])
     @ [[CHR 0xE2, CHR 0x81, CHR 0x9F], [CHR 0xE3, CHR 0x80, CHR 0x80]]"

fun trim_left_seqs :: "nat \<Rightarrow> string list \<Rightarrow> string \<Rightarrow> string" where
  "trim_left_seqs 0 seqs s = s"
| "trim_left_seqs (Suc n) seqs s =
     (case find (has_prefix s) seqs of
        None \<Rightarrow> s
      | Some w \<Rightarrow> trim_left_seqs n seqs (drop (length w) s))"

text \<open>Every sequence has a byte, so as many rounds as the string has bytes are enough.\<close>

definition trim_space :: "string \<Rightarrow> string" where
  "trim_space s =
     (let l = trim_left_seqs (length s) white_space s
      in rev (trim_left_seqs (length l) (map rev white_space) (rev l)))"

section \<open>Package strconv: decimal numbers\<close>

fun itoa_nat :: "nat \<Rightarrow> string" where
  "itoa_nat n =
     (if n < 10 then [char_of (48 + n)] else itoa_nat (n div 10) @ [char_of (48 + n mod 10)])"

declare itoa_nat.simps [simp del]

definition itoa :: "int \<Rightarrow> string" where
  "itoa i = (if i < 0 then CHR ''-'' # itoa_nat (nat (- i)) else itoa_nat (nat i))"

section \<open>Package fmt\<close>

text \<open>The verb \<open>%q\<close> on printable ASCII.\<close>

definition go_quote :: "string \<Rightarrow> string" where
  "go_quote s = [CHR 34] @ concat (map (\<lambda>c. if c = CHR 34 \<or> c = CHR 92 then [CHR 92, c] else [c]) s) @ [CHR 34]"

text \<open>The verb \<open>%v\<close> of a slice of strings.\<close>

definition go_list :: "string list \<Rightarrow> string" where
  "go_list xs = ''['' @ str_join xs '' '' @ '']''"

section \<open>JSON values\<close>

text \<open>What the code hands to \<open>json.Marshal\<close> or gets from it as \<open>map[string]any\<close>.\<close>

datatype json =
    JNull
  | JBool bool
  | JNum int
  | JStr string
  | JArr "json list"
  | JObj "(string \<times> json) list"

section \<open>Errors\<close>

text \<open>
  \<open>Msg\<close> is an error with no structure the code looks at; \<open>Wrap p e\<close> is
  \<open>fmt.Errorf("p: %w", e)\<close>. \<open>StatusErr\<close> and \<open>RetryableErr\<close> are \<open>statusErr\<close> and \<open>retryable\<close> of
  \<open>pkg/ocipush/client.go\<close>, \<open>ExtUnsupported\<close> and \<open>ExtExpired\<close> the sentinels of
  \<open>pkg/ocipush/directpush.go\<close>.
\<close>

datatype go_err =
    Msg string
  | Wrap string go_err
  | StatusErr string nat string
  | RetryableErr go_err
  | ExtUnsupported
  | ExtExpired

text \<open>
  How a function can end other than by returning a value: an error, or the end of the process
  (\<open>log.Fatal\<close>, \<open>zap.L().Fatal\<close>, \<open>os.Exit\<close>).
\<close>

datatype stop = Err go_err | Exit string

section \<open>Loops\<close>

text \<open>
  \<open>for_each f xs\<close> is \<open>for _, x := range xs { if err := f(x); err != nil { return err } }\<close> over a
  state; \<open>for_each_opt\<close> is the same loop where the body may run out of fuel (\<open>None\<close>).
\<close>

fun for_each :: "('a \<Rightarrow> 's \<Rightarrow> ('e + unit) \<times> 's) \<Rightarrow> 'a list \<Rightarrow> 's \<Rightarrow> ('e + unit) \<times> 's" where
  "for_each f [] s = (Inr (), s)"
| "for_each f (x # xs) s =
     (case f x s of (Inl e, s1) \<Rightarrow> (Inl e, s1) | (Inr _, s1) \<Rightarrow> for_each f xs s1)"

fun for_each_opt ::
  "('a \<Rightarrow> 's \<Rightarrow> (('e + unit) \<times> 's) option) \<Rightarrow> 'a list \<Rightarrow> 's \<Rightarrow> (('e + unit) \<times> 's) option" where
  "for_each_opt f [] s = Some (Inr (), s)"
| "for_each_opt f (x # xs) s =
     (case f x s of
        None \<Rightarrow> None
      | Some (Inl e, s1) \<Rightarrow> Some (Inl e, s1)
      | Some (Inr _, s1) \<Rightarrow> for_each_opt f xs s1)"

lemma for_each_Inr_Cons:
  "for_each f (x # xs) s = (Inr (), s') \<longleftrightarrow>
     (\<exists>s1. f x s = (Inr (), s1) \<and> for_each f xs s1 = (Inr (), s'))"
  by (auto split: prod.splits sum.splits)

lemma for_each_invariant:
  assumes "\<And>x s r s'. x \<in> set xs \<Longrightarrow> I s \<Longrightarrow> f x s = (r, s') \<Longrightarrow> I s'"
    and "I s" and "for_each f xs s = (r, s')"
  shows "I s'"
  using assms
proof (induction xs arbitrary: s)
  case (Cons x xs)
  obtain r1 s1 where fx: "f x s = (r1, s1)" by fastforce
  have s1: "I s1" using Cons.prems(1) [OF _ Cons.prems(2) fx] by simp
  show ?case
  proof (cases r1)
    case (Inl e)
    then show ?thesis using Cons.prems(3) fx s1 by simp
  next
    case (Inr u)
    then have "for_each f xs s1 = (r, s')" using Cons.prems(3) fx by simp
    from Cons.IH [OF _ s1 this] show ?thesis
      using Cons.prems(1) by (meson list.set_intros(2))
  qed
qed simp

lemma for_each_opt_invariant:
  assumes "\<And>x s r s'. x \<in> set xs \<Longrightarrow> I s \<Longrightarrow> f x s = Some (r, s') \<Longrightarrow> I s'"
    and "I s" and "for_each_opt f xs s = Some (r, s')"
  shows "I s'"
  using assms
proof (induction xs arbitrary: s)
  case (Cons x xs)
  obtain r1 s1 where fx: "f x s = Some (r1, s1)"
    using Cons.prems(3) by (cases "f x s") auto
  have s1: "I s1" using Cons.prems(1) [OF _ Cons.prems(2) fx] by simp
  show ?case
  proof (cases r1)
    case (Inl e)
    then show ?thesis using Cons.prems(3) fx s1 by simp
  next
    case (Inr u)
    then have "for_each_opt f xs s1 = Some (r, s')" using Cons.prems(3) fx by simp
    from Cons.IH [OF _ s1 this] show ?thesis
      using Cons.prems(1) by (meson list.set_intros(2))
  qed
qed simp

text \<open>
  When every round of a successful loop establishes something that later rounds keep, the loop
  establishes it for all the elements.
\<close>

lemma for_each_establishes:
  assumes inv: "\<And>x s s' r. x \<in> set xs \<Longrightarrow> I s \<Longrightarrow> f x s = (r, s') \<Longrightarrow> I s'"
    and est: "\<And>x s s'. x \<in> set xs \<Longrightarrow> I s \<Longrightarrow> f x s = (Inr (), s') \<Longrightarrow> Q x s'"
    and stable: "\<And>x y s s' r. y \<in> set xs \<Longrightarrow> I s \<Longrightarrow> f y s = (r, s') \<Longrightarrow> Q x s \<Longrightarrow> Q x s'"
    and "I s" and "for_each f xs s = (Inr (), s')"
  shows "\<forall>x \<in> set xs. Q x s'"
  using assms
proof (induction xs arbitrary: s)
  case Nil
  then show ?case by simp
next
  case (Cons x xs)
  from Cons.prems(5) obtain s1
    where fx: "f x s = (Inr (), s1)" and rest: "for_each f xs s1 = (Inr (), s')"
    by (auto split: prod.splits sum.splits)
  from Cons.prems(1) [OF _ Cons.prems(4) fx] Cons.prems(2) [OF _ Cons.prems(4) fx]
  have s1: "I s1" "Q x s1" by simp_all
  have "I s' \<and> Q x s'"
  proof (rule for_each_invariant [where I = "\<lambda>s. I s \<and> Q x s", OF _ _ rest])
    show "I s1 \<and> Q x s1" using s1 by simp
    show "I s3 \<and> Q x s3" if "y \<in> set xs" "I s2 \<and> Q x s2" "f y s2 = (r, s3)" for y s2 r s3
      using that Cons.prems(1) [of y s2 r s3] Cons.prems(3) [of y s2 r s3 x] by simp
  qed
  moreover have "\<forall>y \<in> set xs. Q y s'"
  proof (rule Cons.IH [OF _ _ _ s1(1) rest])
    show "I s3" if "y \<in> set xs" "I s2" "f y s2 = (r, s3)" for y s2 s3 r
      using that Cons.prems(1) [of y s2 r s3] by simp
    show "Q y s3" if "y \<in> set xs" "I s2" "f y s2 = (Inr (), s3)" for y s2 s3
      using that Cons.prems(2) [of y s2 s3] by simp
    show "Q z s3" if "y \<in> set xs" "I s2" "f y s2 = (r, s3)" "Q z s2" for z y s2 s3 r
      using that Cons.prems(3) [of y s2 r s3 z] by simp
  qed
  ultimately show ?case by simp
qed

text \<open>The loop with fuel agrees with the plain one when no round runs out.\<close>

lemma for_each_opt_total:
  "for_each_opt (\<lambda>x s. Some (f x s)) xs s = Some (for_each f xs s)"
  by (induction xs arbitrary: s) (auto split: prod.splits sum.splits)

lemma for_each_opt_cong:
  assumes "\<And>x s. x \<in> set xs \<Longrightarrow> f x s = g x s"
  shows "for_each_opt f xs s = for_each_opt g xs s"
  using assms by (induction xs arbitrary: s) (auto split: prod.splits sum.splits option.splits)

lemma for_each_opt_establishes:
  assumes inv: "\<And>x s s' r. x \<in> set xs \<Longrightarrow> I s \<Longrightarrow> f x s = Some (r, s') \<Longrightarrow> I s'"
    and est: "\<And>x s s'. x \<in> set xs \<Longrightarrow> I s \<Longrightarrow> f x s = Some (Inr (), s') \<Longrightarrow> Q x s'"
    and stable: "\<And>x y s s' r. y \<in> set xs \<Longrightarrow> I s \<Longrightarrow> f y s = Some (r, s') \<Longrightarrow> Q x s \<Longrightarrow> Q x s'"
    and "I s" and "for_each_opt f xs s = Some (Inr (), s')"
  shows "\<forall>x \<in> set xs. Q x s'"
  using assms
proof (induction xs arbitrary: s)
  case Nil
  then show ?case by simp
next
  case (Cons x xs)
  from Cons.prems(5) obtain s1
    where fx: "f x s = Some (Inr (), s1)" and rest: "for_each_opt f xs s1 = Some (Inr (), s')"
    by (auto split: prod.splits sum.splits option.splits)
  from Cons.prems(1) [OF _ Cons.prems(4) fx] Cons.prems(2) [OF _ Cons.prems(4) fx]
  have s1: "I s1" "Q x s1" by simp_all
  have "I s' \<and> Q x s'"
  proof (rule for_each_opt_invariant [where I = "\<lambda>s. I s \<and> Q x s", OF _ _ rest])
    show "I s1 \<and> Q x s1" using s1 by simp
    show "I s3 \<and> Q x s3" if "y \<in> set xs" "I s2 \<and> Q x s2" "f y s2 = Some (r, s3)" for y s2 r s3
      using that Cons.prems(1) [of y s2 r s3] Cons.prems(3) [of y s2 r s3 x] by simp
  qed
  moreover have "\<forall>y \<in> set xs. Q y s'"
  proof (rule Cons.IH [OF _ _ _ s1(1) rest])
    show "I s3" if "y \<in> set xs" "I s2" "f y s2 = Some (r, s3)" for y s2 s3 r
      using that Cons.prems(1) [of y s2 r s3] by simp
    show "Q y s3" if "y \<in> set xs" "I s2" "f y s2 = Some (Inr (), s3)" for y s2 s3
      using that Cons.prems(2) [of y s2 s3] by simp
    show "Q z s3" if "y \<in> set xs" "I s2" "f y s2 = Some (r, s3)" "Q z s2" for z y s2 s3 r
      using that Cons.prems(3) [of y s2 r s3 z] by simp
  qed
  ultimately show ?case by simp
qed

section \<open>Facts on strings\<close>

lemma has_prefix_append [simp, go_simps]: "has_prefix (p @ s) p"
  by (simp add: has_prefix_def)

lemma has_prefix_iff: "has_prefix s p \<longleftrightarrow> (\<exists>t. s = p @ t)"
  by (metis append_eq_conv_conj append_take_drop_id has_prefix_def)

lemma has_suffix_iff: "has_suffix s p \<longleftrightarrow> (\<exists>t. s = t @ p)"
  by (auto simp: has_suffix_def intro: exI [of _ "take (length s - length p) s"])
    (metis append_take_drop_id)

lemma split_on_nonempty [simp]: "split_on c s \<noteq> []"
  by (induction s) (auto split: list.splits)

lemma split_on_not_mem: "p \<in> set (split_on c s) \<Longrightarrow> c \<notin> set p"
proof (induction s arbitrary: p)
  case (Cons x s)
  then show ?case
    by (cases "split_on c s") (auto split: if_splits)
qed simp

lemma split_on_append_sep:
  "split_on c (s @ c # t) = split_on c s @ split_on c t"
proof (induction s)
  case (Cons x s)
  then show ?case
    by (cases "split_on c s") auto
qed simp

lemma split_on_no_sep: "c \<notin> set s \<Longrightarrow> split_on c s = [s]"
  by (induction s) auto

lemma split_on_join:
  "xs \<noteq> [] \<Longrightarrow> (\<And>x. x \<in> set xs \<Longrightarrow> c \<notin> set x) \<Longrightarrow> split_on c (str_join xs [c]) = xs"
  by (induction xs "[c]" rule: str_join.induct) (auto simp: split_on_no_sep split_on_append_sep)

lemma str_join_split_on: "str_join (split_on c s) [c] = s"
proof (induction s)
  case (Cons x s)
  show ?case
  proof (cases "split_on c s")
    case (Cons p ps)
    then show ?thesis using Cons.IH by (cases ps) auto
  qed simp
qed simp

section \<open>Lists\<close>

lemma map_filter_rules [simp]:
  "List.map_filter f [] = []"
  "List.map_filter f (x # xs) = (case f x of None \<Rightarrow> List.map_filter f xs | Some y \<Rightarrow> y # List.map_filter f xs)"
  "List.map_filter f (xs @ ys) = List.map_filter f xs @ List.map_filter f ys"
  by (simp_all add: List.map_filter_def split: option.split)

section \<open>Slices\<close>

text \<open>Consecutive slices of width \<open>p\<close> are a prefix.\<close>

lemma concat_slices: "concat (map (\<lambda>i. take p (drop (i * p) xs)) [0..<n]) = take (n * p) xs"
proof (induction n)
  case (Suc n)
  have "take (n * p + p) xs = take (n * p) xs @ take p (drop (n * p) xs)" by (rule take_add)
  with Suc show ?case by (simp add: add.commute)
qed simp

text \<open>An int64 that holds a small natural number reads as that number.\<close>

lemma sint_of_nat_i64:
  assumes "n < 2 ^ 63"
  shows "sint (of_nat n :: i64) = int n"
proof -
  have "take_bit 64 n = n" using assms by (simp add: take_bit_nat_eq_self)
  moreover have "int n < 2 ^ 63" using assms by simp
  ultimately show ?thesis
    by (simp add: sint_uint uint_nat unsigned_of_nat signed_take_bit_int_eq_self)
qed

end
