(* ===== verification/Go_Regexp.thy ===== *)
theory Go_Regexp
  imports Prelude
begin

text \<open>
  Package \<open>regexp\<close>, as far as the sources use it: regular expressions over bytes, an executable
  matcher by derivatives for an anchored expression \<open>^...$\<close>, the language of an expression and
  the proof that the matcher decides it. The expressions themselves stand in the theories of the
  components that own them. All of them are ASCII or exclude single ASCII characters, so matching
  bytes agrees with Go's matching of UTF-8.
\<close>

section \<open>Expressions and their languages\<close>

datatype rx =
    RNone
  | REps
  | RCls "char \<Rightarrow> bool"
  | RAlt rx rx
  | RSeq rx rx
  | RStar rx

inductive_set star :: "string set \<Rightarrow> string set" for A :: "string set" where
  star_nil: "[] \<in> star A"
| star_app: "u \<in> A \<Longrightarrow> v \<in> star A \<Longrightarrow> u @ v \<in> star A"

primrec lang :: "rx \<Rightarrow> string set" where
  "lang RNone = {}"
| "lang REps = {[]}"
| "lang (RCls p) = {[c] | c. p c}"
| "lang (RAlt r s) = lang r \<union> lang s"
| "lang (RSeq r s) = {u @ v | u v. u \<in> lang r \<and> v \<in> lang s}"
| "lang (RStar r) = star (lang r)"

text \<open>The derived forms of the syntax: \<open>r+\<close>, \<open>r?\<close>, a literal, \<open>r{n}\<close>, \<open>r{0,n}\<close>.\<close>

definition rplus :: "rx \<Rightarrow> rx" where
  "rplus r = RSeq r (RStar r)"

definition ropt :: "rx \<Rightarrow> rx" where
  "ropt r = RAlt REps r"

definition rchar :: "char \<Rightarrow> rx" where
  "rchar c = RCls (\<lambda>x. x = c)"

definition rstr :: "string \<Rightarrow> rx" where
  "rstr s = foldr (\<lambda>c r. RSeq (rchar c) r) s REps"

primrec rtimes :: "nat \<Rightarrow> rx \<Rightarrow> rx" where
  "rtimes 0 r = REps"
| "rtimes (Suc n) r = RSeq r (rtimes n r)"

primrec rupto :: "nat \<Rightarrow> rx \<Rightarrow> rx" where
  "rupto 0 r = REps"
| "rupto (Suc n) r = RAlt REps (RSeq r (rupto n r))"

definition in_range :: "char \<Rightarrow> char \<Rightarrow> char \<Rightarrow> bool" where
  "in_range lo hi c \<longleftrightarrow> lo \<le> c \<and> c \<le> hi"

definition is_lower :: "char \<Rightarrow> bool" where
  "is_lower = in_range (CHR ''a'') (CHR ''z'')"

definition is_upper :: "char \<Rightarrow> bool" where
  "is_upper = in_range (CHR ''A'') (CHR ''Z'')"

definition is_digit :: "char \<Rightarrow> bool" where
  "is_digit = in_range (CHR ''0'') (CHR ''9'')"

definition is_hex_lower :: "char \<Rightarrow> bool" where
  "is_hex_lower c \<longleftrightarrow> is_digit c \<or> in_range (CHR ''a'') (CHR ''f'') c"

section \<open>The matcher\<close>

primrec nullable :: "rx \<Rightarrow> bool" where
  "nullable RNone = False"
| "nullable REps = True"
| "nullable (RCls p) = False"
| "nullable (RAlt r s) = (nullable r \<or> nullable s)"
| "nullable (RSeq r s) = (nullable r \<and> nullable s)"
| "nullable (RStar r) = True"

fun mk_seq :: "rx \<Rightarrow> rx \<Rightarrow> rx" where
  "mk_seq RNone s = RNone"
| "mk_seq REps s = s"
| "mk_seq r s = RSeq r s"

fun mk_alt :: "rx \<Rightarrow> rx \<Rightarrow> rx" where
  "mk_alt RNone s = s"
| "mk_alt r RNone = r"
| "mk_alt r s = RAlt r s"

primrec deriv :: "char \<Rightarrow> rx \<Rightarrow> rx" where
  "deriv c RNone = RNone"
| "deriv c REps = RNone"
| "deriv c (RCls p) = (if p c then REps else RNone)"
| "deriv c (RAlt r s) = mk_alt (deriv c r) (deriv c s)"
| "deriv c (RSeq r s) =
     (if nullable r then mk_alt (mk_seq (deriv c r) s) (deriv c s) else mk_seq (deriv c r) s)"
| "deriv c (RStar r) = mk_seq (deriv c r) (RStar r)"

fun rmatch :: "rx \<Rightarrow> string \<Rightarrow> bool" where
  "rmatch r [] = nullable r"
| "rmatch r (c # s) = rmatch (deriv c r) s"

section \<open>The matcher decides the language\<close>

lemma nullable_lang: "nullable r \<longleftrightarrow> [] \<in> lang r"
  by (induction r) (auto intro: star_nil)

lemma lang_mk_seq [simp]: "lang (mk_seq r s) = lang (RSeq r s)"
  by (cases r) auto

lemma lang_mk_alt [simp]: "lang (mk_alt r s) = lang (RAlt r s)"
  by (cases r; cases s) auto

lemma star_Cons: "c # w \<in> star A \<longleftrightarrow> (\<exists>u v. w = u @ v \<and> c # u \<in> A \<and> v \<in> star A)"
proof
  assume "c # w \<in> star A"
  then show "\<exists>u v. w = u @ v \<and> c # u \<in> A \<and> v \<in> star A"
  proof (induction "c # w" arbitrary: w)
    case (star_app u v)
    then show ?case by (cases u) auto
  qed
next
  assume "\<exists>u v. w = u @ v \<and> c # u \<in> A \<and> v \<in> star A"
  then obtain u v where "w = u @ v" "c # u \<in> A" "v \<in> star A" by blast
  then show "c # w \<in> star A" using star.star_app [of "c # u" A v] by simp
qed

lemma lang_deriv: "w \<in> lang (deriv c r) \<longleftrightarrow> c # w \<in> lang r"
proof (induction r arbitrary: w)
  case (RSeq r s)
  have "(\<exists>u v. c # w = u @ v \<and> u \<in> lang r \<and> v \<in> lang s) \<longleftrightarrow>
    (\<exists>u v. w = u @ v \<and> c # u \<in> lang r \<and> v \<in> lang s) \<or> ([] \<in> lang r \<and> c # w \<in> lang s)"
    by (auto simp: Cons_eq_append_conv)
  then show ?case
    using RSeq.IH by (simp add: nullable_lang)
next
  case (RStar r)
  then show ?case by (simp add: star_Cons)
qed auto

theorem rmatch_lang: "rmatch r w \<longleftrightarrow> w \<in> lang r"
  by (induction w arbitrary: r) (simp_all add: nullable_lang lang_deriv)

section \<open>Facts on languages\<close>

lemma lang_rplus: "lang (rplus r) = {u @ v | u v. u \<in> lang r \<and> v \<in> star (lang r)}"
  by (simp add: rplus_def)

lemma lang_rchar [simp]: "lang (rchar c) = {[c]}"
  by (auto simp: rchar_def)

lemma lang_rstr [simp]: "lang (rstr s) = {s}"
  by (induction s) (auto simp: rstr_def)

lemma lang_ropt [simp]: "lang (ropt r) = insert [] (lang r)"
  by (simp add: ropt_def)

lemma star_subset_class:
  assumes "w \<in> star A" and "\<And>u. u \<in> A \<Longrightarrow> list_all P u"
  shows "list_all P w"
  using assms by (induction rule: star.induct) auto

lemma star_mono_elem: "u \<in> A \<Longrightarrow> u \<in> star A"
  using star.star_app [of u A "[]"] star.star_nil by simp

text \<open>Every character of a word of \<open>r\<close> satisfies \<open>P\<close> if every class of \<open>r\<close> implies \<open>P\<close>.\<close>

primrec all_cls :: "(char \<Rightarrow> bool) \<Rightarrow> rx \<Rightarrow> bool" where
  "all_cls P RNone = True"
| "all_cls P REps = True"
| "all_cls P (RCls p) = (\<forall>c. p c \<longrightarrow> P c)"
| "all_cls P (RAlt r s) = (all_cls P r \<and> all_cls P s)"
| "all_cls P (RSeq r s) = (all_cls P r \<and> all_cls P s)"
| "all_cls P (RStar r) = all_cls P r"

lemma lang_all_cls: "all_cls P r \<Longrightarrow> w \<in> lang r \<Longrightarrow> list_all P w"
proof (induction r arbitrary: w)
  case (RStar r)
  show ?case
    by (rule star_subset_class [where A = "lang r"]) (use RStar in auto)
qed auto

lemma all_cls_rplus [simp]: "all_cls P (rplus r) = all_cls P r"
  by (simp add: rplus_def)

lemma all_cls_rchar [simp]: "all_cls P (rchar c) = P c"
  by (simp add: rchar_def)

lemma all_cls_rstr [simp]: "all_cls P (rstr s) = list_all P s"
  by (induction s) (auto simp: rstr_def)

lemma all_cls_rtimes: "all_cls P r \<Longrightarrow> all_cls P (rtimes n r)"
  by (induction n) auto

lemma all_cls_rupto: "all_cls P r \<Longrightarrow> all_cls P (rupto n r)"
  by (induction n) auto

lemma lang_seq_cls: "w \<in> lang (RSeq (RCls p) r) \<longleftrightarrow> (\<exists>c v. w = c # v \<and> p c \<and> v \<in> lang r)"
  by (simp, metis append_Cons append_Nil)

lemma rtimes_class_iff: "w \<in> lang (rtimes n (RCls p)) \<longleftrightarrow> length w = n \<and> list_all p w"
proof (induction n arbitrary: w)
  case (Suc n)
  have "w \<in> lang (rtimes (Suc n) (RCls p)) \<longleftrightarrow> (\<exists>c v. w = c # v \<and> p c \<and> length v = n \<and> list_all p v)"
    unfolding rtimes.simps lang_seq_cls Suc.IH ..
  then show ?case by (cases w) auto
qed auto

lemma length_rupto_class: "w \<in> lang (rupto n (RCls p)) \<Longrightarrow> length w \<le> n"
proof (induction n arbitrary: w)
  case (Suc n)
  from Suc.prems have "w = [] \<or> (\<exists>c v. w = c # v \<and> v \<in> lang (rupto n (RCls p)))" by auto
  then show ?case using Suc.IH by auto
qed simp

lemmas lang_simps = lang_rplus lang_rchar lang_rstr lang_ropt

end
