(* ===== verification/Oci_Types.thy ===== *)
theory Oci_Types
  imports Go_Regexp
begin

text \<open>
  The data of \<open>pkg/ocipush\<close> and the state its operations run on.

  \<^item> \<open>descriptor\<close>, \<open>manifestDoc\<close>, \<open>extStartResponse\<close>, \<open>extPart\<close>, \<open>Options\<close>, \<open>directPush\<close> and
    \<open>regClient\<close> are the Go structs. A Go pointer to a \<open>regClient\<close> is its number \<open>c_id\<close>; what the
    pointed-to struct mutates (the client cache, the state of the extension) is in \<open>s_heap\<close>.
  \<^item> \<open>lib\<close> holds the functions of packages outside \<open>src/\<close>, and of \<open>crypto\<close>, \<open>encoding/json\<close> and
    \<open>net/url\<close>, that the code only calls; they are pure.
  \<^item> \<open>env\<close> holds what the operating system and the network answer; \<open>'w\<close> is their unknown state.
  \<^item> \<open>st\<close> is the state: that of the environment, the files on disk, the requests sent so far with
    their outcomes (\<open>s_wire\<close>, newest last) and the heap. A request carries beside its HTTP fields
    the label \<open>q_op\<close> of what it is for, which is never sent; theorems speak about the labels, and
    \<open>url_of_op\<close> ties a label to its URL.
\<close>

section \<open>Descriptors and manifests (ocipush.go)\<close>

definition DefaultExtThreshold :: i64 where
  "DefaultExtThreshold = 8 * 1024 * 1024"

definition mediaTypeImageManifest :: string where
  "mediaTypeImageManifest = ''application/vnd.oci.image.manifest.v1+json''"

record descriptor =
  d_mediaType :: string
  d_digest :: string
  d_size :: i64

record manifestDoc =
  m_mediaType :: string
  m_manifests :: "descriptor list"
  m_config :: "descriptor option"
  m_layers :: "descriptor list"

definition blobs :: "manifestDoc \<Rightarrow> descriptor list" where
  "blobs d = (case m_config d of None \<Rightarrow> m_layers d | Some c \<Rightarrow> c # m_layers d)"

definition mediaTypeOr :: "manifestDoc \<Rightarrow> string \<Rightarrow> string" where
  "mediaTypeOr d explicit =
     (if explicit \<noteq> '''' then explicit
      else if m_mediaType d \<noteq> '''' then m_mediaType d
      else mediaTypeImageManifest)"

definition digestRe :: rx where
  "digestRe = RSeq (rstr ''sha256:'') (rtimes 64 (RCls is_hex_lower))"

section \<open>The extension's data (directpush.go)\<close>

record extStartResponse =
  se_exists :: bool
  se_key :: string
  se_uploadId :: string
  se_partSize :: i64
  se_urls :: "string list"
  se_expiresSeconds :: i64
  se_headers :: "(string \<times> string) list"
  se_deadline :: "int option"  \<comment> \<open>\<open>None\<close> is the zero time\<close>

record extPart =
  p_number :: nat
  p_etag :: string

record directPush =
  dp_threshold :: i64
  dp_partSize :: i64

section \<open>Packages the code only calls\<close>

record lib =
  sha :: "bytes \<Rightarrow> string"  \<comment> \<open>\<open>sha256.Sum256\<close> printed with \<open>%x\<close>\<close>
  parse_doc :: "bytes \<Rightarrow> string + manifestDoc"  \<comment> \<open>\<open>json.Unmarshal\<close>\<close>
  parse_discover :: "bytes \<Rightarrow> string option \<Rightarrow> string + (string \<times> string list) list"
    \<comment> \<open>\<open>json.Decoder.Decode\<close> on a stream: its bytes and the error after them\<close>
  parse_session :: "bytes \<Rightarrow> string option \<Rightarrow> string + extStartResponse"
  marshal :: "json \<Rightarrow> bytes"
  url_err :: "string \<Rightarrow> string option"  \<comment> \<open>the error of \<open>url.Parse\<close>\<close>
  url_resolve :: "string \<Rightarrow> string \<Rightarrow> string"  \<comment> \<open>\<open>ResolveReference\<close>\<close>
  url_set_query :: "string \<Rightarrow> string \<Rightarrow> string \<Rightarrow> string"  \<comment> \<open>\<open>Query\<close>, \<open>Set\<close>, \<open>Encode\<close>\<close>
  scope_of :: "string \<Rightarrow> string \<Rightarrow> string"  \<comment> \<open>\<open>reg.Repo(repo).Scope(action)\<close>\<close>

definition PullScope :: string where "PullScope = ''pull''"
definition PushScope :: string where "PushScope = ''push,pull''"

text \<open>\<open>digestOf\<close>; a \<open>hash.Hash\<close> is the bytes written to it so far.\<close>

definition digestOf :: "lib \<Rightarrow> bytes \<Rightarrow> string" where
  "digestOf L b = ''sha256:'' @ sha L b"

definition digestOfHash :: "lib \<Rightarrow> bytes \<Rightarrow> string" where
  "digestOfHash L h = ''sha256:'' @ sha L h"

lemma digestOfHash_digestOf: "digestOfHash L b = digestOf L b"
  by (simp add: digestOfHash_def digestOf_def)

section \<open>Requests, responses, clients\<close>

datatype op =
    OpBlobHead string string
  | OpUploadStart string
  | OpBlobPut string string
  | OpManifestPut string string
  | OpManifestGet string string
  | OpBlobGet string string
  | OpDiscover
  | OpExtStart string string i64
  | OpExtPart nat
  | OpExtCommit string string i64
  | OpForward string string

datatype client = Client (client_scope: string) (client_transport: nat)

record request =
  q_via :: nat  \<comment> \<open>the \<open>regClient\<close> that sends it\<close>
  q_op :: op
  q_meth :: string
  q_url :: string
  q_auth :: "client option"  \<comment> \<open>\<open>None\<close>: the raw client, no credentials\<close>
  q_hdrs :: "(string \<times> string) list"
  q_body :: bytes
  q_len :: "i64 option"  \<comment> \<open>\<open>ContentLength\<close> where the code sets it\<close>

record response =
  r_status :: nat
  r_hdrs :: "(string \<times> string) list"  \<comment> \<open>canonical names\<close>
  r_body :: bytes
  r_err :: "string option"  \<comment> \<open>the error of reading past \<open>r_body\<close>; \<open>None\<close> is EOF\<close>

type_synonym exchange = "request \<times> (string + response)"

definition header_get :: "(string \<times> string) list \<Rightarrow> string \<Rightarrow> string" where
  "header_get hs k = (case map_of hs k of None \<Rightarrow> '''' | Some v \<Rightarrow> v)"

record 'w env =
  http_do :: "request \<Rightarrow> 'w \<Rightarrow> (string + response) \<times> 'w"
  handshake :: "nat \<Rightarrow> string \<Rightarrow> 'w \<Rightarrow> (string + nat) \<times> 'w"
    \<comment> \<open>\<open>transport.NewWithContext\<close> for a registry and a scope\<close>
  ctx_done :: "'w \<Rightarrow> bool"  \<comment> \<open>\<open>ctx.Err() != nil\<close>\<close>
  clock :: "'w \<Rightarrow> int \<times> 'w"  \<comment> \<open>\<open>time.Now()\<close> in nanoseconds\<close>
  part_order :: "nat \<Rightarrow> 'w \<Rightarrow> nat list"  \<comment> \<open>the order in which n goroutines take effect\<close>
  mkdir_all :: "string \<Rightarrow> 'w \<Rightarrow> string option \<times> 'w"
  create_temp :: "string \<Rightarrow> string \<Rightarrow> 'w \<Rightarrow> (string + string) \<times> 'w"
  write_err :: "string \<Rightarrow> bytes \<Rightarrow> 'w \<Rightarrow> string option"
  close_err :: "string \<Rightarrow> 'w \<Rightarrow> string option"
  getenv :: "string \<Rightarrow> string"
  temp_dir :: string

record regClient =
  c_id :: nat
  c_base :: string
  c_ext :: "directPush option"

record cstate =
  cs_clients :: "string \<rightharpoonup> client"
  cs_usable :: bool
  cs_discovered :: bool

record 'w st =
  s_world :: 'w
  s_disk :: "string \<rightharpoonup> bytes"
  s_wire :: "exchange list"
  s_heap :: "nat \<Rightarrow> cstate"

type_synonym ('a, 'w) result = "(go_err + 'a) \<times> 'w st"

abbreviation upd_heap :: "nat \<Rightarrow> (cstate \<Rightarrow> cstate) \<Rightarrow> 'w st \<Rightarrow> 'w st" where
  "upd_heap i f s \<equiv> s\<lparr>s_heap := (s_heap s)(i := f (s_heap s i))\<rparr>"

text \<open>The URL the code builds for a request with a fixed target.\<close>

fun url_of_op :: "string \<Rightarrow> op \<Rightarrow> string option" where
  "url_of_op b (OpBlobHead r d) = Some (b @ ''/v2/'' @ r @ ''/blobs/'' @ d)"
| "url_of_op b (OpUploadStart r) = Some (b @ ''/v2/'' @ r @ ''/blobs/uploads/'')"
| "url_of_op b (OpManifestPut r d) = Some (b @ ''/v2/'' @ r @ ''/manifests/'' @ d)"
| "url_of_op b (OpManifestGet r d) = Some (b @ ''/v2/'' @ r @ ''/manifests/'' @ d)"
| "url_of_op b (OpBlobGet r d) = Some (b @ ''/v2/'' @ r @ ''/blobs/'' @ d)"
| "url_of_op b OpDiscover = Some (b @ ''/v2/_oci/ext/discover'')"
| "url_of_op b (OpExtStart r d n) = Some (b @ ''/v2/_directpush/v1/uploads'')"
| "url_of_op b (OpExtCommit r d n) = Some (b @ ''/v2/_directpush/v1/commit'')"
| "url_of_op b (OpForward r t) = Some (b @ ''/v2/'' @ r @ ''/'' @ t)"
| "url_of_op b (OpBlobPut r d) = None"
| "url_of_op b (OpExtPart i) = None"

text \<open>
  \<open>io.LimitReader(body, n)\<close> read to its end: past the limit the reader reports the end of the
  stream, not the error of the stream.
\<close>

definition read_limited :: "int \<Rightarrow> bytes \<Rightarrow> string option \<Rightarrow> bytes \<times> string option" where
  "read_limited n body err =
     (if int (length body) < n then (body, err) else (take (nat n) body, None))"

section \<open>What an operation adds to the wire\<close>

text \<open>\<open>adds P s s'\<close>: the requests sent between \<open>s\<close> and \<open>s'\<close> all satisfy \<open>P\<close>, none is lost.\<close>

definition adds :: "(exchange \<Rightarrow> bool) \<Rightarrow> 'w st \<Rightarrow> 'w st \<Rightarrow> bool" where
  "adds P s s' \<longleftrightarrow> (\<exists>xs. s_wire s' = s_wire s @ xs \<and> (\<forall>x \<in> set xs. P x))"

lemma adds_refl [simp, intro]: "adds P s s"
  by (simp add: adds_def)

lemma adds_same_wire: "s_wire s' = s_wire s \<Longrightarrow> adds P s s'"
  by (simp add: adds_def)

lemma adds_trans [trans]: "adds P s s1 \<Longrightarrow> adds P s1 s2 \<Longrightarrow> adds P s s2"
  unfolding adds_def by (elim exE conjE, rule_tac x = "xs @ xsa" in exI) auto

lemma adds_mono: "adds P s s' \<Longrightarrow> (\<And>x. P x \<Longrightarrow> Q x) \<Longrightarrow> adds Q s s'"
  unfolding adds_def by blast

lemma adds_mem: "adds P s s' \<Longrightarrow> e \<in> set (s_wire s) \<Longrightarrow> e \<in> set (s_wire s')"
  unfolding adds_def by auto

lemma adds_new: "adds P s s' \<Longrightarrow> e \<in> set (s_wire s') \<Longrightarrow> e \<in> set (s_wire s) \<or> P e"
  unfolding adds_def by auto

lemma adds_conj: "adds P s s' \<Longrightarrow> adds Q s s' \<Longrightarrow> adds (\<lambda>e. P e \<and> Q e) s s'"
  unfolding adds_def by auto

lemma for_each_adds:
  assumes "\<And>x s r s'. x \<in> set xs \<Longrightarrow> f x s = (r, s') \<Longrightarrow> adds P s s'"
    and "for_each f xs s = (r, s')"
  shows "adds P s s'"
  by (rule for_each_invariant [where I = "adds P s" and f = f and xs = xs, OF _ _ assms(2)])
    (auto intro: adds_trans assms(1))

lemma for_each_opt_adds:
  assumes "\<And>x s r s'. x \<in> set xs \<Longrightarrow> f x s = Some (r, s') \<Longrightarrow> adds P s s'"
    and "for_each_opt f xs s = Some (r, s')"
  shows "adds P s s'"
  by (rule for_each_opt_invariant [where I = "adds P s" and f = f and xs = xs, OF _ _ assms(2)])
    (auto intro: adds_trans assms(1))

text \<open>
  \<open>justified R xs\<close>: every exchange stands in the relation \<open>R\<close> to the exchanges before it. This is
  how ordering is stated: "a manifest is put only after ...", "the extension is used only after
  ...".
\<close>

definition justified :: "(exchange list \<Rightarrow> exchange \<Rightarrow> bool) \<Rightarrow> exchange list \<Rightarrow> bool" where
  "justified R xs \<longleftrightarrow> (\<forall>i < length xs. R (take i xs) (xs ! i))"

lemma justified_Nil [simp, intro]: "justified R []"
  by (simp add: justified_def)

lemma justified_append:
  assumes "justified R xs" and "\<And>p e. e \<in> set ys \<Longrightarrow> R (xs @ p) e"
  shows "justified R (xs @ ys)"
  using assms by (auto simp: justified_def nth_append)

lemma justified_snoc: "justified R (xs @ [e]) \<longleftrightarrow> justified R xs \<and> R xs e"
  by (auto simp: justified_def nth_append less_Suc_eq)

lemma justified_adds:
  assumes "justified R (s_wire s)" and "adds P s s'" and "\<And>p e. P e \<Longrightarrow> R (s_wire s @ p) e"
  shows "justified R (s_wire s')"
  using assms justified_append unfolding adds_def by metis

section \<open>Digests\<close>

text \<open>\<open>sha_hex L\<close>: the hash prints as 64 lower-case hexadecimal digits, as SHA-256 does.\<close>

definition sha_hex :: "lib \<Rightarrow> bool" where
  "sha_hex L \<longleftrightarrow> (\<forall>b. length (sha L b) = 64 \<and> list_all is_hex_lower (sha L b))"

lemma digestOf_matches: "sha_hex L \<Longrightarrow> rmatch digestRe (digestOf L b)"
  by (auto simp: sha_hex_def rmatch_lang digestRe_def digestOf_def rtimes_class_iff
      simp del: rtimes.simps)

lemma digestRe_iff:
  "rmatch digestRe d \<longleftrightarrow> (\<exists>h. d = ''sha256:'' @ h \<and> length h = 64 \<and> list_all is_hex_lower h)"
  by (auto simp: rmatch_lang digestRe_def rtimes_class_iff simp del: rtimes.simps)

end
