(* ===== verification/Reg_Client.thy ===== *)
theory Reg_Client
  imports Oci_Types
begin

text \<open>
  \<open>pkg/ocipush/client.go\<close>: the registry client without the extension. Errors and their
  classification, the cache of authenticated clients, the requests of the distribution protocol
  and the monolithic blob upload with its retries. (\<open>pushBlobFile\<close>, which chooses between this
  upload and the extension, stands in \<open>Blob_Push\<close>.)
\<close>

section \<open>Errors\<close>

text \<open>\<open>errors.Is(err, errRetryable)\<close>: the chain of wrapped errors is searched.\<close>

fun is_retryable :: "go_err \<Rightarrow> bool" where
  "is_retryable (StatusErr op status body) = (status \<ge> 500 \<or> status = 429)"
| "is_retryable (RetryableErr e) = True"
| "is_retryable (Wrap p e) = is_retryable e"
| "is_retryable (Msg m) = False"
| "is_retryable ExtUnsupported = False"
| "is_retryable ExtExpired = False"

text \<open>\<open>errors.As(err, &se)\<close> with \<open>se *statusErr\<close>, followed by \<open>se.Status()\<close>.\<close>

fun as_status :: "go_err \<Rightarrow> nat option" where
  "as_status (StatusErr op status body) = Some status"
| "as_status (RetryableErr e) = as_status e"
| "as_status (Wrap p e) = as_status e"
| "as_status (Msg m) = None"
| "as_status ExtUnsupported = None"
| "as_status ExtExpired = None"

text \<open>\<open>err.Error()\<close>\<close>

fun err_text :: "go_err \<Rightarrow> string" where
  "err_text (StatusErr op status body) =
     (if body = '''' then op @ '': status '' @ itoa (int status)
      else op @ '': status '' @ itoa (int status) @ '': '' @ body)"
| "err_text (RetryableErr e) = err_text e"
| "err_text (Wrap p e) = p @ '': '' @ err_text e"
| "err_text (Msg m) = m"
| "err_text ExtUnsupported = ''registry does not support the direct-upload extension''"
| "err_text ExtExpired = ''presigned upload urls expired''"

definition errorBody :: "response \<Rightarrow> string" where
  "errorBody res = take 1024 (r_body res)"

definition statusError :: "string \<Rightarrow> response \<Rightarrow> go_err" where
  "statusError opn res = StatusErr opn (r_status res) (trim_space (errorBody res))"

section \<open>Making a client\<close>

text \<open>
  \<open>Options\<close>, as far as a client depends on it: credentials given or resolved from a keychain
  (\<open>resolve\<close> is the third-party \<open>keychain.Resolve\<close>), the threshold and the part size.
\<close>

record Options =
  o_auth :: "string option"
  o_keychain :: "string option"
  o_extThreshold :: i64
  o_partSize :: i64
  o_stagingDir :: string

definition newRegClient ::
  "(string \<Rightarrow> string \<Rightarrow> string + string) \<Rightarrow> nat \<Rightarrow> string \<Rightarrow> string \<Rightarrow> Options \<Rightarrow>
   go_err + (regClient \<times> string \<times> cstate)" where
  "newRegClient resolve i scheme host opts =
     (case (case o_auth opts of
              Some a \<Rightarrow> Inr a
            | None \<Rightarrow>
                let keychain = (case o_keychain opts of None \<Rightarrow> ''DefaultKeychain'' | Some k \<Rightarrow> k)
                in resolve keychain host) of
        Inl e \<Rightarrow> Inl (Wrap (''resolve credentials for '' @ host) (Msg e))
      | Inr auth \<Rightarrow>
          let threshold = (if o_extThreshold opts = 0 then DefaultExtThreshold else o_extThreshold opts)
          in Inr (\<lparr>c_id = i, c_base = scheme @ ''://'' @ host,
                   c_ext = Some \<lparr>dp_threshold = threshold, dp_partSize = o_partSize opts\<rparr>\<rparr>,
                  auth,
                  \<lparr>cs_clients = Map.empty, cs_usable = False, cs_discovered = False\<rparr>))"

section \<open>Authenticated clients\<close>

text \<open>
  \<open>client\<close> takes the lock twice: to look the scope up, and, after the handshake, to store the
  client unless another goroutine stored one meanwhile. \<open>client_store\<close> is the second critical
  section.
\<close>

definition client_store :: "string \<Rightarrow> client \<Rightarrow> cstate \<Rightarrow> client \<times> cstate" where
  "client_store scope built h =
     (case cs_clients h scope of
        Some existing \<Rightarrow> (existing, h)
      | None \<Rightarrow> (built, h\<lparr>cs_clients := (cs_clients h)(scope \<mapsto> built)\<rparr>))"

definition client ::
  "lib \<Rightarrow> 'w env \<Rightarrow> regClient \<Rightarrow> string \<Rightarrow> string \<Rightarrow> 'w st \<Rightarrow> (client, 'w) result" where
  "client L E c repo action s =
     (let scope = scope_of L repo action in
      case cs_clients (s_heap s (c_id c)) scope of
        Some cached \<Rightarrow> (Inr cached, s)
      | None \<Rightarrow>
          (case handshake E (c_id c) scope (s_world s) of
             (Inl e, w1) \<Rightarrow> (Inl (Wrap (''registry auth for '' @ scope) (Msg e)), s\<lparr>s_world := w1\<rparr>)
           | (Inr t, w1) \<Rightarrow>
               (case client_store scope (Client scope t) (s_heap s (c_id c)) of
                  (cl, h) \<Rightarrow> (Inr cl, s\<lparr>s_world := w1, s_heap := (s_heap s)(c_id c := h)\<rparr>))))"

section \<open>Sending requests\<close>

definition newRequest :: "lib \<Rightarrow> regClient \<Rightarrow> op \<Rightarrow> string \<Rightarrow> string \<Rightarrow> bytes \<Rightarrow> go_err + request" where
  "newRequest L c opn method target body =
     (case url_err L target of
        Some e \<Rightarrow> Inl (Msg e)
      | None \<Rightarrow> Inr \<lparr>q_via = c_id c, q_op = opn, q_meth = method, q_url = target, q_auth = None,
                     q_hdrs = [], q_body = body, q_len = None\<rparr>)"

text \<open>\<open>http.Client.Do\<close>: the exchange is recorded on the wire.\<close>

definition send :: "'w env \<Rightarrow> request \<Rightarrow> 'w st \<Rightarrow> (response, 'w) result" where
  "send E req s =
     (case http_do E req (s_world s) of
        (out, w1) \<Rightarrow>
          (case out of Inl e \<Rightarrow> Inl (Msg e) | Inr res \<Rightarrow> Inr res,
           s\<lparr>s_world := w1, s_wire := s_wire s @ [(req, out)]\<rparr>))"

definition do_req ::
  "lib \<Rightarrow> 'w env \<Rightarrow> regClient \<Rightarrow> string \<Rightarrow> string \<Rightarrow> request \<Rightarrow> 'w st \<Rightarrow> (response, 'w) result" where
  "do_req L E c repo action req s =
     (case client L E c repo action s of
        (Inl e, s1) \<Rightarrow> (Inl e, s1)
      | (Inr cl, s1) \<Rightarrow> send E (req\<lparr>q_auth := Some cl\<rparr>) s1)"

definition blobExists ::
  "lib \<Rightarrow> 'w env \<Rightarrow> regClient \<Rightarrow> string \<Rightarrow> string \<Rightarrow> string \<Rightarrow> 'w st \<Rightarrow> (bool, 'w) result" where
  "blobExists L E c repo dg action s =
     (case newRequest L c (OpBlobHead repo dg) ''HEAD''
             (c_base c @ ''/v2/'' @ repo @ ''/blobs/'' @ dg) [] of
        Inl e \<Rightarrow> (Inl e, s)
      | Inr req \<Rightarrow>
          (case do_req L E c repo action req s of
             (Inl e, s1) \<Rightarrow> (Inl (Wrap (''blob head '' @ dg) e), s1)
           | (Inr res, s1) \<Rightarrow>
               (if r_status res = 200 then (Inr True, s1)
                else if r_status res = 404 then (Inr False, s1)
                else (Inl (statusError (''blob head '' @ dg) res), s1))))"

definition resolveLocation :: "lib \<Rightarrow> string \<Rightarrow> string \<Rightarrow> string \<Rightarrow> go_err + string" where
  "resolveLocation L requestURL location dg =
     (if location = '''' then Inl (Msg ''no Location in upload start response'')
      else case url_err L requestURL of
        Some e \<Rightarrow> Inl (Msg e)
      | None \<Rightarrow>
          (case url_err L location of
             Some e \<Rightarrow> Inl (Wrap ''parse upload location'' (Msg e))
           | None \<Rightarrow> Inr (url_set_query L (url_resolve L requestURL location) ''digest'' dg)))"

text \<open>
  One attempt of the monolithic upload: POST opens a session, PUT sends the file. The body of the
  PUT is the file's content; \<open>ContentLength\<close> is the descriptor's size.
\<close>

definition putBlobOnce ::
  "lib \<Rightarrow> 'w env \<Rightarrow> regClient \<Rightarrow> string \<Rightarrow> descriptor \<Rightarrow> string \<Rightarrow> 'w st \<Rightarrow> (unit, 'w) result" where
  "putBlobOnce L E c repo d path s =
     (let postURL = c_base c @ ''/v2/'' @ repo @ ''/blobs/uploads/'' in
      case newRequest L c (OpUploadStart repo) ''POST'' postURL [] of
        Inl e \<Rightarrow> (Inl e, s)
      | Inr req \<Rightarrow>
      (case do_req L E c repo PushScope req s of
        (Inl e, s1) \<Rightarrow> (Inl (RetryableErr (Wrap ''blob upload start'' e)), s1)
      | (Inr res, s1) \<Rightarrow>
      (if r_status res \<noteq> 202 then (Inl (statusError ''blob upload start'' res), s1)
       else
        let location = header_get (r_hdrs res) ''Location'' in
        case resolveLocation L postURL location (d_digest d) of
          Inl e \<Rightarrow> (Inl e, s1)
        | Inr target \<Rightarrow>
        (case s_disk s1 path of
          None \<Rightarrow> (Inl (Msg (''open '' @ path @ '': no such file or directory'')), s1)
        | Some content \<Rightarrow>
        (case newRequest L c (OpBlobPut repo (d_digest d)) ''PUT'' target content of
          Inl e \<Rightarrow> (Inl e, s1)
        | Inr put \<Rightarrow>
        (case do_req L E c repo PushScope
                (put\<lparr>q_len := Some (d_size d),
                     q_hdrs := [(''Content-Type'', ''application/octet-stream'')]\<rparr>) s1 of
          (Inl e, s2) \<Rightarrow> (Inl (RetryableErr (Wrap (''blob put '' @ d_digest d) e)), s2)
        | (Inr putRes, s2) \<Rightarrow>
            (if r_status putRes \<noteq> 201 then (Inl (statusError (''blob put '' @ d_digest d) putRes), s2)
             else (Inr (), s2))))))))"

definition standardUploadRetries :: nat where
  "standardUploadRetries = 2"

text \<open>
  The retry loop: \<open>left\<close> is the number of attempts still allowed and \<open>err\<close> the Go variable,
  which is what the function returns when the loop ends.
\<close>

fun pushBlobStandard_loop ::
  "lib \<Rightarrow> 'w env \<Rightarrow> regClient \<Rightarrow> string \<Rightarrow> descriptor \<Rightarrow> string \<Rightarrow> nat \<Rightarrow> go_err + unit \<Rightarrow> 'w st \<Rightarrow>
   (unit, 'w) result" where
  "pushBlobStandard_loop L E c repo d path 0 err s = (err, s)"
| "pushBlobStandard_loop L E c repo d path (Suc left) err s =
     (case putBlobOnce L E c repo d path s of
        (Inr _, s1) \<Rightarrow> (Inr (), s1)
      | (Inl e, s1) \<Rightarrow>
          (if ctx_done E (s_world s1) \<or> \<not> is_retryable e then (Inl e, s1)
           else pushBlobStandard_loop L E c repo d path left (Inl e) s1))"

definition pushBlobStandard ::
  "lib \<Rightarrow> 'w env \<Rightarrow> regClient \<Rightarrow> string \<Rightarrow> descriptor \<Rightarrow> string \<Rightarrow> 'w st \<Rightarrow> (unit, 'w) result" where
  "pushBlobStandard L E c repo d path s =
     pushBlobStandard_loop L E c repo d path (Suc standardUploadRetries) (Inr ()) s"

definition postJSON ::
  "lib \<Rightarrow> 'w env \<Rightarrow> regClient \<Rightarrow> string \<Rightarrow> op \<Rightarrow> string \<Rightarrow> json \<Rightarrow> 'w st \<Rightarrow> (response, 'w) result" where
  "postJSON L E c repo opn path body s =
     (let b = marshal L body in
      case newRequest L c opn ''POST'' (c_base c @ path) b of
        Inl e \<Rightarrow> (Inl e, s)
      | Inr req \<Rightarrow>
          do_req L E c repo PushScope (req\<lparr>q_hdrs := [(''Content-Type'', ''application/json'')]\<rparr>) s)"

definition putManifest ::
  "lib \<Rightarrow> 'w env \<Rightarrow> regClient \<Rightarrow> string \<Rightarrow> bytes \<Rightarrow> string \<Rightarrow> string \<Rightarrow> 'w st \<Rightarrow> (unit, 'w) result" where
  "putManifest L E c repo raw mt refOrDigest s =
     (case newRequest L c (OpManifestPut repo refOrDigest) ''PUT''
             (c_base c @ ''/v2/'' @ repo @ ''/manifests/'' @ refOrDigest) raw of
        Inl e \<Rightarrow> (Inl e, s)
      | Inr req \<Rightarrow>
          (case do_req L E c repo PushScope (req\<lparr>q_hdrs := [(''Content-Type'', mt)]\<rparr>) s of
             (Inl e, s1) \<Rightarrow> (Inl (Wrap (''manifest put '' @ refOrDigest) e), s1)
           | (Inr res, s1) \<Rightarrow>
               (if r_status res < 200 \<or> r_status res > 299
                then (Inl (statusError (''manifest put '' @ refOrDigest) res), s1)
                else (Inr (), s1))))"

section \<open>What a request does to the state\<close>

text \<open>
  \<open>keeps s s'\<close>: the files are untouched and every cached client stays the one that is used.
  \<open>ext_same\<close>: the extension's state of every client is untouched.
\<close>

definition keeps :: "'w st \<Rightarrow> 'w st \<Rightarrow> bool" where
  "keeps s s' \<longleftrightarrow> s_disk s' = s_disk s \<and>
     (\<forall>i. cs_clients (s_heap s i) \<subseteq>\<^sub>m cs_clients (s_heap s' i))"

definition ext_same :: "'w st \<Rightarrow> 'w st \<Rightarrow> bool" where
  "ext_same s s' \<longleftrightarrow> (\<forall>i. cs_usable (s_heap s' i) = cs_usable (s_heap s i) \<and>
     cs_discovered (s_heap s' i) = cs_discovered (s_heap s i))"

lemma keeps_refl [simp, intro]: "keeps s s"
  by (simp add: keeps_def)

lemma keeps_trans [trans]: "keeps s s1 \<Longrightarrow> keeps s1 s2 \<Longrightarrow> keeps s s2"
  by (auto simp: keeps_def intro: map_le_trans)

lemma keeps_disk: "keeps s s' \<Longrightarrow> s_disk s' = s_disk s"
  by (simp add: keeps_def)

lemma ext_same_refl [simp, intro]: "ext_same s s"
  by (simp add: ext_same_def)

lemma ext_same_trans [trans]: "ext_same s s1 \<Longrightarrow> ext_same s1 s2 \<Longrightarrow> ext_same s s2"
  by (simp add: ext_same_def)

text \<open>One client per scope: a stored client is never replaced, whoever wins the race.\<close>

lemma client_store_le: "client_store scope b h = (cl, h') \<Longrightarrow> cs_clients h \<subseteq>\<^sub>m cs_clients h'"
  by (auto simp: client_store_def map_le_def split: option.splits)

lemma client_store_cached: "client_store scope b h = (cl, h') \<Longrightarrow> cs_clients h' scope = Some cl"
  by (auto simp: client_store_def split: option.splits)

lemma client_store_ext: "client_store scope b h = (cl, h') \<Longrightarrow>
    cs_usable h' = cs_usable h \<and> cs_discovered h' = cs_discovered h"
  by (auto simp: client_store_def split: option.splits)

lemma client_cases:
  assumes "client L E c repo action s = (r, s')"
  obtains (cached) cl where "r = Inr cl" "s' = s"
      "cs_clients (s_heap s (c_id c)) (scope_of L repo action) = Some cl"
  | (denied) e w where "r = Inl e" "s' = s\<lparr>s_world := w\<rparr>"
  | (built) b cl h w where "r = Inr cl"
      "client_store (scope_of L repo action) b (s_heap s (c_id c)) = (cl, h)"
      "s' = s\<lparr>s_world := w, s_heap := (s_heap s)(c_id c := h)\<rparr>"
proof (cases "cs_clients (s_heap s (c_id c)) (scope_of L repo action)")
  case (Some cl)
  with assms show ?thesis by (intro cached [of cl]) (simp_all add: client_def Let_def)
next
  case None
  obtain a w where hs: "handshake E (c_id c) (scope_of L repo action) (s_world s) = (a, w)" by fastforce
  show ?thesis
  proof (cases a)
    case (Inl e)
    with assms None hs show ?thesis
      by (intro denied [of "Wrap (''registry auth for '' @ scope_of L repo action) (Msg e)" w])
        (simp_all add: client_def Let_def)
  next
    case (Inr t)
    obtain cl h where st:
      "client_store (scope_of L repo action) (Client (scope_of L repo action) t) (s_heap s (c_id c)) = (cl, h)"
      by fastforce
    show ?thesis
      using assms None hs Inr st by (intro built [of cl _ h w]) (simp_all add: client_def Let_def)
  qed
qed

lemma client_wire: "client L E c repo action s = (r, s') \<Longrightarrow> s_wire s' = s_wire s"
  by (erule client_cases) simp_all

lemma client_keeps: "client L E c repo action s = (r, s') \<Longrightarrow> keeps s s'"
  by (erule client_cases) (auto simp: keeps_def dest: client_store_le)

lemma client_ext_same: "client L E c repo action s = (r, s') \<Longrightarrow> ext_same s s'"
  by (erule client_cases) (auto simp: ext_same_def dest: client_store_ext)

lemma client_cached:
  "client L E c repo action s = (Inr cl, s') \<Longrightarrow>
     cs_clients (s_heap s' (c_id c)) (scope_of L repo action) = Some cl"
  by (erule client_cases) (auto dest: client_store_cached)

lemma newRequest_fields:
  "newRequest L c opn m t b = Inr q \<Longrightarrow>
     q_via q = c_id c \<and> q_op q = opn \<and> q_meth q = m \<and> q_url q = t \<and> q_body q = b \<and> q_auth q = None"
  by (auto simp: newRequest_def split: option.splits)

lemma send_wire:
  "send E q s = (Inl e, s') \<Longrightarrow> \<exists>m. s_wire s' = s_wire s @ [(q, Inl m)] \<and> e = Msg m"
  "send E q s = (Inr res, s') \<Longrightarrow> s_wire s' = s_wire s @ [(q, Inr res)]"
  by (auto simp: send_def split: prod.splits sum.splits)

lemma send_frame: "send E q s = (r, s') \<Longrightarrow> s_disk s' = s_disk s \<and> s_heap s' = s_heap s"
  by (auto simp: send_def split: prod.splits)

text \<open>A failed request was refused an authenticated client, or its transport failed.\<close>

lemma do_req_cases:
  assumes "do_req L E c repo action q s = (r, s')"
  obtains (denied) e where "r = Inl e" "s_wire s' = s_wire s"
  | (failed) cl m where "r = Inl (Msg m)" "s_wire s' = s_wire s @ [(q\<lparr>q_auth := Some cl\<rparr>, Inl m)]"
  | (answered) cl res where "r = Inr res" "s_wire s' = s_wire s @ [(q\<lparr>q_auth := Some cl\<rparr>, Inr res)]"
      "cs_clients (s_heap s' (c_id c)) (scope_of L repo action) = Some cl"
proof -
  obtain r1 s1 where 1: "client L E c repo action s = (r1, s1)" by fastforce
  note w = client_wire [OF 1]
  show thesis
  proof (cases r1)
    case (Inl e)
    with assms 1 w that(1) [of e] show ?thesis by (simp add: do_req_def)
  next
    case (Inr cl)
    with assms 1 have 2: "send E (q\<lparr>q_auth := Some cl\<rparr>) s1 = (r, s')" by (simp add: do_req_def)
    show ?thesis
    proof (cases r)
      case (Inl e)
      with send_wire(1) 2 w that(2) show ?thesis by fastforce
    next
      case (Inr res)
      show ?thesis
      proof (rule that(3) [OF Inr])
        show "s_wire s' = s_wire s @ [(q\<lparr>q_auth := Some cl\<rparr>, Inr res)]"
          using send_wire(2) 2 w Inr by fastforce
        show "cs_clients (s_heap s' (c_id c)) (scope_of L repo action) = Some cl"
          using client_cached 1 send_frame [OF 2] \<open>r1 = Inr cl\<close> by auto
      qed
    qed
  qed
qed

lemma do_req_Inr:
  assumes "do_req L E c repo action q s = (Inr res, s')"
  shows "\<exists>cl. s_wire s' = s_wire s @ [(q\<lparr>q_auth := Some cl\<rparr>, Inr res)]"
  using assms by (cases rule: do_req_cases) auto

lemma do_req_frame:
  assumes "do_req L E c repo action q s = (r, s')"
  shows "keeps s s' \<and> ext_same s s'"
proof -
  obtain r1 s1 where 1: "client L E c repo action s = (r1, s1)" by fastforce
  show ?thesis
    using assms 1 client_keeps [OF 1] client_ext_same [OF 1]
    by (cases r1) (auto simp: do_req_def keeps_def ext_same_def dest!: send_frame)
qed

lemma do_req_adds:
  assumes "do_req L E c repo action q s = (r, s')"
    and "\<And>cl out. P (q\<lparr>q_auth := Some cl\<rparr>, out)"
  shows "adds P s s'"
  using assms(1) by (cases rule: do_req_cases) (auto simp: adds_def assms(2))

text \<open>
  The requests of a client \<open>c\<close> whose labels satisfy \<open>ops\<close>. \<open>req_ok\<close> is what holds of every
  request: its URL is the one its label stands for, and it carries credentials unless it goes to a
  presigned storage URL.
\<close>

fun is_part :: "op \<Rightarrow> bool" where
  "is_part (OpExtPart i) = True"
| "is_part _ = False"

definition req_ok :: "regClient \<Rightarrow> request \<Rightarrow> bool" where
  "req_ok c q \<longleftrightarrow> (q_auth q = None \<longleftrightarrow> is_part (q_op q))
     \<and> (case url_of_op (c_base c) (q_op q) of None \<Rightarrow> True | Some u \<Rightarrow> q_url q = u)"

definition ev :: "regClient \<Rightarrow> (op \<Rightarrow> bool) \<Rightarrow> exchange \<Rightarrow> bool" where
  "ev c ops e \<longleftrightarrow> q_via (fst e) = c_id c \<and> ops (q_op (fst e)) \<and> req_ok c (fst e)"

lemma ev_mono: "ev c P e \<Longrightarrow> (\<And>x. P x \<Longrightarrow> Q x) \<Longrightarrow> ev c Q e"
  by (simp add: ev_def)

text \<open>Each operation: the requests it sends, and its frame.\<close>

lemma blobExists_adds [wire_rules]:
  "blobExists L E c repo dg action s = (r, s') \<Longrightarrow> adds (ev c (\<lambda>x. x = OpBlobHead repo dg)) s s'"
  by (auto simp: blobExists_def ev_def req_ok_def split: sum.splits prod.splits if_splits
      dest!: newRequest_fields intro!: do_req_adds)

lemma blobExists_frame:
  "blobExists L E c repo dg action s = (r, s') \<Longrightarrow> keeps s s' \<and> ext_same s s'"
  by (auto simp: blobExists_def split: sum.splits prod.splits if_splits dest: do_req_frame)

lemma blobExists_True:
  assumes "blobExists L E c repo dg action s = (Inr True, s')"
  shows "\<exists>q res. s_wire s' = s_wire s @ [(q, Inr res)] \<and> q_via q = c_id c
     \<and> q_op q = OpBlobHead repo dg \<and> r_status res = 200"
  using assms
  by (auto simp: blobExists_def split: sum.splits prod.splits if_splits
      dest!: newRequest_fields do_req_Inr)

lemma postJSON_adds [wire_rules]:
  "postJSON L E c repo opn path body s = (r, s') \<Longrightarrow>
     url_of_op (c_base c) opn = Some (c_base c @ path) \<Longrightarrow> \<not> is_part opn \<Longrightarrow>
     adds (ev c (\<lambda>x. x = opn)) s s'"
  by (auto simp: postJSON_def ev_def req_ok_def Let_def split: sum.splits
      dest!: newRequest_fields intro!: do_req_adds)

lemma postJSON_frame:
  "postJSON L E c repo opn path body s = (r, s') \<Longrightarrow> keeps s s' \<and> ext_same s s'"
  by (auto simp: postJSON_def Let_def split: sum.splits dest: do_req_frame)

lemma postJSON_Inr:
  assumes "postJSON L E c repo opn path body s = (Inr res, s')"
  shows "\<exists>q. s_wire s' = s_wire s @ [(q, Inr res)] \<and> q_via q = c_id c \<and> q_op q = opn
     \<and> q_url q = c_base c @ path \<and> q_body q = marshal L body"
  using assms
  by (auto simp: postJSON_def Let_def split: sum.splits dest!: newRequest_fields do_req_Inr)

lemma putManifest_adds [wire_rules]:
  assumes "putManifest L E c repo raw mt ref s = (r, s')"
  shows "adds (\<lambda>e. ev c (\<lambda>x. x = OpManifestPut repo ref) e \<and> q_body (fst e) = raw) s s'"
  using assms
  by (auto simp: putManifest_def ev_def req_ok_def split: sum.splits prod.splits if_splits
      dest!: newRequest_fields intro!: do_req_adds)

lemma putManifest_frame:
  "putManifest L E c repo raw mt ref s = (r, s') \<Longrightarrow> keeps s s' \<and> ext_same s s'"
  by (auto simp: putManifest_def split: sum.splits prod.splits if_splits dest: do_req_frame)

lemma putManifest_Inr:
  assumes "putManifest L E c repo raw mt ref s = (Inr (), s')"
  shows "\<exists>q res. s_wire s' = s_wire s @ [(q, Inr res)] \<and> q_via q = c_id c
     \<and> q_op q = OpManifestPut repo ref \<and> q_body q = raw
     \<and> q_hdrs q = [(''Content-Type'', mt)] \<and> 200 \<le> r_status res \<and> r_status res \<le> 299"
  using assms
  by (auto simp: putManifest_def split: sum.splits prod.splits if_splits
      dest!: newRequest_fields do_req_Inr)

section \<open>The monolithic upload\<close>

definition upload_ops :: "string \<Rightarrow> string \<Rightarrow> op \<Rightarrow> bool" where
  "upload_ops repo dg x \<longleftrightarrow> x = OpUploadStart repo \<or> x = OpBlobPut repo dg"

text \<open>A response by which the registry refused the request: resending the same bytes cannot help.\<close>

definition refused :: "exchange \<Rightarrow> bool" where
  "refused e \<longleftrightarrow> (case snd e of Inl m \<Rightarrow> False
     | Inr res \<Rightarrow> 400 \<le> r_status res \<and> r_status res < 500 \<and> r_status res \<noteq> 429)"

definition starts_upload :: "string \<Rightarrow> exchange \<Rightarrow> bool" where
  "starts_upload repo e \<longleftrightarrow> q_op (fst e) = OpUploadStart repo"

text \<open>The file's bytes were accepted for the digest.\<close>

definition blob_put_ok :: "regClient \<Rightarrow> string \<Rightarrow> string \<Rightarrow> bytes \<Rightarrow> exchange \<Rightarrow> bool" where
  "blob_put_ok c repo dg content e \<longleftrightarrow> ev c (\<lambda>x. x = OpBlobPut repo dg) e
     \<and> q_body (fst e) = content
     \<and> (case snd e of Inl m \<Rightarrow> False | Inr res \<Rightarrow> r_status res = 201)"

text \<open>
  What one attempt sends: nothing, the POST, or the POST answered with 202 and then the PUT. Only
  the last of them can have been refused, and then the attempt's error is not retryable.
\<close>

definition attempt_trace ::
  "regClient \<Rightarrow> string \<Rightarrow> string \<Rightarrow> bytes option \<Rightarrow> go_err + unit \<Rightarrow> exchange list \<Rightarrow> bool" where
  "attempt_trace c repo dg content r xs \<longleftrightarrow>
     length (filter (starts_upload repo) xs) \<le> 1
     \<and> (\<forall>e \<in> set xs. ev c (upload_ops repo dg) e)
     \<and> (\<forall>e \<in> set (butlast xs). \<not> refused e)
     \<and> (\<forall>e. r = Inl e \<and> is_retryable e \<and> xs \<noteq> [] \<longrightarrow> \<not> refused (last xs))
     \<and> (r = Inr () \<longrightarrow> xs \<noteq> [] \<and> (\<exists>b. content = Some b \<and> blob_put_ok c repo dg b (last xs)))"

lemma is_retryable_statusError:
  "is_retryable (statusError opn res) \<longleftrightarrow> r_status res \<ge> 500 \<or> r_status res = 429"
  by (simp add: statusError_def)

lemma refused_Inl [simp]: "\<not> refused (q, Inl m)"
  by (simp add: refused_def)

lemma refused_Inr [simp]:
  "refused (q, Inr res) \<longleftrightarrow> 400 \<le> r_status res \<and> r_status res < 500 \<and> r_status res \<noteq> 429"
  by (simp add: refused_def)

lemma attempt_trace_none: "r \<noteq> Inr () \<Longrightarrow> attempt_trace c repo dg content r []"
  by (simp add: attempt_trace_def)

lemma attempt_trace_post:
  assumes "q_via q = c_id c" and "q_op q = OpUploadStart repo" and "req_ok c q" and "r = Inl e"
    and "is_retryable e \<Longrightarrow> \<not> refused (q, out)"
  shows "attempt_trace c repo dg content r [(q, out)]"
  using assms by (auto simp: attempt_trace_def starts_upload_def ev_def upload_ops_def)

lemma attempt_trace_put:
  assumes "q_via q = c_id c" and "q_op q = OpUploadStart repo" and "req_ok c q" and "r_status res = 202"
    and "q_via p = c_id c" and "q_op p = OpBlobPut repo dg" and "req_ok c p" and "q_body p = b" and "content = Some b"
    and "\<And>e. r = Inl e \<Longrightarrow> is_retryable e \<Longrightarrow> \<not> refused (p, out)"
    and "r = Inr () \<Longrightarrow> \<exists>res. out = Inr res \<and> r_status res = 201"
  shows "attempt_trace c repo dg content r [(q, Inr res), (p, out)]"
  using assms by (auto simp: attempt_trace_def starts_upload_def ev_def upload_ops_def blob_put_ok_def)

text \<open>The requests of one attempt, its PUT included when the file can be read.\<close>

lemma putBlobOnce_trace:
  assumes "putBlobOnce L E c repo d path s = (r, s')"
  shows "\<exists>xs. s_wire s' = s_wire s @ xs \<and> attempt_trace c repo (d_digest d) (s_disk s path) r xs"
proof -
  let ?url = "c_base c @ ''/v2/'' @ repo @ ''/blobs/uploads/''"
  show ?thesis
  proof (cases "newRequest L c (OpUploadStart repo) ''POST'' ?url []")
    case (Inl e)
    with assms show ?thesis by (auto simp: putBlobOnce_def Let_def intro: attempt_trace_none)
  next
    case (Inr q)
    note q = newRequest_fields [OF Inr]
    obtain r1 s1 where d1: "do_req L E c repo PushScope q s = (r1, s1)" by fastforce
    note f1 = keeps_disk [OF conjunct1 [OF do_req_frame [OF d1]]]
    from d1 show ?thesis
    proof (cases rule: do_req_cases)
      case (denied e)
      with assms Inr d1 show ?thesis
        by (auto simp: putBlobOnce_def Let_def intro: attempt_trace_none)
    next
      case (failed cl m)
      with assms Inr d1 q show ?thesis
        by (auto simp: putBlobOnce_def Let_def simp: req_ok_def intro: attempt_trace_post)
    next
      case (answered cl res)
      show ?thesis
      proof (cases "r_status res = 202")
        case False
        with assms Inr d1 answered q show ?thesis
          by (auto simp: putBlobOnce_def Let_def is_retryable_statusError simp: req_ok_def intro: attempt_trace_post)
      next
        case True
        note post = assms Inr d1 answered q True
        let ?loc = "resolveLocation L ?url (header_get (r_hdrs res) ''Location'') (d_digest d)"
        let ?put = "\<lambda>t b. newRequest L c (OpBlobPut repo (d_digest d)) ''PUT'' t b"
        show ?thesis
        proof (cases "\<exists>t b p. ?loc = Inr t \<and> s_disk s1 path = Some b \<and> ?put t b = Inr p")
          case False
          then have "\<exists>e. r = Inl e \<and> \<not> is_retryable e" and "s' = s1"
            using post by (auto simp: putBlobOnce_def Let_def resolveLocation_def newRequest_def
                split: sum.splits option.splits if_splits)
          with post show ?thesis by (auto simp: req_ok_def intro: attempt_trace_post)
        next
          case True
          then obtain t b p where t: "?loc = Inr t" "s_disk s1 path = Some b" "?put t b = Inr p"
            by blast
          note p = newRequest_fields [OF t(3)]
          let ?p = "p\<lparr>q_len := Some (d_size d),
            q_hdrs := [(''Content-Type'', ''application/octet-stream'')]\<rparr>"
          obtain r2 s2 where d2: "do_req L E c repo PushScope ?p s1 = (r2, s2)" by fastforce
          from d2 show ?thesis
          proof (cases rule: do_req_cases)
            case (denied e)
            with post t d2 show ?thesis
              by (auto simp: putBlobOnce_def Let_def simp: req_ok_def intro!: attempt_trace_post)
          next
            case (failed cl2 m)
            with post t d2 p f1 show ?thesis
              by (auto simp: putBlobOnce_def Let_def simp: req_ok_def intro!: attempt_trace_put)
          next
            case (answered cl2 res2)
            with post t d2 p f1 show ?thesis
              by (auto simp: putBlobOnce_def Let_def is_retryable_statusError split: if_splits
                  simp: req_ok_def intro!: attempt_trace_put)
          qed
        qed
      qed
    qed
  qed
qed

lemma putBlobOnce_frame:
  "putBlobOnce L E c repo d path s = (r, s') \<Longrightarrow> keeps s s' \<and> ext_same s s'"
  by (auto simp: putBlobOnce_def Let_def split: sum.splits prod.splits if_splits option.splits
      dest!: do_req_frame intro: keeps_trans ext_same_trans)

text \<open>
  What the retries send altogether: at most \<open>n\<close> upload sessions, and nothing after a refusal.
\<close>

definition retry_trace ::
  "regClient \<Rightarrow> string \<Rightarrow> string \<Rightarrow> bytes option \<Rightarrow> nat \<Rightarrow> go_err + unit \<Rightarrow> exchange list \<Rightarrow> bool" where
  "retry_trace c repo dg content n r xs \<longleftrightarrow>
     length (filter (starts_upload repo) xs) \<le> n
     \<and> (\<forall>e \<in> set xs. ev c (upload_ops repo dg) e)
     \<and> (\<forall>e \<in> set (butlast xs). \<not> refused e)
     \<and> (r = Inr () \<longrightarrow> xs \<noteq> [] \<and> (\<exists>b. content = Some b \<and> blob_put_ok c repo dg b (last xs)))"

lemma attempt_retry_trace: "attempt_trace c repo dg content r xs \<Longrightarrow> retry_trace c repo dg content (Suc n) r xs"
  by (simp add: attempt_trace_def retry_trace_def)

lemma retry_trace_append:
  assumes "attempt_trace c repo dg content (Inl e) xs" and "is_retryable e"
    and "retry_trace c repo dg content n r ys"
  shows "retry_trace c repo dg content (Suc n) r (xs @ ys)"
proof -
  have "\<not> refused x" if "x \<in> set xs" for x
  proof -
    from that have "xs \<noteq> []" by auto
    with that have "x \<in> set (butlast xs) \<or> x = last xs"
      by (metis append_butlast_last_id in_set_conv_decomp rotate1.simps(2) set_ConsD set_rotate1)
    with assms(1,2) \<open>xs \<noteq> []\<close> show ?thesis by (auto simp: attempt_trace_def)
  qed
  with assms(1,3) show ?thesis
    by (auto simp: attempt_trace_def retry_trace_def butlast_append split: if_splits)
qed

lemma pushBlobStandard_loop_trace:
  assumes "pushBlobStandard_loop L E c repo d path n err s = (r, s')" and "n = 0 \<Longrightarrow> err \<noteq> Inr ()"
  shows "keeps s s' \<and> ext_same s s' \<and>
    (\<exists>xs. s_wire s' = s_wire s @ xs \<and> retry_trace c repo (d_digest d) (s_disk s path) n r xs)"
  using assms
proof (induction n arbitrary: err s)
  case 0
  then show ?case by (simp add: retry_trace_def)
next
  case (Suc n)
  obtain r1 s1 where once: "putBlobOnce L E c repo d path s = (r1, s1)" by fastforce
  obtain xs where xs: "s_wire s1 = s_wire s @ xs"
      "attempt_trace c repo (d_digest d) (s_disk s path) r1 xs"
    using putBlobOnce_trace [OF once] by blast
  note frame = putBlobOnce_frame [OF once]
  show ?case
  proof (cases "\<exists>e. r1 = Inl e \<and> \<not> ctx_done E (s_world s1) \<and> is_retryable e")
    case True
    then obtain e where e: "r1 = Inl e" "\<not> ctx_done E (s_world s1)" "is_retryable e" by blast
    with Suc.prems(1) once have "pushBlobStandard_loop L E c repo d path n (Inl e) s1 = (r, s')"
      by simp
    then obtain ys where ys: "keeps s1 s'" "ext_same s1 s'" "s_wire s' = s_wire s1 @ ys"
        "retry_trace c repo (d_digest d) (s_disk s1 path) n r ys"
      using Suc.IH by blast
    have "retry_trace c repo (d_digest d) (s_disk s path) (Suc n) r (xs @ ys)"
      using xs(2) ys(4) e keeps_disk [OF conjunct1 [OF frame]]
      by (intro retry_trace_append) simp_all
    with xs ys frame show ?thesis
      by (auto intro: keeps_trans ext_same_trans)
  next
    case False
    with Suc.prems(1) once have "r = r1" "s' = s1" by (cases r1; auto)+
    with xs frame show ?thesis by (blast intro: attempt_retry_trace)
  qed
qed

lemma pushBlobStandard_frame:
  "pushBlobStandard L E c repo d path s = (r, s') \<Longrightarrow> keeps s s' \<and> ext_same s s'"
  unfolding pushBlobStandard_def by (drule pushBlobStandard_loop_trace) simp_all

lemma pushBlobStandard_trace:
  assumes "pushBlobStandard L E c repo d path s = (r, s')"
  shows "\<exists>xs. s_wire s' = s_wire s @ xs \<and>
    retry_trace c repo (d_digest d) (s_disk s path) (Suc standardUploadRetries) r xs"
  using pushBlobStandard_loop_trace [OF assms [unfolded pushBlobStandard_def]] by simp


section \<open>The body of a blob upload\<close>

text \<open>The PUT of a blob carries the file's bytes and announces the descriptor's size.\<close>

definition carries :: "descriptor \<Rightarrow> bytes option \<Rightarrow> exchange \<Rightarrow> bool" where
  "carries d content e \<longleftrightarrow> (\<forall>repo dg. q_op (fst e) = OpBlobPut repo dg \<longrightarrow>
     Some (q_body (fst e)) = content \<and> q_len (fst e) = Some (d_size d))"

lemma carries_other: "ev c ops e \<Longrightarrow> (\<And>repo dg. \<not> ops (OpBlobPut repo dg)) \<Longrightarrow> carries d content e"
  by (auto simp: ev_def carries_def)

lemma do_req_carries:
  assumes "do_req L E c repo action q s = (r, s')"
    and "\<And>repo dg. q_op q = OpBlobPut repo dg \<Longrightarrow> Some (q_body q) = content \<and> q_len q = Some (d_size d)"
  shows "adds (carries d content) s s'"
  using assms(1) by (rule do_req_adds) (auto simp: carries_def assms(2))

lemma putBlobOnce_carries:
  assumes "putBlobOnce L E c repo d path s = (r, s')"
  shows "adds (carries d (s_disk s path)) s s'"
proof -
  let ?url = "c_base c @ ''/v2/'' @ repo @ ''/blobs/uploads/''"
  show ?thesis
  proof (cases "newRequest L c (OpUploadStart repo) ''POST'' ?url []")
    case (Inl e)
    with assms show ?thesis by (simp add: putBlobOnce_def)
  next
    case (Inr q)
    obtain r1 s1 where d1: "do_req L E c repo PushScope q s = (r1, s1)" by fastforce
    have a1: "adds (carries d (s_disk s path)) s s1"
      by (rule do_req_carries [OF d1]) (use newRequest_fields [OF Inr] in auto)
    note disk = keeps_disk [OF conjunct1 [OF do_req_frame [OF d1]]]
    show ?thesis
    proof (cases "s' = s1")
      case False
      then obtain res t b p where t: "s_disk s1 path = Some b"
          "newRequest L c (OpBlobPut repo (d_digest d)) ''PUT'' t b = Inr p"
        and put: "\<exists>r2. do_req L E c repo PushScope
          (p\<lparr>q_len := Some (d_size d),
             q_hdrs := [(''Content-Type'', ''application/octet-stream'')]\<rparr>) s1 = (r2, s')"
        using assms Inr d1
        by (auto simp: putBlobOnce_def Let_def split: sum.splits if_splits option.splits prod.splits)
      then obtain r2 where d2: "do_req L E c repo PushScope
          (p\<lparr>q_len := Some (d_size d),
             q_hdrs := [(''Content-Type'', ''application/octet-stream'')]\<rparr>) s1 = (r2, s')" by blast
      have "adds (carries d (s_disk s path)) s1 s'"
        by (rule do_req_carries [OF d2]) (use newRequest_fields [OF t(2)] t(1) disk in auto)
      with a1 show ?thesis by (rule adds_trans)
    qed (use a1 in simp)
  qed
qed

lemma pushBlobStandard_carries:
  assumes "pushBlobStandard L E c repo d path s = (r, s')"
  shows "adds (carries d (s_disk s path)) s s'"
proof -
  have "adds (carries d (s_disk s path)) s s'"
    if "pushBlobStandard_loop L E c repo d path n err s = (r, s')" for n err s
    using that
  proof (induction n arbitrary: err s)
    case (Suc n)
    obtain r1 s1 where once: "putBlobOnce L E c repo d path s = (r1, s1)" by fastforce
    have "s_disk s1 = s_disk s" using putBlobOnce_frame [OF once] by (simp add: keeps_disk)
    then have "adds (carries d (s_disk s path)) s1 s'"
      if "pushBlobStandard_loop L E c repo d path n err s1 = (r, s')" for err
      using Suc.IH [OF that] by simp
    with Suc.prems once putBlobOnce_carries [OF once] show ?case
      by (cases r1) (auto split: if_splits intro: adds_trans)
  qed simp
  from this [OF assms [unfolded pushBlobStandard_def]] show ?thesis .
qed

end
