(* ===== verification/Direct_Push.thy ===== *)
theory Direct_Push
  imports Reg_Client
begin

text \<open>
  \<open>pkg/ocipush/directpush.go\<close>, the optional \<open>_directpush\<close> extension: discovery (once per client),
  upload sessions, the part uploads to presigned URLs, the commit, the retry with a fresh session
  when the URLs expire, and the latch that turns the extension off when the registry does not honour
  it. \<open>pushBlobFile\<close> of \<open>client.go\<close>, which prefers the extension for large blobs, closes the theory.

  The parts are uploaded by goroutines, four at a time (\<open>partUploadConcurrency\<close>); \<open>part_order\<close> is the
  order in which they take effect, any order here. After
  the first error the group's context is cancelled, so that the remaining parts are not sent.
\<close>

section \<open>Discovery\<close>

definition extSessionRetries :: nat where
  "extSessionRetries = 1"

definition wants :: "directPush option \<Rightarrow> i64 \<Rightarrow> bool" where
  "wants e sz = (case e of None \<Rightarrow> False | Some dp \<Rightarrow> sint sz \<ge> sint (dp_threshold dp))"

text \<open>\<open>errors.Is\<close> against the two sentinels.\<close>

fun is_unsupported :: "go_err \<Rightarrow> bool" where
  "is_unsupported ExtUnsupported = True"
| "is_unsupported (Wrap p e) = is_unsupported e"
| "is_unsupported (RetryableErr e) = is_unsupported e"
| "is_unsupported _ = False"

fun is_expired :: "go_err \<Rightarrow> bool" where
  "is_expired ExtExpired = True"
| "is_expired (Wrap p e) = is_expired e"
| "is_expired (RetryableErr e) = is_expired e"
| "is_expired _ = False"

text \<open>
  The discovery document is read through an \<open>io.LimitReader\<close> of 1 MiB.
\<close>

definition discover_limit :: int where
  "discover_limit = 1024 * 1024"

definition advertised :: "lib \<Rightarrow> response \<Rightarrow> bool" where
  "advertised L res =
     (case case_prod (parse_discover L) (read_limited discover_limit (r_body res) (r_err res)) of
        Inl e \<Rightarrow> False
      | Inr exts \<Rightarrow>
          list_ex (\<lambda>x. fst x = ''_directpush'' \<and> List.member (snd x) ''_directpush/v1/uploads'') exts)"

definition directpushSupported ::
  "lib \<Rightarrow> 'w env \<Rightarrow> regClient \<Rightarrow> string \<Rightarrow> 'w st \<Rightarrow> bool \<times> 'w st" where
  "directpushSupported L E c repo s =
     (let i = c_id c;
          s' =
            (if cs_discovered (s_heap s i) then s
             else
              let s0 = upd_heap i (\<lambda>h. h\<lparr>cs_discovered := True\<rparr>) s in
              case newRequest L c OpDiscover ''GET'' (c_base c @ ''/v2/_oci/ext/discover'') [] of
                Inl e \<Rightarrow> s0
              | Inr req \<Rightarrow>
                  (case do_req L E c repo PushScope req s0 of
                     (Inl e, s1) \<Rightarrow> s1
                   | (Inr res, s1) \<Rightarrow>
                       (if r_status res \<noteq> 200 then s1
                        else if advertised L res then upd_heap i (\<lambda>h. h\<lparr>cs_usable := True\<rparr>) s1
                        else s1)))
      in (cs_usable (s_heap s' i), s'))"

section \<open>Sessions, parts, commit\<close>

definition extStartSession ::
  "lib \<Rightarrow> 'w env \<Rightarrow> regClient \<Rightarrow> directPush \<Rightarrow> string \<Rightarrow> descriptor \<Rightarrow> 'w st \<Rightarrow>
   (extStartResponse, 'w) result" where
  "extStartSession L E c dp repo d s =
     (let start =
        [(''repository'', JStr repo), (''digest'', JStr (d_digest d)), (''size'', JNum (sint (d_size d)))]
        @ (if sint (dp_partSize dp) > 0 then [(''partSize'', JNum (sint (dp_partSize dp)))] else []) in
      case clock E (s_world s) of (requested, w) \<Rightarrow>
      (case postJSON L E c repo (OpExtStart repo (d_digest d) (d_size d)) ''/v2/_directpush/v1/uploads''
              (JObj start) (s\<lparr>s_world := w\<rparr>) of
        (Inl e, s1) \<Rightarrow> (Inl (Wrap ''direct upload start'' e), s1)
      | (Inr res, s1) \<Rightarrow>
          (if r_status res = 200 then
             (case parse_session L (r_body res) (r_err res) of
                Inl e \<Rightarrow> (Inl ExtUnsupported, s1)
              | Inr session \<Rightarrow>
                  (if \<not> se_exists session \<and> (se_urls session = [] \<or> sint (se_partSize session) \<le> 0)
                   then (Inl ExtUnsupported, s1)
                   else
                     (Inr (session\<lparr>se_deadline :=
                        (if sint (se_expiresSeconds session) > 0
                         then Some (requested + sint (se_expiresSeconds session * 1000000000))
                         else None)\<rparr>), s1)))
           else if r_status res = 501 then (Inl ExtUnsupported, s1)
           else if r_status res = 401 \<or> r_status res = 403 \<or> r_status res = 400 \<or> r_status res \<ge> 500
           then (Inl (Msg (''direct upload start: status '' @ itoa (int (r_status res)) @ '': ''
                   @ errorBody res)), s1)
           else (Inl ExtUnsupported, s1))))"

text \<open>One goroutine: part \<open>i\<close> (from 0) of the file's \<open>content\<close>; int64 arithmetic as in the code.\<close>

definition part_offset :: "extStartResponse \<Rightarrow> nat \<Rightarrow> i64" where
  "part_offset session i = of_nat i * se_partSize session"

definition part_length :: "extStartResponse \<Rightarrow> descriptor \<Rightarrow> nat \<Rightarrow> i64" where
  "part_length session d i =
     (let rest = d_size d - part_offset session i in
      if sint (se_partSize session) \<le> sint rest then se_partSize session else rest)"

definition section_bytes :: "bytes \<Rightarrow> i64 \<Rightarrow> i64 \<Rightarrow> bytes" where
  "section_bytes content offset len = take (nat (sint len)) (drop (nat (sint offset)) content)"

definition part_name :: "nat \<Rightarrow> string" where
  "part_name i = ''part '' @ itoa (int (Suc i))"

definition upload_part ::
  "lib \<Rightarrow> 'w env \<Rightarrow> regClient \<Rightarrow> extStartResponse \<Rightarrow> descriptor \<Rightarrow> bytes \<Rightarrow> bool \<Rightarrow> nat \<Rightarrow> 'w st \<Rightarrow>
   (extPart, 'w) result" where
  "upload_part L E c session d content cancelled i s =
     (let offset = part_offset session i; len = part_length session d i in
      if sint len \<le> 0
      then (Inl (Msg (part_name i @ '': no data at offset '' @ itoa (sint offset))), s)
      else
       case (case se_deadline session of
               None \<Rightarrow> (False, s)
             | Some deadline \<Rightarrow>
                 (case clock E (s_world s) of (t, w) \<Rightarrow> (deadline < t, s\<lparr>s_world := w\<rparr>))) of
         (expired, s1) \<Rightarrow>
       (if expired then (Inl (Wrap (part_name i) ExtExpired), s1)
        else
         case newRequest L c (OpExtPart (Suc i)) ''PUT'' (se_urls session ! i)
                (section_bytes content offset len) of
           Inl e \<Rightarrow> (Inl e, s1)
         | Inr req \<Rightarrow>
            (if cancelled then (Inl (Wrap (part_name i) (Msg ''context canceled'')), s1)
             else if sint offset < 0 then (Inl (Wrap (part_name i) (Msg ''negative offset'')), s1)
             else
              (case send E (req\<lparr>q_len := Some len, q_hdrs := se_headers session\<rparr>) s1 of
                 (Inl e, s2) \<Rightarrow> (Inl (Wrap (part_name i) e), s2)
               | (Inr res, s2) \<Rightarrow>
                   (if r_status res = 403
                    then (Inl (Wrap (part_name i @ '': '' @ errorBody res) ExtExpired), s2)
                    else if r_status res < 200 \<or> r_status res > 299
                    then (Inl (Msg (part_name i @ '': status '' @ itoa (int (r_status res)) @ '': ''
                            @ errorBody res)), s2)
                    else (Inr \<lparr>p_number = Suc i, p_etag = header_get (r_hdrs res) ''Etag''\<rparr>, s2))))))"

text \<open>The goroutines one after the other; \<open>err\<close> is the group's first error.\<close>

fun run_parts ::
  "lib \<Rightarrow> 'w env \<Rightarrow> regClient \<Rightarrow> extStartResponse \<Rightarrow> descriptor \<Rightarrow> bytes \<Rightarrow> nat list \<Rightarrow>
   extPart list \<Rightarrow> go_err option \<Rightarrow> 'w st \<Rightarrow> (extPart list \<times> go_err option) \<times> 'w st" where
  "run_parts L E c session d content [] parts err s = ((parts, err), s)"
| "run_parts L E c session d content (i # is) parts err s =
     (case upload_part L E c session d content (err \<noteq> None) i s of
        (Inl e, s1) \<Rightarrow>
          run_parts L E c session d content is parts (case err of None \<Rightarrow> Some e | Some e0 \<Rightarrow> Some e0) s1
      | (Inr p, s1) \<Rightarrow> run_parts L E c session d content is (parts[i := p]) err s1)"

definition extUploadParts ::
  "lib \<Rightarrow> 'w env \<Rightarrow> regClient \<Rightarrow> extStartResponse \<Rightarrow> descriptor \<Rightarrow> bytes \<Rightarrow> 'w st \<Rightarrow>
   (extPart list, 'w) result" where
  "extUploadParts L E c session d content s =
     (let n = length (se_urls session) in
      case run_parts L E c session d content (filter (\<lambda>i. i < n) (part_order E n (s_world s)))
             (replicate n \<lparr>p_number = 0, p_etag = ''''\<rparr>) None s of
        ((parts, Some e), s1) \<Rightarrow> (Inl e, s1)
      | ((parts, None), s1) \<Rightarrow> (Inr parts, s1))"

definition part_json :: "extPart \<Rightarrow> json" where
  "part_json p = JObj [(''partNumber'', JNum (int (p_number p))), (''etag'', JStr (p_etag p))]"

definition extCommit ::
  "lib \<Rightarrow> 'w env \<Rightarrow> regClient \<Rightarrow> string \<Rightarrow> descriptor \<Rightarrow> extStartResponse \<Rightarrow> extPart list \<Rightarrow> 'w st \<Rightarrow>
   (unit, 'w) result" where
  "extCommit L E c repo d session parts s =
     (let commit =
        [(''repository'', JStr repo), (''digest'', JStr (d_digest d)), (''size'', JNum (sint (d_size d))),
         (''key'', JStr (se_key session))]
        @ (if se_uploadId session \<noteq> ''''
           then [(''uploadId'', JStr (se_uploadId session)), (''parts'', JArr (map part_json parts))]
           else []) in
      case postJSON L E c repo (OpExtCommit repo (d_digest d) (d_size d)) ''/v2/_directpush/v1/commit''
             (JObj commit) s of
        (Inl e, s1) \<Rightarrow> (Inl (Wrap ''direct upload commit'' e), s1)
      | (Inr res, s1) \<Rightarrow>
          (if r_status res \<noteq> 200
           then (Inl (Msg (''direct upload commit '' @ d_digest d @ '': status ''
                   @ itoa (int (r_status res)) @ '': '' @ errorBody res)), s1)
           else (Inr (), s1)))"

function pushBlobExt_loop ::
  "lib \<Rightarrow> 'w env \<Rightarrow> regClient \<Rightarrow> directPush \<Rightarrow> string \<Rightarrow> descriptor \<Rightarrow> bytes \<Rightarrow> nat \<Rightarrow> 'w st \<Rightarrow>
   (unit, 'w) result" where
  "pushBlobExt_loop L E c dp repo d content attempt s =
     (case extStartSession L E c dp repo d s of
        (Inl e, s1) \<Rightarrow> (Inl e, s1)
      | (Inr session, s1) \<Rightarrow>
          (if se_exists session then (Inr (), s1)
           else
            (case extUploadParts L E c session d content s1 of
               (Inl e, s2) \<Rightarrow>
                 (if is_expired e \<and> attempt < extSessionRetries
                  then pushBlobExt_loop L E c dp repo d content (Suc attempt) s2
                  else (Inl (Wrap (''direct upload '' @ d_digest d) e), s2))
             | (Inr parts, s2) \<Rightarrow> extCommit L E c repo d session parts s2)))"
  by pat_completeness auto
termination
  by (relation "measure (\<lambda>(L, E, c, dp, repo, d, content, attempt, s). extSessionRetries - attempt)") auto

declare pushBlobExt_loop.simps [simp del]

definition pushBlobExt ::
  "lib \<Rightarrow> 'w env \<Rightarrow> regClient \<Rightarrow> directPush \<Rightarrow> string \<Rightarrow> descriptor \<Rightarrow> string \<Rightarrow> 'w st \<Rightarrow>
   (unit, 'w) result" where
  "pushBlobExt L E c dp repo d path s =
     (case s_disk s path of
        None \<Rightarrow> (Inl (Msg (''open '' @ path @ '': no such file or directory'')), s)
      | Some content \<Rightarrow> pushBlobExt_loop L E c dp repo d content 0 s)"

definition tryDirectPush ::
  "lib \<Rightarrow> 'w env \<Rightarrow> regClient \<Rightarrow> string \<Rightarrow> descriptor \<Rightarrow> string \<Rightarrow> 'w st \<Rightarrow> (bool, 'w) result" where
  "tryDirectPush L E c repo d path s =
     (case c_ext c of
        None \<Rightarrow> (Inr False, s)
      | Some dp \<Rightarrow>
          (if \<not> wants (c_ext c) (d_size d) then (Inr False, s)
           else
            (case directpushSupported L E c repo s of
               (False, s1) \<Rightarrow> (Inr False, s1)
             | (True, s1) \<Rightarrow>
                 (case pushBlobExt L E c dp repo d path s1 of
                    (Inr _, s2) \<Rightarrow> (Inr True, s2)
                  | (Inl e, s2) \<Rightarrow>
                      (if \<not> is_unsupported e then (Inl e, s2)
                       else (Inr False, upd_heap (c_id c) (\<lambda>h. h\<lparr>cs_usable := False\<rparr>) s2))))))"

section \<open>Pushing a file\<close>

definition pushBlobFile ::
  "lib \<Rightarrow> 'w env \<Rightarrow> regClient \<Rightarrow> string \<Rightarrow> descriptor \<Rightarrow> string \<Rightarrow> 'w st \<Rightarrow> (unit, 'w) result" where
  "pushBlobFile L E c repo d path s =
     (case blobExists L E c repo (d_digest d) PushScope s of
        (Inl e, s1) \<Rightarrow> (Inl e, s1)
      | (Inr True, s1) \<Rightarrow> (Inr (), s1)
      | (Inr False, s1) \<Rightarrow>
          (case tryDirectPush L E c repo d path s1 of
             (Inl e, s2) \<Rightarrow> (Inl e, s2)
           | (Inr True, s2) \<Rightarrow> (Inr (), s2)
           | (Inr False, s2) \<Rightarrow> pushBlobStandard L E c repo d path s2))"

section \<open>What the extension sends\<close>

fun is_ext :: "op \<Rightarrow> bool" where
  "is_ext (OpExtStart r d n) = True"
| "is_ext (OpExtPart i) = True"
| "is_ext (OpExtCommit r d n) = True"
| "is_ext _ = False"

text \<open>The operations that moving one blob into one repository may use.\<close>

fun blob_op :: "string \<Rightarrow> string \<Rightarrow> op \<Rightarrow> bool" where
  "blob_op repo dg (OpBlobHead r d) = (r = repo \<and> d = dg)"
| "blob_op repo dg (OpUploadStart r) = (r = repo)"
| "blob_op repo dg (OpBlobPut r d) = (r = repo \<and> d = dg)"
| "blob_op repo dg OpDiscover = True"
| "blob_op repo dg (OpExtStart r d n) = (r = repo \<and> d = dg)"
| "blob_op repo dg (OpExtPart i) = True"
| "blob_op repo dg (OpExtCommit r d n) = (r = repo \<and> d = dg)"
| "blob_op repo dg _ = False"

lemma upload_ops_blob_op: "upload_ops repo dg x \<Longrightarrow> blob_op repo dg x"
  by (auto simp: upload_ops_def)

lemma heap_upd_keeps [simp]:
  "keeps s (upd_heap i (\<lambda>h. h\<lparr>cs_discovered := b\<rparr>) s)"
  "keeps s (upd_heap i (\<lambda>h. h\<lparr>cs_usable := b\<rparr>) s)"
  by (auto simp: keeps_def)

lemma extStartSession_adds:
  "extStartSession L E c dp repo d s = (r, s') \<Longrightarrow>
     adds (ev c (\<lambda>x. x = OpExtStart repo (d_digest d) (d_size d))) s s'"
  by (auto simp: extStartSession_def Let_def adds_def split: prod.splits sum.splits if_splits
      dest!: postJSON_adds)

lemma extStartSession_frame:
  "extStartSession L E c dp repo d s = (r, s') \<Longrightarrow> keeps s s' \<and> ext_same s s'"
  by (auto simp: extStartSession_def Let_def keeps_def ext_same_def
      split: prod.splits sum.splits if_splits dest!: postJSON_frame)

text \<open>A session that was opened: the contract it meets.\<close>

lemma extStartSession_Inr:
  assumes "extStartSession L E c dp repo d s = (Inr session, s')"
  shows "\<exists>q res parsed. s_wire s' = s_wire s @ [(q, Inr res)] \<and> q_via q = c_id c
     \<and> q_op q = OpExtStart repo (d_digest d) (d_size d) \<and> r_status res = 200
     \<and> parse_session L (r_body res) (r_err res) = Inr parsed
     \<and> session = parsed\<lparr>se_deadline := se_deadline session\<rparr>
     \<and> (se_exists session \<or> se_urls session \<noteq> [] \<and> sint (se_partSize session) > 0)"
proof -
  obtain requested w where "clock E (s_world s) = (requested, w)" by fastforce
  with assms show ?thesis
    by (auto simp: extStartSession_def Let_def split: prod.splits sum.splits if_splits
        dest!: postJSON_Inr)
qed

text \<open>Parts go to the presigned URLs: raw client, exactly the prescribed headers.\<close>

definition part_event :: "regClient \<Rightarrow> extStartResponse \<Rightarrow> exchange \<Rightarrow> bool" where
  "part_event c session e \<longleftrightarrow> ev c is_part e \<and> q_hdrs (fst e) = se_headers session"

lemma upload_part_adds:
  "upload_part L E c session d content b i s = (r, s') \<Longrightarrow> adds (part_event c session) s s'"
  by (auto simp: upload_part_def Let_def send_def adds_def part_event_def ev_def req_ok_def newRequest_def
      split: option.splits prod.splits sum.splits if_splits)

lemma upload_part_frame:
  "upload_part L E c session d content b i s = (r, s') \<Longrightarrow> keeps s s' \<and> ext_same s s'"
  by (auto simp: upload_part_def Let_def send_def keeps_def ext_same_def newRequest_def
      split: option.splits prod.splits sum.splits if_splits)

lemma run_parts_adds:
  "run_parts L E c session d content is parts err s = (r, s') \<Longrightarrow> adds (part_event c session) s s'"
proof (induction "is" arbitrary: parts err s)
  case (Cons i "is")
  obtain r1 s1 where 1: "upload_part L E c session d content (err \<noteq> None) i s = (r1, s1)" by fastforce
  with Cons show ?case
    by (cases r1) (auto intro: adds_trans [OF upload_part_adds [OF 1]])
qed simp

lemma run_parts_frame:
  "run_parts L E c session d content is parts err s = (r, s') \<Longrightarrow> keeps s s' \<and> ext_same s s'"
proof (induction "is" arbitrary: parts err s)
  case (Cons i "is")
  obtain r1 s1 where 1: "upload_part L E c session d content (err \<noteq> None) i s = (r1, s1)" by fastforce
  with Cons upload_part_frame [OF 1] show ?case
    by (cases r1) (auto intro: keeps_trans ext_same_trans)
qed simp

lemma extUploadParts_adds:
  "extUploadParts L E c session d content s = (r, s') \<Longrightarrow> adds (part_event c session) s s'"
  by (auto simp: extUploadParts_def Let_def split: prod.splits option.splits dest: run_parts_adds)

lemma extUploadParts_frame:
  "extUploadParts L E c session d content s = (r, s') \<Longrightarrow> keeps s s' \<and> ext_same s s'"
  by (auto simp: extUploadParts_def Let_def split: prod.splits option.splits dest: run_parts_frame)

lemma extCommit_adds:
  "extCommit L E c repo d session parts s = (r, s') \<Longrightarrow>
     adds (ev c (\<lambda>x. x = OpExtCommit repo (d_digest d) (d_size d))) s s'"
  by (auto simp: extCommit_def Let_def split: prod.splits sum.splits if_splits dest!: postJSON_adds)

lemma extCommit_frame:
  "extCommit L E c repo d session parts s = (r, s') \<Longrightarrow> keeps s s' \<and> ext_same s s'"
  by (auto simp: extCommit_def Let_def split: prod.splits sum.splits if_splits dest!: postJSON_frame)

lemma extCommit_Inr:
  assumes "extCommit L E c repo d session parts s = (Inr (), s')"
  shows "\<exists>q res. s_wire s' = s_wire s @ [(q, Inr res)] \<and> q_via q = c_id c
     \<and> q_op q = OpExtCommit repo (d_digest d) (d_size d) \<and> r_status res = 200"
  using assms
  by (auto simp: extCommit_def Let_def split: prod.splits sum.splits if_splits dest!: postJSON_Inr)

text \<open>
  The evidence that the registry holds a blob: it answered so to a HEAD, accepted an upload,
  committed a direct upload, or said so when a session was requested.
\<close>

definition blob_ok :: "lib \<Rightarrow> regClient \<Rightarrow> string \<Rightarrow> string \<Rightarrow> exchange \<Rightarrow> bool" where
  "blob_ok L c repo dg e \<longleftrightarrow> q_via (fst e) = c_id c \<and>
     (case snd e of
        Inl m \<Rightarrow> False
      | Inr res \<Rightarrow>
          (case q_op (fst e) of
             OpBlobHead r d \<Rightarrow> r = repo \<and> d = dg \<and> r_status res = 200
           | OpBlobPut r d \<Rightarrow> r = repo \<and> d = dg \<and> r_status res = 201
           | OpExtCommit r d n \<Rightarrow> r = repo \<and> d = dg \<and> r_status res = 200
           | OpExtStart r d n \<Rightarrow> r = repo \<and> d = dg \<and> r_status res = 200 \<and>
               (case parse_session L (r_body res) (r_err res) of
                  Inl m \<Rightarrow> False | Inr session \<Rightarrow> se_exists session)
           | _ \<Rightarrow> False))"

definition has_blob :: "lib \<Rightarrow> regClient \<Rightarrow> string \<Rightarrow> string \<Rightarrow> exchange list \<Rightarrow> bool" where
  "has_blob L c repo dg wire \<longleftrightarrow> (\<exists>e \<in> set wire. blob_ok L c repo dg e)"

lemma has_blob_append [simp]:
  "has_blob L c repo dg (xs @ ys) \<longleftrightarrow> has_blob L c repo dg xs \<or> has_blob L c repo dg ys"
  by (auto simp: has_blob_def)

lemma has_blob_adds: "has_blob L c repo dg (s_wire s) \<Longrightarrow> adds P s s' \<Longrightarrow> has_blob L c repo dg (s_wire s')"
  by (auto simp: adds_def)

lemma pushBlobExt_loop_trace:
  assumes "pushBlobExt_loop L E c dp repo d content attempt s = (r, s')"
  shows "adds (ev c (\<lambda>x. is_ext x \<and> blob_op repo (d_digest d) x)) s s' \<and> keeps s s' \<and> ext_same s s'
     \<and> (r = Inr () \<longrightarrow> has_blob L c repo (d_digest d) (s_wire s'))"
  using assms
proof (induction L E c dp repo d content attempt s rule: pushBlobExt_loop.induct)
  case (1 L E c dp repo d content attempt s)
  let ?P = "ev c (\<lambda>x. is_ext x \<and> blob_op repo (d_digest d) x)"
  obtain r1 s1 where st: "extStartSession L E c dp repo d s = (r1, s1)" by fastforce
  have a1: "adds ?P s s1" by (rule adds_mono [OF extStartSession_adds [OF st]]) (auto simp: ev_def)
  note f1 = extStartSession_frame [OF st]
  show ?case
  proof (cases r1)
    case (Inl e)
    with "1.prems" st a1 f1 show ?thesis by (auto simp: pushBlobExt_loop.simps)
  next
    case (Inr session)
    note opened = extStartSession_Inr [OF st [unfolded Inr]]
    show ?thesis
    proof (cases "se_exists session")
      case True
      moreover have "has_blob L c repo (d_digest d) (s_wire s1)"
        using opened True by (auto simp: has_blob_def blob_ok_def) (metis extStartResponse.select_convs(1) extStartResponse.surjective extStartResponse.update_convs(8))
      ultimately show ?thesis using "1.prems" st Inr a1 f1 by (auto simp: pushBlobExt_loop.simps)
    next
      case False
      obtain r2 s2 where up: "extUploadParts L E c session d content s1 = (r2, s2)" by fastforce
      have a2: "adds ?P s1 s2"
        by (rule adds_mono [OF extUploadParts_adds [OF up]])
          (auto simp: ev_def part_event_def elim!: is_part.elims)
      note f2 = extUploadParts_frame [OF up]
      note sofar = adds_trans [OF a1 a2] keeps_trans [of s s1 s2] ext_same_trans [of s s1 s2] f1 f2
      show ?thesis
      proof (cases r2)
        case (Inl e)
        show ?thesis
        proof (cases "is_expired e \<and> attempt < extSessionRetries")
          case retry: True
          have "pushBlobExt_loop L E c dp repo d content (Suc attempt) s2 = (r, s')"
            using "1.prems" st Inr False up Inl retry by (simp add: pushBlobExt_loop.simps)
          from "1.IH" [OF st [symmetric] \<open>r1 = Inr session\<close> False up [symmetric] Inl retry this]
          have IH: "adds ?P s2 s' \<and> keeps s2 s' \<and> ext_same s2 s'
             \<and> (r = Inr () \<longrightarrow> has_blob L c repo (d_digest d) (s_wire s'))" by simp
          with sofar show ?thesis by (blast intro: adds_trans keeps_trans ext_same_trans)
        next
          case no: False
          then have "r = Inl (Wrap (''direct upload '' @ d_digest d) e)" "s' = s2"
            using "1.prems" st Inr False up Inl by (auto simp: pushBlobExt_loop.simps)
          with sofar show ?thesis by auto
        qed
      next
        case (Inr parts)
        have cm: "extCommit L E c repo d session parts s2 = (r, s')"
          using "1.prems" st \<open>r1 = Inr session\<close> False up Inr by (simp add: pushBlobExt_loop.simps)
        have a3: "adds ?P s2 s'" by (rule adds_mono [OF extCommit_adds [OF cm]]) (auto simp: ev_def)
        have "has_blob L c repo (d_digest d) (s_wire s')" if "r = Inr ()"
          using extCommit_Inr cm that by (fastforce simp: has_blob_def blob_ok_def)
        with sofar a3 extCommit_frame [OF cm] show ?thesis
          by (blast intro: adds_trans keeps_trans ext_same_trans)
      qed
    qed
  qed
qed

section \<open>The parts tile the file\<close>

text \<open>Part \<open>i\<close> went up: to its URL, without credentials, with its section of the file.\<close>

definition part_sent :: "extStartResponse \<Rightarrow> descriptor \<Rightarrow> bytes \<Rightarrow> nat \<Rightarrow> exchange \<Rightarrow> bool" where
  "part_sent session d content i e \<longleftrightarrow>
     q_op (fst e) = OpExtPart (Suc i) \<and> q_url (fst e) = se_urls session ! i \<and> q_auth (fst e) = None
     \<and> q_body (fst e) = section_bytes content (part_offset session i) (part_length session d i)
     \<and> q_len (fst e) = Some (part_length session d i)
     \<and> (case snd e of Inl m \<Rightarrow> False | Inr res \<Rightarrow> 200 \<le> r_status res \<and> r_status res \<le> 299)"

lemma upload_part_Inr:
  assumes "upload_part L E c session d content b i s = (Inr p, s')"
  shows "p_number p = Suc i \<and> 0 < sint (part_length session d i) \<and>
    (\<exists>q res. s_wire s' = s_wire s @ [(q, Inr res)] \<and> part_sent session d content i (q, Inr res))"
  using assms
  by (auto simp: upload_part_def Let_def newRequest_def part_sent_def
      split: option.splits prod.splits sum.splits if_splits dest!: send_wire(2))

lemma run_parts_failed: "run_parts L E c session d content is parts (Some e) s = ((ps, err), s') \<Longrightarrow> err \<noteq> None"
proof (induction "is" arbitrary: parts e s)
  case Nil
  then show ?case by auto
next
  case (Cons i "is")
  obtain r1 s1 where 1: "upload_part L E c session d content True i s = (r1, s1)" by fastforce
  with Cons.prems Cons.IH show ?case by (cases r1) fastforce+
qed

lemma run_parts_success:
  "run_parts L E c session d content is parts None s = ((ps, None), s') \<Longrightarrow>
     (\<exists>xs. s_wire s' = s_wire s @ xs \<and> list_all2 (part_sent session d content) is xs)
     \<and> (\<forall>i \<in> set is. 0 < sint (part_length session d i)) \<and> length ps = length parts
     \<and> (\<forall>i < length parts. i \<in> set is \<longrightarrow> p_number (ps ! i) = Suc i)
     \<and> (\<forall>i < length parts. i \<notin> set is \<longrightarrow> ps ! i = parts ! i)"
proof (induction "is" arbitrary: parts s)
  case (Cons i "is")
  obtain r1 s1 where 1: "upload_part L E c session d content False i s = (r1, s1)" by fastforce
  show ?case
  proof (cases r1)
    case (Inl e)
    with Cons.prems 1 run_parts_failed show ?thesis by fastforce
  next
    case (Inr p)
    note part = upload_part_Inr [OF 1 [unfolded Inr]]
    then obtain e where e: "s_wire s1 = s_wire s @ [e]" "part_sent session d content i e" by blast
    have "run_parts L E c session d content is (parts[i := p]) None s1 = ((ps, None), s')"
      using Cons.prems 1 Inr by simp
    note IH = Cons.IH [OF this]
    then obtain xs where "s_wire s' = s_wire s1 @ xs" "list_all2 (part_sent session d content) is xs"
      by blast
    with e have "\<exists>xs. s_wire s' = s_wire s @ xs \<and> list_all2 (part_sent session d content) (i # is) xs"
      by (intro exI [of _ "e # xs"]) simp
    with IH part show ?thesis
      by (auto simp: nth_list_update)
  qed
qed simp

lemma part_arith:
  assumes "sint (se_partSize session) = int p" and "d_size d = of_nat S" and "S < 2 ^ 63"
    and "i * p < 2 ^ 63"
  shows "sint (part_offset session i) = int (i * p)"
    and "sint (part_length session d i) = min (int p) (int S - int (i * p))"
proof -
  have ps: "se_partSize session = of_nat p"
    using assms(1) sint_lt [of "se_partSize session"] sint_of_nat_i64 [of p]
    by (intro signed_word_eqI [where ?'a = int]) simp
  have "part_offset session i = of_nat (i * p)"
    by (simp add: part_offset_def ps)
  then show o: "sint (part_offset session i) = int (i * p)"
    using assms(4) by (simp only: sint_of_nat_i64)
  have "int S < 2 ^ 63" "int (i * p) < 2 ^ 63"
    using assms(3,4) by (metis of_nat_less_iff of_nat_numeral of_nat_power)+
  then have "signed_take_bit 63 (int S - int (i * p)) = int S - int (i * p)"
    by (intro signed_take_bit_int_eq_self) linarith+
  moreover have "sint (d_size d) = int S" using assms(2,3) sint_of_nat_i64 by simp
  ultimately have "sint (d_size d - part_offset session i) = int S - int (i * p)"
    using o by (simp add: sint_word_ariths(2))
  then show "sint (part_length session d i) = min (int p) (int S - int (i * p))"
    using assms(1) by (simp add: part_length_def Let_def min_def)
qed

text \<open>When every part had data, no offset overflowed and every part begins inside the file.\<close>

lemma parts_inside:
  assumes "sint (se_partSize session) = int p" and "0 < p" and "d_size d = of_nat S" and "S \<le> 2 ^ 62"
    and "\<And>i. i < n \<Longrightarrow> 0 < sint (part_length session d i)"
  shows "i < n \<Longrightarrow> i * p < S"
proof (induction i)
  case 0
  have "0 < sint (part_length session d 0)" using assms(5) 0 by blast
  then show ?case using part_arith(2) [of session p d S 0] assms(1,3,4) by simp
next
  case (Suc i)
  then have iS: "i * p < S" by simp
  have p: "p < 2 ^ 63"
    using sint_lt [of "se_partSize session"] assms(1) by simp
  have "Suc i * p < 2 ^ 63"
  proof (cases "i = 0")
    case True
    with p show ?thesis by simp
  next
    case False
    then have "p \<le> i * p" by (cases i) simp_all
    moreover have "p + i * p < 2 ^ 62 + 2 ^ 62" using calculation iS assms(4) by linarith
    ultimately show ?thesis by simp
  qed
  from part_arith(2) [OF assms(1,3) _ this] assms(4)
  have "sint (part_length session d (Suc i)) = min (int p) (int S - int (Suc i * p))" by simp
  moreover have "0 < sint (part_length session d (Suc i))" using assms(5) Suc.prems by blast
  ultimately have "int (Suc i * p) < int S" by linarith
  then show ?case by (simp only: of_nat_less_iff)
qed

text \<open>The bytes of part \<open>i\<close> over natural numbers.\<close>

definition part_bytes :: "extStartResponse \<Rightarrow> bytes \<Rightarrow> nat \<Rightarrow> bytes" where
  "part_bytes session content i =
     (let p = nat (sint (se_partSize session)) in take p (drop (i * p) content))"

lemma section_part_bytes:
  assumes "sint (se_partSize session) = int p" and "d_size d = of_nat (length content)"
    and "length content < 2 ^ 63" and "i * p < length content"
  shows "section_bytes content (part_offset session i) (part_length session d i) = part_bytes session content i"
proof -
  have ip: "i * p < 2 ^ 63" using assms(3,4) by simp
  have "nat (sint (part_length session d i)) = min p (length content - i * p)"
    using part_arith(2) [OF assms(1,2,3) ip] assms(4) by linarith
  moreover have "nat (sint (part_offset session i)) = i * p"
    using part_arith(1) [OF assms(1,2,3) ip] by linarith
  moreover have "take (min p (length content - i * p)) (drop (i * p) content) = take p (drop (i * p) content)"
    by (metis length_drop min.commute take_all take_take order_refl)
  ultimately show ?thesis using assms(1) by (simp add: section_bytes_def part_bytes_def)
qed

section \<open>Discovery happens once and comes first\<close>

definition advertises :: "lib \<Rightarrow> regClient \<Rightarrow> exchange \<Rightarrow> bool" where
  "advertises L c e \<longleftrightarrow> q_via (fst e) = c_id c \<and> q_op (fst e) = OpDiscover \<and>
     (case snd e of Inl m \<Rightarrow> False | Inr res \<Rightarrow> r_status res = 200 \<and> advertised L res)"

definition discovers :: "regClient \<Rightarrow> exchange \<Rightarrow> bool" where
  "discovers c e \<longleftrightarrow> q_via (fst e) = c_id c \<and> q_op (fst e) = OpDiscover"

definition ext_event :: "regClient \<Rightarrow> exchange \<Rightarrow> bool" where
  "ext_event c e \<longleftrightarrow> q_via (fst e) = c_id c \<and> is_ext (q_op (fst e))"

definition after_discovery :: "lib \<Rightarrow> regClient \<Rightarrow> exchange list \<Rightarrow> exchange \<Rightarrow> bool" where
  "after_discovery L c before e \<longleftrightarrow> (ext_event c e \<longrightarrow> (\<exists>a \<in> set before. advertises L c a))"

text \<open>
  The invariant of a client: the extension is usable only after a positive answer, there is at most
  one discovery request, and no extension request precedes that answer.
\<close>

definition ext_inv :: "lib \<Rightarrow> regClient \<Rightarrow> 'w st \<Rightarrow> bool" where
  "ext_inv L c s \<longleftrightarrow>
     (cs_usable (s_heap s (c_id c)) \<longrightarrow>
        cs_discovered (s_heap s (c_id c)) \<and> (\<exists>a \<in> set (s_wire s). advertises L c a))
     \<and> length (filter (discovers c) (s_wire s)) \<le> (if cs_discovered (s_heap s (c_id c)) then 1 else 0)
     \<and> justified (after_discovery L c) (s_wire s)"

text \<open>Operations that send no discovery, and extension requests only where they are allowed.\<close>

lemma ext_inv_adds:
  assumes "ext_inv L c s" and "adds P s s'"
    and "cs_usable (s_heap s' (c_id c)) \<Longrightarrow> cs_usable (s_heap s (c_id c))"
    and "cs_discovered (s_heap s' (c_id c)) = cs_discovered (s_heap s (c_id c))"
    and no: "\<And>e. P e \<Longrightarrow> \<not> discovers c e"
    and ext: "\<And>e. P e \<Longrightarrow> ext_event c e \<Longrightarrow> \<exists>a \<in> set (s_wire s). advertises L c a"
  shows "ext_inv L c s'"
proof -
  obtain xs where xs: "s_wire s' = s_wire s @ xs" "\<forall>e \<in> set xs. P e"
    using assms(2) by (auto simp: adds_def)
  have "filter (discovers c) xs = []" using xs(2) no by (auto simp: filter_empty_conv)
  moreover have "justified (after_discovery L c) (s_wire s @ xs)"
  proof (rule justified_append)
    show "justified (after_discovery L c) (s_wire s)" using assms(1) by (simp add: ext_inv_def)
    show "after_discovery L c (s_wire s @ p) e" if "e \<in> set xs" for p e
      using that xs(2) ext unfolding after_discovery_def by (metis Un_iff set_append)
  qed
  ultimately show ?thesis using assms(1,3,4) xs(1) by (auto simp: ext_inv_def)
qed

lemma directpushSupported_cases:
  assumes "directpushSupported L E c repo s = (b, s')"
  obtains (known) "cs_discovered (s_heap s (c_id c))" "s' = s" "b = cs_usable (s_heap s (c_id c))"
  | (silent) "\<not> cs_discovered (s_heap s (c_id c))" "s_wire s' = s_wire s" "keeps s s'"
      "b = cs_usable (s_heap s (c_id c))" "cs_usable (s_heap s' (c_id c)) = b"
      "cs_discovered (s_heap s' (c_id c))"
  | (asked) e where "\<not> cs_discovered (s_heap s (c_id c))" "s_wire s' = s_wire s @ [e]" "keeps s s'"
      "ev c (\<lambda>x. x = OpDiscover) e" "cs_usable (s_heap s' (c_id c)) = b"
      "b \<longleftrightarrow> cs_usable (s_heap s (c_id c)) \<or> advertises L c e"
      "cs_discovered (s_heap s' (c_id c))"
proof (cases "cs_discovered (s_heap s (c_id c))")
  case True
  with assms show ?thesis by (intro known) (auto simp: directpushSupported_def Let_def)
next
  case False
  let ?s0 = "upd_heap (c_id c) (\<lambda>h. h\<lparr>cs_discovered := True\<rparr>) s"
  show ?thesis
  proof (cases "newRequest L c OpDiscover ''GET'' (c_base c @ ''/v2/_oci/ext/discover'') []")
    case (Inl e)
    with assms False show ?thesis by (intro silent) (auto simp: directpushSupported_def Let_def)
  next
    case (Inr q)
    note q = newRequest_fields [OF this]
    obtain r1 s1 where d: "do_req L E c repo PushScope q ?s0 = (r1, s1)" by fastforce
    have frame: "cs_discovered (s_heap s1 (c_id c))"
        "cs_usable (s_heap s1 (c_id c)) = cs_usable (s_heap s (c_id c))"
      using do_req_frame [OF d] by (auto simp: ext_same_def)
    have k: "keeps s s1"
      by (rule keeps_trans [OF heap_upd_keeps(1) conjunct1 [OF do_req_frame [OF d]]])
    from d show ?thesis
    proof (cases rule: do_req_cases)
      case (denied e)
      with assms False Inr d frame k show ?thesis
        by (intro silent) (auto simp: directpushSupported_def Let_def)
    next
      case (failed cl m)
      with assms False Inr d frame k q show ?thesis
        by (intro asked [of "(q\<lparr>q_auth := Some cl\<rparr>, Inl m)"])
          (auto simp: directpushSupported_def Let_def ev_def req_ok_def advertises_def)
    next
      case (answered cl res)
      with assms False Inr d frame q keeps_trans [OF k heap_upd_keeps(2)] k show ?thesis
        by (intro asked [of "(q\<lparr>q_auth := Some cl\<rparr>, Inr res)"])
          (auto simp: directpushSupported_def Let_def ev_def req_ok_def advertises_def split: if_splits)
    qed
  qed
qed

lemma directpushSupported_adds:
  "directpushSupported L E c repo s = (b, s') \<Longrightarrow> adds (ev c (\<lambda>x. x = OpDiscover)) s s' \<and> keeps s s'"
  by (erule directpushSupported_cases) (auto simp: adds_def)

lemma directpushSupported_inv:
  assumes "directpushSupported L E c repo s = (b, s')" and "ext_inv L c s"
  shows "ext_inv L c s' \<and> (b \<longrightarrow> (\<exists>a \<in> set (s_wire s'). advertises L c a)
     \<and> cs_discovered (s_heap s' (c_id c)))"
  using assms(1)
proof (cases rule: directpushSupported_cases)
  case known
  with assms(2) show ?thesis by (auto simp: ext_inv_def)
next
  case silent
  with assms(2) show ?thesis by (auto simp: ext_inv_def)
next
  case (asked e)
  have "\<not> ext_event c e" using asked(4) by (auto simp: ev_def ext_event_def)
  then have "justified (after_discovery L c) (s_wire s @ [e])"
    using assms(2) by (simp add: justified_snoc ext_inv_def after_discovery_def)
  with asked assms(2) show ?thesis by (auto simp: ext_inv_def)
qed

lemma ev_not_discovers: "ev c ops e \<Longrightarrow> (\<And>x. ops x \<Longrightarrow> x \<noteq> OpDiscover) \<Longrightarrow> \<not> discovers c e"
  by (auto simp: ev_def discovers_def)

lemma pushBlobExt_trace:
  assumes "pushBlobExt L E c dp repo d path s = (r, s')"
  shows "adds (ev c (\<lambda>x. is_ext x \<and> blob_op repo (d_digest d) x)) s s' \<and> keeps s s' \<and> ext_same s s'
     \<and> (r = Inr () \<longrightarrow> has_blob L c repo (d_digest d) (s_wire s'))"
proof (cases "s_disk s path")
  case None
  with assms show ?thesis by (auto simp: pushBlobExt_def)
next
  case (Some content)
  with assms have "pushBlobExt_loop L E c dp repo d content 0 s = (r, s')"
    by (simp add: pushBlobExt_def)
  then show ?thesis by (rule pushBlobExt_loop_trace)
qed

text \<open>One call of \<open>tryDirectPush\<close>.\<close>

lemma tryDirectPush_trace:
  assumes "tryDirectPush L E c repo d path s = (r, s')"
  shows "adds (ev c (blob_op repo (d_digest d))) s s' \<and> keeps s s'
     \<and> (r = Inr True \<longrightarrow> has_blob L c repo (d_digest d) (s_wire s'))
     \<and> (ext_inv L c s \<longrightarrow> ext_inv L c s')"
proof (cases "\<exists>dp. c_ext c = Some dp \<and> wants (c_ext c) (d_size d)")
  case False
  then have "r = Inr False" "s' = s"
    using assms by (auto simp: tryDirectPush_def split: option.splits)
  then show ?thesis by simp
next
  case True
  then obtain dp where dp: "c_ext c = Some dp" "wants (c_ext c) (d_size d)" by blast
  obtain b s1 where sup: "directpushSupported L E c repo s = (b, s1)" by fastforce
  have a1: "adds (ev c (blob_op repo (d_digest d))) s s1" and k1: "keeps s s1"
    using directpushSupported_adds [OF sup] by (auto elim!: adds_mono simp: ev_def)
  show ?thesis
  proof (cases b)
    case False
    with assms dp sup have "r = Inr False" "s' = s1" by (auto simp: tryDirectPush_def)
    with a1 k1 directpushSupported_inv [OF sup] show ?thesis by simp
  next
    case True
    obtain r2 s2 where push: "pushBlobExt L E c dp repo d path s1 = (r2, s2)" by fastforce
    note t = pushBlobExt_trace [OF push]
    have a2: "adds (ev c (blob_op repo (d_digest d))) s1 s2"
      using t by (auto elim!: adds_mono simp: ev_def)
    have inv: "ext_inv L c s2" if "ext_inv L c s"
    proof (rule ext_inv_adds [OF _ conjunct1 [OF t]])
      note i1 = directpushSupported_inv [OF sup that]
      show "ext_inv L c s1" using i1 by simp
      show "\<exists>a \<in> set (s_wire s1). advertises L c a" for e using i1 True by simp
    qed (use t in \<open>auto simp: ext_same_def ev_def discovers_def\<close>)
    show ?thesis
    proof (cases "\<exists>e. r2 = Inl e \<and> is_unsupported e")
      case latch: True
      let ?s3 = "upd_heap (c_id c) (\<lambda>h. h\<lparr>cs_usable := False\<rparr>) s2"
      have "r = Inr False" "s' = ?s3"
        using assms dp sup True push latch by (auto simp: tryDirectPush_def)
      moreover have "adds (ev c (blob_op repo (d_digest d))) s ?s3"
        using adds_trans [OF a1 a2] by (simp add: adds_def)
      moreover have "keeps s ?s3" using k1 t by (auto intro: keeps_trans)
      moreover have "ext_inv L c ?s3" if "ext_inv L c s"
        using inv [OF that] by (auto simp: ext_inv_def)
      ultimately show ?thesis by simp
    next
      case no: False
      have "s' = s2" "r = Inr True \<Longrightarrow> r2 = Inr ()"
        using assms dp sup True push no
        by (cases r2; auto simp: tryDirectPush_def split: if_splits)+
      with a1 a2 k1 t inv show ?thesis by (blast intro: adds_trans keeps_trans)
    qed
  qed
qed

text \<open>Its requests are discovery and the extension's own.\<close>

lemma tryDirectPush_direct:
  assumes "tryDirectPush L E c repo d path s = (r, s')"
  shows "adds (ev c (\<lambda>x. x = OpDiscover \<or> is_ext x)) s s'"
proof (cases "\<exists>dp. c_ext c = Some dp \<and> wants (c_ext c) (d_size d)")
  case False
  with assms show ?thesis by (auto simp: tryDirectPush_def split: option.splits)
next
  case True
  then obtain dp where dp: "c_ext c = Some dp" "wants (c_ext c) (d_size d)" by blast
  obtain b s1 where sup: "directpushSupported L E c repo s = (b, s1)" by fastforce
  have a1: "adds (ev c (\<lambda>x. x = OpDiscover \<or> is_ext x)) s s1"
    using directpushSupported_adds [OF sup] by (auto elim!: adds_mono simp: ev_def)
  show ?thesis
  proof (cases b)
    case False
    with assms dp sup a1 show ?thesis by (auto simp: tryDirectPush_def)
  next
    case b: True
    obtain r2 s2 where push: "pushBlobExt L E c dp repo d path s1 = (r2, s2)" by fastforce
    have "adds (ev c (\<lambda>x. x = OpDiscover \<or> is_ext x)) s1 s2"
      using pushBlobExt_trace [OF push] by (auto elim!: adds_mono simp: ev_def)
    with a1 have a2: "adds (ev c (\<lambda>x. x = OpDiscover \<or> is_ext x)) s s2" by (rule adds_trans)
    moreover have "s_wire s' = s_wire s2"
      using assms dp sup b push by (cases r2; auto simp: tryDirectPush_def split: if_splits)
    ultimately show ?thesis by (simp add: adds_def)
  qed
qed

text \<open>One call of \<open>pushBlobFile\<close>: on success the registry has the blob.\<close>

lemma pushBlobFile_trace:
  assumes "pushBlobFile L E c repo d path s = (r, s')"
  shows "adds (ev c (blob_op repo (d_digest d))) s s' \<and> keeps s s'
     \<and> (r = Inr () \<longrightarrow> has_blob L c repo (d_digest d) (s_wire s'))
     \<and> (ext_inv L c s \<longrightarrow> ext_inv L c s')"
proof -
  let ?P = "ev c (blob_op repo (d_digest d))"
  obtain r1 s1 where head: "blobExists L E c repo (d_digest d) PushScope s = (r1, s1)" by fastforce
  have a1: "adds ?P s s1" using blobExists_adds [OF head] by (auto elim!: adds_mono simp: ev_def)
  note f1 = blobExists_frame [OF head]
  have i1: "ext_inv L c s1" if "ext_inv L c s"
    by (rule ext_inv_adds [OF that blobExists_adds [OF head]])
      (use f1 in \<open>auto simp: ext_same_def ev_def discovers_def ext_event_def\<close>)
  show ?thesis
  proof (cases "r1 = Inr False")
    case False
    have "s' = s1" "r = Inr () \<Longrightarrow> r1 = Inr True"
      using assms head False by (cases r1; auto simp: pushBlobFile_def split: bool.splits)+
    moreover have "has_blob L c repo (d_digest d) (s_wire s1)" if "r1 = Inr True"
      using blobExists_True head that by (fastforce simp: has_blob_def blob_ok_def)
    ultimately show ?thesis using a1 f1 i1 by blast
  next
    case True
    obtain r2 s2 where tdp: "tryDirectPush L E c repo d path s1 = (r2, s2)" by fastforce
    note t = tryDirectPush_trace [OF tdp]
    show ?thesis
    proof (cases "r2 = Inr False")
      case False
      have "s' = s2" "r = Inr () \<Longrightarrow> r2 = Inr True"
        using assms head True tdp False by (cases r2; auto simp: pushBlobFile_def split: bool.splits)+
      with a1 f1 i1 t show ?thesis by (blast intro: adds_trans keeps_trans)
    next
      case std: True
      have st: "pushBlobStandard L E c repo d path s2 = (r, s')"
        using assms head True tdp std by (simp add: pushBlobFile_def)
      obtain xs where xs: "s_wire s' = s_wire s2 @ xs"
          "retry_trace c repo (d_digest d) (s_disk s2 path) (Suc standardUploadRetries) r xs"
        using pushBlobStandard_trace [OF st] by blast
      have a3: "adds (ev c (upload_ops repo (d_digest d))) s2 s'"
        using xs by (auto simp: adds_def retry_trace_def)
      have i3: "ext_inv L c s'" if "ext_inv L c s2"
        by (rule ext_inv_adds [OF that a3])
          (use pushBlobStandard_frame [OF st] in
            \<open>auto simp: ext_same_def ev_def discovers_def ext_event_def upload_ops_def\<close>)
      have "has_blob L c repo (d_digest d) (s_wire s')" if "r = Inr ()"
      proof -
        obtain b where "xs \<noteq> []" "blob_put_ok c repo (d_digest d) b (last xs)"
          using xs(2) \<open>r = Inr ()\<close> by (auto simp: retry_trace_def)
        then have "has_blob L c repo (d_digest d) xs"
          unfolding has_blob_def by (intro bexI [of _ "last xs"])
            (auto simp: blob_put_ok_def blob_ok_def ev_def split: sum.splits)
        with xs(1) show ?thesis by simp
      qed
      moreover have "adds ?P s2 s'" using a3 by (auto elim!: adds_mono simp: ev_def upload_ops_blob_op)
      ultimately show ?thesis
        using a1 f1 i1 t i3 pushBlobStandard_frame [OF st] by (blast intro: adds_trans keeps_trans)
    qed
  qed
qed


text \<open>Wherever the blob goes up in one PUT, that PUT carries the file.\<close>

lemma pushBlobFile_carries:
  assumes "pushBlobFile L E c repo d path s = (r, s')"
  shows "adds (carries d (s_disk s path)) s s'"
proof -
  let ?C = "carries d (s_disk s path)"
  obtain r1 s1 where head: "blobExists L E c repo (d_digest d) PushScope s = (r1, s1)" by fastforce
  have a1: "adds ?C s s1"
    by (rule adds_mono [OF blobExists_adds [OF head]]) (auto intro: carries_other)
  note f1 = blobExists_frame [OF head]
  show ?thesis
  proof (cases "r1 = Inr False")
    case False
    with assms head a1 show ?thesis
      by (cases r1) (auto simp: pushBlobFile_def split: bool.splits)
  next
    case True
    obtain r2 s2 where tdp: "tryDirectPush L E c repo d path s1 = (r2, s2)" by fastforce
    have a2: "adds ?C s1 s2"
      by (rule adds_mono [OF tryDirectPush_direct [OF tdp]]) (auto intro: carries_other)
    have disk: "s_disk s2 = s_disk s"
      using f1 tryDirectPush_trace [OF tdp] by (metis keeps_disk)
    show ?thesis
    proof (cases "r2 = Inr False")
      case False
      with assms head True tdp adds_trans [OF a1 a2] show ?thesis
        by (cases r2) (auto simp: pushBlobFile_def split: bool.splits)
    next
      case std: True
      have st: "pushBlobStandard L E c repo d path s2 = (r, s')"
        using assms head True tdp std by (simp add: pushBlobFile_def)
      have "adds ?C s2 s'" using pushBlobStandard_carries [OF st] by (simp add: disk)
      with a1 a2 show ?thesis by (blast intro: adds_trans)
    qed
  qed
qed

section \<open>The latch and the number of sessions\<close>

text \<open>Once discovery is over and the extension is off, it stays off and is not spoken to.\<close>

lemma tryDirectPush_off:
  assumes "cs_discovered (s_heap s (c_id c))" and "\<not> cs_usable (s_heap s (c_id c))"
  shows "tryDirectPush L E c repo d path s = (Inr False, s)"
  using assms
  by (auto simp: tryDirectPush_def directpushSupported_def Let_def split: option.split)

lemma pushBlobFile_off:
  assumes "pushBlobFile L E c repo d path s = (r, s')"
    and "cs_discovered (s_heap s (c_id c))" and "\<not> cs_usable (s_heap s (c_id c))"
  shows "adds (\<lambda>e. \<not> ext_event c e \<and> \<not> discovers c e) s s'
    \<and> cs_discovered (s_heap s' (c_id c)) \<and> \<not> cs_usable (s_heap s' (c_id c))"
proof -
  let ?P = "\<lambda>e. \<not> ext_event c e \<and> \<not> discovers c e"
  obtain r1 s1 where head: "blobExists L E c repo (d_digest d) PushScope s = (r1, s1)" by fastforce
  have a1: "adds ?P s s1"
    by (rule adds_mono [OF blobExists_adds [OF head]]) (auto simp: ev_def ext_event_def discovers_def)
  have off: "cs_discovered (s_heap s1 (c_id c))" "\<not> cs_usable (s_heap s1 (c_id c))"
    using blobExists_frame [OF head] assms(2,3) by (auto simp: ext_same_def)
  show ?thesis
  proof (cases "r1 = Inr False")
    case False
    with assms(1) head a1 off show ?thesis by (cases r1) (auto simp: pushBlobFile_def split: bool.splits)
  next
    case True
    then have st: "pushBlobStandard L E c repo d path s1 = (r, s')"
      using assms(1) head tryDirectPush_off [OF off] by (simp add: pushBlobFile_def)
    obtain xs where xs: "s_wire s' = s_wire s1 @ xs"
        "retry_trace c repo (d_digest d) (s_disk s1 path) (Suc standardUploadRetries) r xs"
      using pushBlobStandard_trace [OF st] by blast
    have "adds ?P s1 s'"
      using xs by (auto simp: adds_def retry_trace_def ev_def ext_event_def discovers_def upload_ops_def)
    with a1 pushBlobStandard_frame [OF st] off show ?thesis
      by (auto simp: ext_same_def intro: adds_trans)
  qed
qed

text \<open>An unsupported answer to a session request latches the extension off.\<close>

lemma tryDirectPush_latches:
  assumes "tryDirectPush L E c repo d path s = (Inr False, s')" and "c_ext c = Some dp"
    and "wants (c_ext c) (d_size d)"
  shows "\<not> cs_usable (s_heap s' (c_id c))"
proof -
  obtain b s1 where sup: "directpushSupported L E c repo s = (b, s1)" by fastforce
  obtain r2 s2 where push: "pushBlobExt L E c dp repo d path s1 = (r2, s2)" by fastforce
  have b: "b = cs_usable (s_heap s1 (c_id c))"
    using sup by (auto simp: directpushSupported_def Let_def)
  from assms sup push b show ?thesis
    by (cases b; cases r2) (auto simp: tryDirectPush_def split: if_splits)
qed

text \<open>Sessions requested on the wire between two states.\<close>

definition starts_session :: "exchange \<Rightarrow> bool" where
  "starts_session e \<longleftrightarrow> (\<exists>r d n. q_op (fst e) = OpExtStart r d n)"

lemma no_sessions:
  assumes "adds P s s'" and "\<And>e. P e \<Longrightarrow> \<not> starts_session e"
  shows "\<exists>xs. s_wire s' = s_wire s @ xs \<and> filter starts_session xs = []"
  using assms by (auto simp: adds_def filter_empty_conv)

lemma extStartSession_one:
  assumes "extStartSession L E c dp repo d s = (r, s')"
  shows "\<exists>xs. s_wire s' = s_wire s @ xs \<and> length (filter starts_session xs) \<le> 1"
proof -
  obtain requested w where cl: "clock E (s_world s) = (requested, w)" by fastforce
  obtain j q0 s0 where post: "postJSON L E c repo (OpExtStart repo (d_digest d) (d_size d))
      ''/v2/_directpush/v1/uploads'' j (s\<lparr>s_world := w\<rparr>) = (q0, s0)" and "s_wire s' = s_wire s0"
    using assms cl
    by (fastforce simp: extStartSession_def Let_def split: prod.splits sum.splits if_splits)
  moreover have "\<exists>xs. s_wire s0 = s_wire s @ xs \<and> length xs \<le> 1"
    using post by (auto simp: postJSON_def Let_def split: sum.splits elim!: do_req_cases)
  ultimately show ?thesis by (metis le_trans length_filter_le)
qed

lemma pushBlobExt_loop_sessions:
  assumes "pushBlobExt_loop L E c dp repo d content attempt s = (r, s')"
  shows "\<exists>xs. s_wire s' = s_wire s @ xs
    \<and> length (filter starts_session xs) \<le> Suc (extSessionRetries - attempt)"
  using assms
proof (induction L E c dp repo d content attempt s rule: pushBlobExt_loop.induct)
  case (1 L E c dp repo d content attempt s)
  obtain r1 s1 where st: "extStartSession L E c dp repo d s = (r1, s1)" by fastforce
  obtain xs1 where x1: "s_wire s1 = s_wire s @ xs1" "length (filter starts_session xs1) \<le> 1"
    using extStartSession_one [OF st] by blast
  have done1: ?case if "s' = s1" using that x1 by (intro exI [of _ xs1]) simp
  show ?case
  proof (cases "\<exists>session. r1 = Inr session \<and> \<not> se_exists session")
    case False
    with "1.prems" st have "s' = s1"
      by (cases r1) (auto simp: pushBlobExt_loop.simps)
    with done1 show ?thesis .
  next
    case True
    then obtain session where se: "r1 = Inr session" "\<not> se_exists session" by blast
    obtain r2 s2 where up: "extUploadParts L E c session d content s1 = (r2, s2)" by fastforce
    obtain xs2 where x2: "s_wire s2 = s_wire s1 @ xs2" "filter starts_session xs2 = []"
    proof -
      have "\<not> starts_session e" if "part_event c session e" for e
        using that by (auto simp: part_event_def ev_def starts_session_def)
      from no_sessions [OF extUploadParts_adds [OF up] this] that show thesis by blast
    qed
    show ?thesis
    proof (cases r2)
      case (Inr parts)
      then have cm: "extCommit L E c repo d session parts s2 = (r, s')"
        using "1.prems" st se up by (simp add: pushBlobExt_loop.simps)
      obtain xs3 where "s_wire s' = s_wire s2 @ xs3" "filter starts_session xs3 = []"
      proof -
        have "\<not> starts_session e" if "ev c (\<lambda>x. x = OpExtCommit repo (d_digest d) (d_size d)) e" for e
          using that by (auto simp: ev_def starts_session_def)
        from no_sessions [OF extCommit_adds [OF cm] this] that show thesis by blast
      qed
      with x1 x2 show ?thesis by (intro exI [of _ "xs1 @ xs2 @ xs3"]) simp
    next
      case (Inl e)
      show ?thesis
      proof (cases "is_expired e \<and> attempt < extSessionRetries")
        case False
        then have "s' = s2" using "1.prems" st se up Inl by (auto simp: pushBlobExt_loop.simps)
        with x1 x2 show ?thesis by (intro exI [of _ "xs1 @ xs2"]) simp
      next
        case retry: True
        have "pushBlobExt_loop L E c dp repo d content (Suc attempt) s2 = (r, s')"
          using "1.prems" st se up Inl retry by (simp add: pushBlobExt_loop.simps)
        from "1.IH" [OF st [symmetric] se(1,2) up [symmetric] Inl retry this]
        obtain xs3 where x3: "s_wire s' = s_wire s2 @ xs3"
            "length (filter starts_session xs3) \<le> Suc (extSessionRetries - Suc attempt)" by blast
        have "length (filter starts_session (xs1 @ xs2 @ xs3)) \<le> Suc (extSessionRetries - attempt)"
          using x1(2) x2(2) x3(2) retry by (simp add: Suc_diff_Suc)
        with x1 x2 x3 show ?thesis by (intro exI [of _ "xs1 @ xs2 @ xs3"]) simp
      qed
    qed
  qed
qed

lemma tryDirectPush_discovered:
  assumes "tryDirectPush L E c repo d path s = (r, s')" and "c_ext c = Some dp"
    and "wants (c_ext c) (d_size d)"
  shows "cs_discovered (s_heap s' (c_id c))"
proof -
  obtain b s1 where sup: "directpushSupported L E c repo s = (b, s1)" by fastforce
  obtain r2 s2 where push: "pushBlobExt L E c dp repo d path s1 = (r2, s2)" by fastforce
  have "cs_discovered (s_heap s1 (c_id c))"
    using sup by (cases rule: directpushSupported_cases) auto
  with pushBlobExt_trace [OF push] assms sup show ?thesis
    by (cases b; cases r2) (auto simp: tryDirectPush_def push ext_same_def split: if_splits)
qed

end
