(* ===== verification/Manifest_Walk.thy ===== *)
theory Manifest_Walk
  imports Direct_Push
begin

text \<open>
  The traversal that \<open>Push\<close> and \<open>Mirror\<close> share: children depth-first, then the blobs, then the
  manifest itself. The two programs differ in where a child's bytes and a blob come from; \<open>walk\<close>
  takes those three operations as arguments, and the locale \<open>manifest_walk\<close> states what they must
  promise (its laws) and what the traversal then guarantees. \<open>Layout_Push\<close> and \<open>Image_Mirror\<close>
  show their own recursions equal to \<open>walk\<close> and interpret the locale on their own operations.

  The recursion follows digests, so its depth is not bounded by the size of any argument: it runs
  on fuel, and \<open>None\<close> is out of fuel. \<open>depth_le L n raw\<close> bounds the chains of digests below
  \<open>raw\<close>; under it, fuel above \<open>n\<close> is enough.
\<close>

section \<open>The traversal\<close>

fun walk ::
  "lib \<Rightarrow> (descriptor \<Rightarrow> 'w st \<Rightarrow> (bytes \<times> string, 'w) result) \<Rightarrow>
   (descriptor \<Rightarrow> 'w st \<Rightarrow> (unit, 'w) result) \<Rightarrow>
   (bytes \<Rightarrow> string \<Rightarrow> string \<Rightarrow> 'w st \<Rightarrow> (unit, 'w) result) \<Rightarrow>
   nat \<Rightarrow> bytes \<Rightarrow> string \<Rightarrow> string \<Rightarrow> 'w st \<Rightarrow> (unit, 'w) result option" where
  "walk L fetch blob put 0 raw mt ref s = None"
| "walk L fetch blob put (Suc n) raw mt ref s =
     (case parse_doc L raw of
        Inl e \<Rightarrow> Some (Inl (Wrap ''parse manifest'' (Msg e)), s)
      | Inr doc \<Rightarrow>
          (case for_each_opt
                  (\<lambda>child s. case fetch child s of
                      (Inl e, s1) \<Rightarrow> Some (Inl e, s1)
                    | (Inr (craw, cmt), s1) \<Rightarrow> walk L fetch blob put n craw cmt (d_digest child) s1)
                  (m_manifests doc) s of
             None \<Rightarrow> None
           | Some (Inl e, s1) \<Rightarrow> Some (Inl e, s1)
           | Some (Inr _, s1) \<Rightarrow>
               (case for_each blob (blobs doc) s1 of
                  (Inl e, s2) \<Rightarrow> Some (Inl e, s2)
                | (Inr _, s2) \<Rightarrow> Some (put raw (mediaTypeOr doc mt) ref s2))))"

text \<open>Every chain of manifests below \<open>raw\<close>, by digest, is shorter than \<open>n\<close>.\<close>

inductive depth_le :: "lib \<Rightarrow> nat \<Rightarrow> bytes \<Rightarrow> bool" for L where
  leaf: "parse_doc L raw = Inl e \<Longrightarrow> depth_le L n raw"
| node: "parse_doc L raw = Inr doc \<Longrightarrow>
    (\<And>d craw. d \<in> set (m_manifests doc) \<Longrightarrow> digestOf L craw = d_digest d \<Longrightarrow> depth_le L n craw) \<Longrightarrow>
    depth_le L (Suc n) raw"

inductive_cases depth_leE: "depth_le L n raw"

section \<open>Manifests on the wire\<close>

definition put_event :: "regClient \<Rightarrow> string \<Rightarrow> exchange \<Rightarrow> bool" where
  "put_event c repo e \<longleftrightarrow> q_via (fst e) = c_id c \<and> (\<exists>ref. q_op (fst e) = OpManifestPut repo ref)"

definition accepted :: "exchange \<Rightarrow> bool" where
  "accepted e \<longleftrightarrow> (case snd e of Inl m \<Rightarrow> False
     | Inr res \<Rightarrow> 200 \<le> r_status res \<and> r_status res \<le> 299)"

text \<open>\<open>manifest_put c repo ref b e\<close>: the registry accepted the bytes \<open>b\<close> under \<open>ref\<close>.\<close>

definition manifest_put :: "regClient \<Rightarrow> string \<Rightarrow> string \<Rightarrow> bytes \<Rightarrow> exchange \<Rightarrow> bool" where
  "manifest_put c repo ref b e \<longleftrightarrow> q_via (fst e) = c_id c \<and> q_op (fst e) = OpManifestPut repo ref
     \<and> q_body (fst e) = b \<and> accepted e"

definition has_manifest :: "lib \<Rightarrow> regClient \<Rightarrow> string \<Rightarrow> string \<Rightarrow> exchange list \<Rightarrow> bool" where
  "has_manifest L c repo dg wire \<longleftrightarrow>
     (\<exists>e \<in> set wire. \<exists>b. manifest_put c repo dg b e \<and> digestOf L b = dg)"

text \<open>
  What a registry needs before it is handed a manifest: the blobs and the child manifests that the
  manifest's bytes refer to.
\<close>

definition put_ready :: "lib \<Rightarrow> regClient \<Rightarrow> string \<Rightarrow> exchange list \<Rightarrow> exchange \<Rightarrow> bool" where
  "put_ready L c repo before e \<longleftrightarrow> (put_event c repo e \<longrightarrow>
     (\<exists>doc. parse_doc L (q_body (fst e)) = Inr doc
        \<and> (\<forall>b \<in> set (blobs doc). has_blob L c repo (d_digest b) before)
        \<and> (\<forall>m \<in> set (m_manifests doc). has_manifest L c repo (d_digest m) before)))"

text \<open>A manifest goes up under its own digest, except the root, which goes up as requested.\<close>

definition named_right :: "lib \<Rightarrow> regClient \<Rightarrow> string \<Rightarrow> string \<Rightarrow> bytes \<Rightarrow> exchange \<Rightarrow> bool" where
  "named_right L c repo root raw e \<longleftrightarrow> (\<forall>ref. put_event c repo e \<and> q_op (fst e) = OpManifestPut repo ref \<longrightarrow>
     digestOf L (q_body (fst e)) = ref \<or> (ref = root \<and> q_body (fst e) = raw))"

lemma has_manifest_append [simp]:
  "has_manifest L c repo dg (xs @ ys) \<longleftrightarrow> has_manifest L c repo dg xs \<or> has_manifest L c repo dg ys"
  by (auto simp: has_manifest_def)

lemma has_manifest_adds:
  "has_manifest L c repo dg (s_wire s) \<Longrightarrow> adds P s s' \<Longrightarrow> has_manifest L c repo dg (s_wire s')"
  by (auto simp: adds_def)

lemma put_ready_quiet: "\<not> put_event c repo e \<Longrightarrow> put_ready L c repo before e"
  by (simp add: put_ready_def)

lemma named_right_quiet: "\<not> put_event c repo e \<Longrightarrow> named_right L c repo root raw e"
  by (simp add: named_right_def)

lemma ready_quiet_adds:
  assumes "justified (put_ready L c repo) (s_wire s)" and "adds (\<lambda>e. \<not> put_event c repo e) s s'"
  shows "justified (put_ready L c repo) (s_wire s')"
  by (rule justified_adds [OF assms put_ready_quiet])

section \<open>The contract\<close>

locale manifest_walk =
  fixes L :: lib and c :: regClient and repo :: string
    and fetch :: "descriptor \<Rightarrow> 'w st \<Rightarrow> (bytes \<times> string, 'w) result"
    and blob :: "descriptor \<Rightarrow> 'w st \<Rightarrow> (unit, 'w) result"
    and put :: "bytes \<Rightarrow> string \<Rightarrow> string \<Rightarrow> 'w st \<Rightarrow> (unit, 'w) result"
  assumes fetch_quiet: "fetch d s = (r, s') \<Longrightarrow> adds (\<lambda>e. \<not> put_event c repo e) s s'"
    and fetch_digest: "fetch d s = (Inr (raw, mt), s') \<Longrightarrow> digestOf L raw = d_digest d"
    and blob_quiet: "blob d s = (r', s') \<Longrightarrow> adds (\<lambda>e. \<not> put_event c repo e) s s'"
    and blob_has: "blob d s = (Inr (), s') \<Longrightarrow> has_blob L c repo (d_digest d) (s_wire s')"
    and put_adds: "put raw mt ref s = (r', s') \<Longrightarrow>
      adds (\<lambda>e. q_op (fst e) = OpManifestPut repo ref \<and> q_body (fst e) = raw) s s'"
    and put_ok: "put raw mt ref s = (Inr (), s') \<Longrightarrow> \<exists>e \<in> set (s_wire s'). manifest_put c repo ref raw e"
begin

lemma walk_adds:
  "walk L fetch blob put n raw mt ref s = Some (r, s') \<Longrightarrow> adds (named_right L c repo ref raw) s s'"
proof (induction n arbitrary: raw mt ref s r s')
  case 0
  then show ?case by simp
next
  case (Suc n)
  let ?P = "named_right L c repo ref raw"
  let ?child = "\<lambda>child s. case fetch child s of
      (Inl e, s1) \<Rightarrow> Some (Inl e, s1)
    | (Inr (craw, cmt), s1) \<Rightarrow> walk L fetch blob put n craw cmt (d_digest child) s1"
  show ?case
  proof (cases "parse_doc L raw")
    case (Inl e)
    with Suc.prems show ?thesis by auto
  next
    case (Inr doc)
    have child: "adds ?P t t'" if ch: "?child d t = Some (q, t')" for d t q t'
    proof -
      obtain r1 t1 where f: "fetch d t = (r1, t1)" by fastforce
      note q1 = adds_mono [OF fetch_quiet [OF f] named_right_quiet]
      show ?thesis
      proof (cases r1)
        case (Inl e)
        with ch f q1 show ?thesis by auto
      next
        case (Inr p)
        obtain craw cmt where p: "p = (craw, cmt)" by fastforce
        with ch f Inr have w: "walk L fetch blob put n craw cmt (d_digest d) t1 = Some (q, t')" by simp
        have dg: "digestOf L craw = d_digest d" using fetch_digest f Inr p by simp
        have "adds ?P t1 t'"
          by (rule adds_mono [OF Suc.IH [OF w]]) (auto simp: named_right_def dg)
        with q1 show ?thesis by (rule adds_trans)
      qed
    qed
    obtain r1 s1 where loop: "for_each_opt ?child (m_manifests doc) s = Some (r1, s1)"
      using Suc.prems Inr by (auto split: option.splits)
    have a1: "adds ?P s s1" by (rule for_each_opt_adds [OF child loop])
    show ?thesis
    proof (cases r1)
      case (Inl e)
      with Suc.prems \<open>parse_doc L raw = Inr doc\<close> loop a1 show ?thesis by simp
    next
      case (Inr u)
      obtain r2 s2 where bl: "for_each blob (blobs doc) s1 = (r2, s2)" by fastforce
      have a2: "adds ?P s1 s2"
        by (rule for_each_adds [OF adds_mono [OF blob_quiet named_right_quiet] bl])
      show ?thesis
      proof (cases r2)
        case (Inl e)
        with Suc.prems \<open>parse_doc L raw = Inr doc\<close> loop Inr bl a1 a2 show ?thesis
          by (auto intro: adds_trans)
      next
        case (Inr u2)
        with Suc.prems \<open>parse_doc L raw = Inr doc\<close> loop \<open>r1 = Inr u\<close> bl
        have "put raw (mediaTypeOr doc mt) ref s2 = (r, s')" by simp
        from put_adds [OF this] have "adds ?P s2 s'"
          by (rule adds_mono) (auto simp: named_right_def)
        with a1 a2 show ?thesis by (blast intro: adds_trans)
      qed
    qed
  qed
qed

lemma walk_Inr:
  assumes "walk L fetch blob put n raw mt ref s = Some (Inr (), s')"
  shows "\<exists>e \<in> set (s_wire s'). manifest_put c repo ref raw e"
  using assms
  by (cases n) (auto split: sum.splits option.splits prod.splits intro: put_ok)

lemma walk_ready:
  "walk L fetch blob put n raw mt ref s = Some (r, s') \<Longrightarrow>
   justified (put_ready L c repo) (s_wire s) \<Longrightarrow> justified (put_ready L c repo) (s_wire s')"
proof (induction n arbitrary: raw mt ref s r s')
  case 0
  then show ?case by simp
next
  case (Suc n)
  let ?J = "\<lambda>s. justified (put_ready L c repo) (s_wire s)"
  let ?child = "\<lambda>child s. case fetch child s of
      (Inl e, s1) \<Rightarrow> Some (Inl e, s1)
    | (Inr (craw, cmt), s1) \<Rightarrow> walk L fetch blob put n craw cmt (d_digest child) s1"
  show ?case
  proof (cases "parse_doc L raw")
    case (Inl e)
    with Suc.prems show ?thesis by auto
  next
    case (Inr doc)
    note doc = Inr
    have child: "?J t' \<and> (\<exists>P. adds P t t') \<and> (q = Inr () \<longrightarrow> has_manifest L c repo (d_digest d) (s_wire t'))"
      if J: "?J t" and ch: "?child d t = Some (q, t')" for d t q t'
    proof -
      obtain r1 t1 where f: "fetch d t = (r1, t1)" by fastforce
      note q1 = fetch_quiet [OF f]
      note J1 = ready_quiet_adds [OF J q1]
      show ?thesis
      proof (cases r1)
        case (Inl e)
        with ch f J1 q1 show ?thesis by auto
      next
        case (Inr p)
        obtain craw cmt where p: "p = (craw, cmt)" by fastforce
        with ch f Inr have w: "walk L fetch blob put n craw cmt (d_digest d) t1 = Some (q, t')" by simp
        have dg: "digestOf L craw = d_digest d" using fetch_digest f Inr p by simp
        have "has_manifest L c repo (d_digest d) (s_wire t')" if "q = Inr ()"
            using walk_Inr [OF w [unfolded that]] dg by (auto simp: has_manifest_def)
        moreover have "adds (\<lambda>e. True) t t'"
          by (rule adds_trans [OF adds_mono [OF q1] adds_mono [OF walk_adds [OF w]]]) simp_all
        ultimately show ?thesis using Suc.IH [OF w J1] by blast
      qed
    qed
    obtain r1 s1 where loop: "for_each_opt ?child (m_manifests doc) s = Some (r1, s1)"
      using Suc.prems doc by (auto split: option.splits)
    have J1: "?J s1"
      by (rule for_each_opt_invariant [where I = ?J, OF _ Suc.prems(2) loop]) (use child in blast)
    show ?thesis
    proof (cases r1)
      case (Inl e)
      with Suc.prems(1) doc loop J1 show ?thesis by simp
    next
      case (Inr u)
      have kids: "\<forall>d \<in> set (m_manifests doc). has_manifest L c repo (d_digest d) (s_wire s1)"
        by (rule for_each_opt_establishes [where I = ?J and f = ?child and s = s])
          (use child Suc.prems(2) loop Inr has_manifest_adds in \<open>(blast | simp)+\<close>)
      obtain r2 s2 where bl: "for_each blob (blobs doc) s1 = (r2, s2)" by fastforce
      have q2: "adds (\<lambda>e. \<not> put_event c repo e) s1 s2" by (rule for_each_adds [OF blob_quiet bl])
      note J2 = ready_quiet_adds [OF J1 q2]
      show ?thesis
      proof (cases r2)
        case (Inl e)
        with Suc.prems doc loop \<open>r1 = Inr u\<close> bl J2 show ?thesis by simp
      next
        case (Inr u2)
        have bs: "\<forall>d \<in> set (blobs doc). has_blob L c repo (d_digest d) (s_wire s2)"
          by (rule for_each_establishes [where I = "\<lambda>s. True" and f = blob and s = s1])
            (use blob_has bl Inr has_blob_adds [OF _ blob_quiet] in \<open>(blast | simp)+\<close>)
        have kids2: "\<forall>d \<in> set (m_manifests doc). has_manifest L c repo (d_digest d) (s_wire s2)"
          using kids q2 has_manifest_adds by blast
        from Suc.prems doc loop \<open>r1 = Inr u\<close> bl Inr
        have "put raw (mediaTypeOr doc mt) ref s2 = (r, s')" by simp
        from put_adds [OF this] show ?thesis
          by (rule justified_adds [OF J2]) (use doc bs kids2 in \<open>auto simp: put_ready_def\<close>)
      qed
    qed
  qed
qed

text \<open>Enough fuel: one unit more than the depth of the tree of digests.\<close>

lemma walk_total:
  "depth_le L n raw \<Longrightarrow> n < m \<Longrightarrow> \<exists>r s'. walk L fetch blob put m raw mt ref s = Some (r, s')"
proof (induction arbitrary: m mt ref s rule: depth_le.induct)
  case (leaf raw e n)
  then show ?case by (cases m) auto
next
  case (node raw doc n)
  obtain k where k: "m = Suc k" "n < k" using node.prems by (cases m) auto
  let ?child = "\<lambda>child s. case fetch child s of
      (Inl e, s1) \<Rightarrow> Some (Inl e, s1)
    | (Inr (craw, cmt), s1) \<Rightarrow> walk L fetch blob put k craw cmt (d_digest child) s1"
  have child: "\<exists>q t'. ?child d t = Some (q, t')" if "d \<in> set (m_manifests doc)" for d t
  proof -
    obtain r1 t1 where f: "fetch d t = (r1, t1)" by fastforce
    show ?thesis
    proof (cases r1)
      case (Inr p)
      then obtain craw cmt where p: "r1 = Inr (craw, cmt)" by (cases p) auto
      with f have "digestOf L craw = d_digest d" by (auto dest: fetch_digest)
      from node.IH [OF that this k(2)] show ?thesis using f p by simp
    qed (use f in simp)
  qed
  have "\<exists>q t'. for_each_opt ?child ds t = Some (q, t')" if "set ds \<subseteq> set (m_manifests doc)" for ds t
    using that
  proof (induction ds arbitrary: t)
    case (Cons d ds)
    then obtain q1 t1 where 1: "?child d t = Some (q1, t1)" using child [of d t] by auto
    with Cons show ?case by (cases q1) auto
  qed simp
  from this [of "m_manifests doc" s]
  obtain r1 s1 where loop: "for_each_opt ?child (m_manifests doc) s = Some (r1, s1)" by blast
  obtain r2 s2 where bl: "for_each blob (blobs doc) s1 = (r2, s2)" by fastforce
  obtain r3 s3 where pt: "put raw (mediaTypeOr doc mt) ref s2 = (r3, s3)" by fastforce
  show ?case
    using node.hyps(1) loop bl pt by (cases r1; cases r2; simp add: k(1))
qed

end

text \<open>
  The same contract with an invariant of the state that the operations keep; the traversal keeps
  it too.
\<close>

locale manifest_walk_inv = manifest_walk L c repo fetch blob put
  for L :: lib and c :: regClient and repo :: string
    and fetch :: "descriptor \<Rightarrow> 'w st \<Rightarrow> (bytes \<times> string, 'w) result"
    and blob :: "descriptor \<Rightarrow> 'w st \<Rightarrow> (unit, 'w) result"
    and put :: "bytes \<Rightarrow> string \<Rightarrow> string \<Rightarrow> 'w st \<Rightarrow> (unit, 'w) result" +
  fixes I :: "'w st \<Rightarrow> bool"
  assumes fetch_inv: "fetch d s = (r, s') \<Longrightarrow> I s \<Longrightarrow> I s'"
    and blob_inv: "blob d s = (r', s') \<Longrightarrow> I s \<Longrightarrow> I s'"
    and put_inv: "put raw mt ref s = (r', s') \<Longrightarrow> I s \<Longrightarrow> I s'"
begin

lemma walk_inv:
  "walk L fetch blob put n raw mt ref s = Some (r, s') \<Longrightarrow> I s \<Longrightarrow> I s'"
proof (induction n arbitrary: raw mt ref s r s')
  case 0
  then show ?case by simp
next
  case (Suc n)
  let ?child = "\<lambda>child s. case fetch child s of
      (Inl e, s1) \<Rightarrow> Some (Inl e, s1)
    | (Inr (craw, cmt), s1) \<Rightarrow> walk L fetch blob put n craw cmt (d_digest child) s1"
  have child: "I t'" if "I t" "?child d t = Some (q, t')" for d t q t'
  proof -
    obtain r1 t1 where f: "fetch d t = (r1, t1)" by fastforce
    with that fetch_inv [OF f] Suc.IH show ?thesis by (cases r1) auto
  qed
  show ?case
  proof (cases "parse_doc L raw")
    case (Inl e)
    with Suc.prems show ?thesis by auto
  next
    case (Inr doc)
    obtain r1 s1 where loop: "for_each_opt ?child (m_manifests doc) s = Some (r1, s1)"
      using Suc.prems Inr by (auto split: option.splits)
    have I1: "I s1"
      by (rule for_each_opt_invariant [where I = I, OF _ Suc.prems(2) loop]) (use child in blast)
    obtain r2 s2 where bl: "for_each blob (blobs doc) s1 = (r2, s2)" by fastforce
    have I2: "I s2"
      by (rule for_each_invariant [where I = I, OF _ I1 bl]) (use blob_inv in blast)
    from Suc.prems(1) Inr loop bl I1 I2 show ?thesis
      by (cases r1; cases r2) (auto intro: put_inv)
  qed
qed

end

end
