(* ===== verification/Go_Path.thy ===== *)
theory Go_Path
  imports Prelude
begin

text \<open>
  The lexical functions of Go's \<open>path/filepath\<close> (on Unix, where they agree with \<open>path\<close>) that the
  sources call: \<open>Clean\<close>, \<open>Join\<close>, \<open>Abs\<close>, \<open>IsAbs\<close>, \<open>Base\<close>, \<open>Dir\<close>, \<open>Ext\<close> and \<open>Rel\<close>. A path is split into
  its segments and the segments are folded over a stack.
\<close>

section \<open>Clean\<close>

definition is_abs :: "string \<Rightarrow> bool" where
  "is_abs p \<longleftrightarrow> has_prefix p ''/''"

text \<open>
  One segment: empty and \<open>.\<close> segments vanish, \<open>..\<close> removes the segment before it if there is one
  to remove, and at the root it vanishes. The stack is kept with its top first.
\<close>

definition clean_step :: "bool \<Rightarrow> string list \<Rightarrow> string \<Rightarrow> string list" where
  "clean_step rooted stack seg =
     (if seg = '''' \<or> seg = ''.'' then stack
      else if seg = ''..'' then
        (case stack of
           [] \<Rightarrow> if rooted then [] else [''..'']
         | seg' # rest \<Rightarrow> if seg' = ''..'' then ''..'' # stack else rest)
      else seg # stack)"

definition clean_segs :: "bool \<Rightarrow> string list \<Rightarrow> string list" where
  "clean_segs rooted segs = rev (foldl (clean_step rooted) [] segs)"

definition path_clean :: "string \<Rightarrow> string" where
  "path_clean p =
     (let out = (if is_abs p then ''/'' else '''') @ str_join (clean_segs (is_abs p) (split_on (CHR ''/'') p)) ''/''
      in if out = '''' then ''.'' else out)"

definition path_join :: "string list \<Rightarrow> string" where
  "path_join elems =
     (let rest = dropWhile (\<lambda>e. e = '''') elems
      in if rest = [] then '''' else path_clean (str_join rest ''/''))"

text \<open>\<open>filepath.Abs\<close>, also how the kernel reads a relative path.\<close>

definition path_abs :: "string \<Rightarrow> string \<Rightarrow> string" where
  "path_abs cwd p = (if is_abs p then path_clean p else path_join [cwd, p])"

section \<open>Base, Dir, Ext\<close>

definition path_base :: "string \<Rightarrow> string" where
  "path_base p =
     (if p = '''' then ''.''
      else
        let q = rev (dropWhile (\<lambda>c. c = CHR ''/'') (rev p))
        in if q = '''' then ''/''
           else (case last_index_of q (CHR ''/'') of None \<Rightarrow> q | Some i \<Rightarrow> drop (Suc i) q))"

definition path_dir :: "string \<Rightarrow> string" where
  "path_dir p =
     path_clean (case last_index_of p (CHR ''/'') of None \<Rightarrow> '''' | Some i \<Rightarrow> take (Suc i) p)"

section \<open>Rel\<close>

fun strip_common :: "string list \<Rightarrow> string list \<Rightarrow> string list \<times> string list" where
  "strip_common (a # as) (b # bs) = (if a = b then strip_common as bs else (a # as, b # bs))"
| "strip_common as bs = (as, bs)"

text \<open>\<open>None\<close> is the error \<open>Rel: can't make ... relative to ...\<close>.\<close>

definition path_segs :: "string \<Rightarrow> string list" where
  "path_segs cleaned =
     filter (\<lambda>s. s \<noteq> '''') (split_on (CHR ''/'') cleaned)"

definition path_rel :: "string \<Rightarrow> string \<Rightarrow> string option" where
  "path_rel basepath targpath =
     (let base = path_clean basepath; targ = path_clean targpath in
      if base = targ then Some ''.''
      else if is_abs base \<noteq> is_abs targ then None
      else
        (case strip_common (if base = ''.'' then [] else path_segs base) (path_segs targ) of
           (b, t) \<Rightarrow>
             if b \<noteq> [] \<and> hd b = ''..'' then None
             else Some (str_join (replicate (length b) ''..'' @ t) ''/'')))"

section \<open>What cleaning guarantees\<close>

definition plain_seg :: "string \<Rightarrow> bool" where
  "plain_seg s \<longleftrightarrow> s \<noteq> '''' \<and> s \<noteq> ''.'' \<and> s \<noteq> ''..'' \<and> CHR ''/'' \<notin> set s"

text \<open>The stack: \<open>..\<close> only below everything else, and never in a rooted path.\<close>

definition clean_stack :: "bool \<Rightarrow> string list \<Rightarrow> bool" where
  "clean_stack rooted stack \<longleftrightarrow>
     (\<exists>names k. stack = names @ replicate k ''..'' \<and> list_all plain_seg names \<and> (rooted \<longrightarrow> k = 0))"

lemma clean_stackI:
  "stack = names @ replicate k ''..'' \<Longrightarrow> list_all plain_seg names \<Longrightarrow> (rooted \<Longrightarrow> k = 0) \<Longrightarrow>
   clean_stack rooted stack"
  unfolding clean_stack_def by blast

lemma clean_step_stack:
  assumes "clean_stack rooted stack" and "CHR ''/'' \<notin> set seg"
  shows "clean_stack rooted (clean_step rooted stack seg)"
proof -
  obtain names k where st: "stack = names @ replicate k ''..''" "list_all plain_seg names"
      "rooted \<longrightarrow> k = 0"
    using assms(1) by (auto simp: clean_stack_def)
  consider "seg = '''' \<or> seg = ''.''" | "seg = ''..''" | "plain_seg seg"
    using assms(2) by (auto simp: plain_seg_def)
  then show ?thesis
  proof cases
    case 1
    with assms show ?thesis by (auto simp: clean_step_def)
  next
    case 2
    show ?thesis
    proof (cases names)
      case Nil
      show ?thesis
      proof (cases k)
        case 0
        with 2 st Nil show ?thesis
          by (auto simp: clean_step_def intro: clean_stackI [of _ "[]" 0] clean_stackI [of _ "[]" 1])
      next
        case (Suc m)
        with 2 st Nil show ?thesis
          by (auto simp: clean_step_def intro: clean_stackI [of _ "[]" "Suc (Suc m)"])
      qed
    next
      case (Cons n ns)
      then have "n \<noteq> ''..''" using st(2) by (simp add: plain_seg_def)
      with 2 st Cons show ?thesis
        by (auto simp: clean_step_def intro: clean_stackI [of _ ns k])
    qed
  next
    case 3
    with st show ?thesis
      by (auto simp: clean_step_def plain_seg_def intro: clean_stackI [of _ "seg # names" k])
  qed
qed

lemma clean_segs_stack:
  assumes "\<And>s. s \<in> set segs \<Longrightarrow> CHR ''/'' \<notin> set s"
  shows "clean_stack rooted (rev (clean_segs rooted segs))"
proof -
  have "clean_stack rooted (foldl (clean_step rooted) st segs)"
    if "clean_stack rooted st" "\<And>s. s \<in> set segs \<Longrightarrow> CHR ''/'' \<notin> set s" for st
    using that by (induction segs arbitrary: st) (auto intro: clean_step_stack)
  from this [of "[]"] assms show ?thesis
    by (simp add: clean_segs_def clean_stack_def)
qed

text \<open>A cleaned path is a sequence of \<open>..\<close> (none if rooted) and then plain names.\<close>

lemma clean_segs_shape:
  obtains k names where "clean_segs r (split_on (CHR ''/'') p) = replicate k ''..'' @ names"
    and "list_all plain_seg names" and "r \<Longrightarrow> k = 0"
proof -
  have "clean_stack r (rev (clean_segs r (split_on (CHR ''/'') p)))"
    using clean_segs_stack split_on_not_mem by metis
  then obtain names k where "rev (clean_segs r (split_on (CHR ''/'') p)) = names @ replicate k ''..''"
      "list_all plain_seg names" "r \<longrightarrow> k = 0"
    by (auto simp: clean_stack_def)
  then have "clean_segs r (split_on (CHR ''/'') p) = replicate k ''..'' @ rev names"
    by (metis rev_append rev_replicate rev_rev_ident)
  with that [of k "rev names"] show ?thesis
    using \<open>list_all plain_seg names\<close> \<open>r \<longrightarrow> k = 0\<close> by simp
qed

lemma foldl_clean_plain:
  "list_all plain_seg names \<Longrightarrow> foldl (clean_step r) st names = rev names @ st"
  by (induction names arbitrary: st) (auto simp: clean_step_def plain_seg_def)

lemma clean_segs_plain: "list_all plain_seg names \<Longrightarrow> clean_segs r names = names"
  by (simp add: clean_segs_def foldl_clean_plain)

text \<open>Joining plain names onto a cleaned path appends them.\<close>

lemma clean_segs_append:
  "list_all plain_seg names \<Longrightarrow> clean_segs r (segs @ names) = clean_segs r segs @ names"
  by (simp add: clean_segs_def foldl_clean_plain)

lemma str_join_ne_Nil: "xs \<noteq> [] \<Longrightarrow> hd xs \<noteq> [] \<Longrightarrow> str_join xs sep \<noteq> []"
  by (cases xs; cases "tl xs") auto

end
