(* ===== verification/Layout_Push.thy ===== *)
theory Layout_Push
  imports Manifest_Walk Go_Path
begin

text \<open>
  \<open>Push\<close> of \<open>pkg/ocipush/ocipush.go\<close>: an OCI image layout on disk is sent to one repository.
  \<open>name.ParseReference\<close> and the keychain are third-party and stay parameters; \<open>parsed_ref\<close> is what
  the code reads off a parsed reference.
\<close>

section \<open>References and clients\<close>

record parsed_ref =
  pr_scheme :: string
  pr_host :: string
  pr_repo :: string
  pr_ident :: string
  pr_digest :: "string option"  \<comment> \<open>\<open>DigestStr\<close> when the reference is a \<open>name.Digest\<close>\<close>

record names =
  parse_ref :: "bool \<Rightarrow> string \<Rightarrow> string + parsed_ref"  \<comment> \<open>the flag is \<open>name.Insecure\<close>\<close>
  keychain :: "string \<Rightarrow> string \<Rightarrow> string + string"

text \<open>Making a client allocates its mutable part at the number \<open>i\<close>.\<close>

definition make_client ::
  "names \<Rightarrow> nat \<Rightarrow> parsed_ref \<Rightarrow> Options \<Rightarrow> 'w st \<Rightarrow> (regClient, 'w) result" where
  "make_client N i r opts s =
     (case newRegClient (keychain N) i (pr_scheme r) (pr_host r) opts of
        Inl e \<Rightarrow> (Inl e, s)
      | Inr (c, auth, h) \<Rightarrow> (Inr c, s\<lparr>s_heap := (s_heap s)(i := h)\<rparr>))"

section \<open>The pusher\<close>

record pusher =
  pu_layout :: string
  pu_repo :: string
  pu_c :: regClient

definition blobPath :: "pusher \<Rightarrow> string \<Rightarrow> go_err + string" where
  "blobPath p dg =
     (if \<not> rmatch digestRe dg then Inl (Msg (''unsupported digest: '' @ dg))
      else Inr (path_join [pu_layout p, ''blobs'', ''sha256'', drop (length ''sha256:'') dg]))"

definition pushBlob ::
  "lib \<Rightarrow> 'w env \<Rightarrow> pusher \<Rightarrow> descriptor \<Rightarrow> 'w st \<Rightarrow> (unit, 'w) result" where
  "pushBlob L E p d s =
     (case blobPath p (d_digest d) of
        Inl e \<Rightarrow> (Inl e, s)
      | Inr path \<Rightarrow> pushBlobFile L E (pu_c p) (pu_repo p) d path s)"

function pushManifestDescriptor ::
  "lib \<Rightarrow> 'w env \<Rightarrow> pusher \<Rightarrow> nat \<Rightarrow> descriptor \<Rightarrow> string \<Rightarrow> 'w st \<Rightarrow> (unit, 'w) result option"
and pushManifestBytes ::
  "lib \<Rightarrow> 'w env \<Rightarrow> pusher \<Rightarrow> nat \<Rightarrow> bytes \<Rightarrow> string \<Rightarrow> string \<Rightarrow> 'w st \<Rightarrow> (unit, 'w) result option"
where
  "pushManifestDescriptor L E p n d refOrDigest s =
     (case blobPath p (d_digest d) of
        Inl e \<Rightarrow> Some (Inl e, s)
      | Inr path \<Rightarrow>
          (case s_disk s path of
             None \<Rightarrow> Some (Inl (Wrap (''read manifest '' @ d_digest d)
                (Msg (''open '' @ path @ '': no such file or directory''))), s)
           | Some raw \<Rightarrow>
               (if digestOf L raw \<noteq> d_digest d
                then Some (Inl (Msg (''layout manifest '' @ d_digest d @ '' hashes to '' @ digestOf L raw)), s)
                else pushManifestBytes L E p n raw (d_mediaType d) refOrDigest s)))"
| "pushManifestBytes L E p 0 raw mediaType refOrDigest s = None"
| "pushManifestBytes L E p (Suc n) raw mediaType refOrDigest s =
     (case parse_doc L raw of
        Inl e \<Rightarrow> Some (Inl (Wrap ''parse manifest'' (Msg e)), s)
      | Inr m \<Rightarrow>
          (case for_each_opt (\<lambda>child s. pushManifestDescriptor L E p n child (d_digest child) s)
                  (m_manifests m) s of
             None \<Rightarrow> None
           | Some (Inl e, s1) \<Rightarrow> Some (Inl e, s1)
           | Some (Inr _, s1) \<Rightarrow>
               (case for_each (pushBlob L E p) (blobs m) s1 of
                  (Inl e, s2) \<Rightarrow> Some (Inl e, s2)
                | (Inr _, s2) \<Rightarrow>
                    Some (putManifest L E (pu_c p) (pu_repo p) raw (mediaTypeOr m mediaType) refOrDigest s2))))"
  by pat_completeness auto
termination
  by (relation "measure (case_sum (\<lambda>(L, E, p, n, d, r, s). Suc (2 * n)) (\<lambda>(L, E, p, n, b, t, r, s). 2 * n))")
    auto

declare pushManifestDescriptor.simps [simp del]

definition push ::
  "lib \<Rightarrow> 'w env \<Rightarrow> names \<Rightarrow> nat \<Rightarrow> nat \<Rightarrow> string \<Rightarrow> string \<Rightarrow> Options \<Rightarrow> 'w st \<Rightarrow> (unit, 'w) result option"
where
  "push L E N fuel i layoutDir img opts s =
     (case parse_ref N False img of
        Inl e \<Rightarrow> Some (Inl (Wrap (''parse reference '' @ img) (Msg e)), s)
      | Inr ref \<Rightarrow>
      (case make_client N i ref opts s of
        (Inl e, s1) \<Rightarrow> Some (Inl e, s1)
      | (Inr c, s1) \<Rightarrow>
        let p = \<lparr>pu_layout = layoutDir, pu_repo = pr_repo ref, pu_c = c\<rparr>;
            indexPath = path_join [layoutDir, ''index.json''] in
        (case s_disk s1 indexPath of
          None \<Rightarrow> Some (Inl (Wrap ''read layout index''
                    (Msg (''open '' @ indexPath @ '': no such file or directory''))), s1)
        | Some indexBytes \<Rightarrow>
        (case parse_doc L indexBytes of
          Inl e \<Rightarrow> Some (Inl (Wrap ''parse layout index'' (Msg e)), s1)
        | Inr index \<Rightarrow>
            (case m_manifests index of
               [] \<Rightarrow> Some (Inl (Msg ''layout index.json has no manifests''), s1)
             | [root] \<Rightarrow> pushManifestDescriptor L E p fuel root (pr_ident ref) s1
             | _ \<Rightarrow> pushManifestBytes L E p fuel indexBytes (m_mediaType index) (pr_ident ref) s1)))))"

section \<open>Push is the shared traversal\<close>

text \<open>A child is read from the layout and must hash to its digest.\<close>

definition layout_fetch ::
  "lib \<Rightarrow> pusher \<Rightarrow> descriptor \<Rightarrow> 'w st \<Rightarrow> (bytes \<times> string, 'w) result" where
  "layout_fetch L p d s =
     (case blobPath p (d_digest d) of
        Inl e \<Rightarrow> (Inl e, s)
      | Inr path \<Rightarrow>
          (case s_disk s path of
             None \<Rightarrow> (Inl (Wrap (''read manifest '' @ d_digest d)
                (Msg (''open '' @ path @ '': no such file or directory''))), s)
           | Some raw \<Rightarrow>
               (if digestOf L raw \<noteq> d_digest d
                then (Inl (Msg (''layout manifest '' @ d_digest d @ '' hashes to '' @ digestOf L raw)), s)
                else (Inr (raw, d_mediaType d), s))))"

lemma pushManifestDescriptor_fetch:
  "pushManifestDescriptor L E p n d r s =
     (case layout_fetch L p d s of
        (Inl e, s1) \<Rightarrow> Some (Inl e, s1)
      | (Inr (raw, mt), s1) \<Rightarrow> pushManifestBytes L E p n raw mt r s1)"
  by (simp add: pushManifestDescriptor.simps layout_fetch_def split: sum.split option.split)

lemma push_child_fetch:
  "(\<lambda>child. pushManifestDescriptor L E p n child (d_digest child)) =
   (\<lambda>child s. case layout_fetch L p child s of
        (Inl e, s1) \<Rightarrow> Some (Inl e, s1)
      | (Inr (raw, mt), s1) \<Rightarrow> pushManifestBytes L E p n raw mt (d_digest child) s1)"
  by (intro ext pushManifestDescriptor_fetch)

lemma pushManifestBytes_walk:
  "pushManifestBytes L E p n raw mt r s =
     walk L (layout_fetch L p) (pushBlob L E p) (putManifest L E (pu_c p) (pu_repo p)) n raw mt r s"
  by (induction n arbitrary: raw mt r s) (simp_all add: push_child_fetch cong: sum.case_cong prod.case_cong)

lemma layout_fetch_state: "layout_fetch L p d s = (r, s') \<Longrightarrow> s' = s"
  by (auto simp: layout_fetch_def split: sum.splits option.splits if_splits)

lemma layout_fetch_digest: "layout_fetch L p d s = (Inr (raw, mt), s') \<Longrightarrow> digestOf L raw = d_digest d"
  by (auto simp: layout_fetch_def split: sum.splits option.splits if_splits)

lemma pushBlob_cases:
  assumes "pushBlob L E p d s = (r, s')"
  obtains (bad) e where "r = Inl e" "s' = s"
  | (sent) path where "blobPath p (d_digest d) = Inr path"
      "pushBlobFile L E (pu_c p) (pu_repo p) d path s = (r, s')"
  using assms that by (auto simp: pushBlob_def split: sum.splits)

text \<open>Moving blobs puts no manifest, and on success the registry has the blob.\<close>

lemma blob_op_quiet: "ev c (blob_op repo dg) e \<Longrightarrow> \<not> put_event c' repo' e"
  by (auto simp: ev_def put_event_def)

lemma pushBlobFile_quiet:
  assumes "pushBlobFile L E c repo d path s = (r, s')"
  shows "adds (\<lambda>e. \<not> put_event c' repo' e) s s'"
  using pushBlobFile_trace [OF assms] blob_op_quiet by (blast intro: adds_mono)

lemma putManifest_op:
  "putManifest L E c repo raw mt ref s = (r, s') \<Longrightarrow>
     adds (\<lambda>e. q_op (fst e) = OpManifestPut repo ref \<and> q_body (fst e) = raw) s s'"
  by (drule putManifest_adds) (auto elim!: adds_mono simp: ev_def)

lemma putManifest_accepted:
  assumes "putManifest L E c repo raw mt ref s = (Inr (), s')"
  shows "\<exists>e \<in> set (s_wire s'). manifest_put c repo ref raw e"
  using putManifest_Inr [OF assms] by (auto simp: manifest_put_def accepted_def)

lemma putManifest_ext_inv:
  assumes "putManifest L E c repo raw mt ref s = (r, s')" and "ext_inv L c s"
  shows "ext_inv L c s'"
  by (rule ext_inv_adds [OF assms(2) putManifest_adds [OF assms(1)]])
    (use putManifest_frame [OF assms(1)] in \<open>auto simp: ext_same_def ev_def discovers_def ext_event_def\<close>)

interpretation layout: manifest_walk_inv L "pu_c p" "pu_repo p" "layout_fetch L p" "pushBlob L E p"
    "putManifest L E (pu_c p) (pu_repo p)" "ext_inv L (pu_c p)"
  for L p and E :: "'w env"
proof unfold_locales
  show "adds (\<lambda>e. \<not> put_event (pu_c p) (pu_repo p) e) s s'" if "layout_fetch L p d s = (r, s')"
    for d :: descriptor and s s' :: "'w st" and r
    using layout_fetch_state [OF that] by simp
  show "adds (\<lambda>e. \<not> put_event (pu_c p) (pu_repo p) e) s s'" if "pushBlob L E p d s = (r, s')"
    for d s s' r
    using that by (cases rule: pushBlob_cases) (auto intro: pushBlobFile_quiet)
  show "has_blob L (pu_c p) (pu_repo p) (d_digest d) (s_wire s')" if "pushBlob L E p d s = (Inr (), s')"
    for d s s'
    using that by (cases rule: pushBlob_cases) (auto dest: pushBlobFile_trace)
  show "ext_inv L (pu_c p) s'" if "pushBlob L E p d s = (r, s')" "ext_inv L (pu_c p) s" for d s s' r
    using that by (cases rule: pushBlob_cases) (auto dest: pushBlobFile_trace)
qed (auto dest: layout_fetch_digest layout_fetch_state
      intro: putManifest_op putManifest_accepted putManifest_ext_inv)

section \<open>What push establishes\<close>

lemma make_client_cases:
  assumes "make_client N i r opts s = (res, s')"
  obtains (failed) e where "res = Inl e" "s' = s"
  | (made) c h where "res = Inr c" "s' = s\<lparr>s_heap := (s_heap s)(i := h)\<rparr>"
      "c_id c = i" "c_base c = pr_scheme r @ ''://'' @ pr_host r"
      "\<not> cs_usable h" "\<not> cs_discovered h" "cs_clients h = Map.empty"
  using assms that
  by (auto simp: make_client_def newRegClient_def Let_def split: sum.splits prod.splits option.splits)

text \<open>
  A push is an error before anything is sent, the single entry of the index, or the whole index;
  in the last two cases it is a traversal from some root bytes.
\<close>

lemma push_cases:
  assumes "push L E N n i dir img opts s = Some (r, s')"
  obtains (early) e where "r = Inl e" "s_wire s' = s_wire s" "s_disk s' = s_disk s"
  | (walked) ref p h raw mt where "parse_ref N False img = Inr ref"
      "pu_layout p = dir" "pu_repo p = pr_repo ref" "c_id (pu_c p) = i"
      "c_base (pu_c p) = pr_scheme ref @ ''://'' @ pr_host ref"
      "\<not> cs_usable h" "\<not> cs_discovered h" "cs_clients h = Map.empty"
      "walk L (layout_fetch L p) (pushBlob L E p) (putManifest L E (pu_c p) (pu_repo p)) n raw mt
         (pr_ident ref) (s\<lparr>s_heap := (s_heap s)(i := h)\<rparr>) = Some (r, s')"
      "(\<exists>index. parse_doc L raw = Inr index \<and> s_disk s (path_join [dir, ''index.json'']) = Some raw
            \<and> length (m_manifests index) > 1)
       \<or> (\<exists>idx index d path. s_disk s (path_join [dir, ''index.json'']) = Some idx
            \<and> parse_doc L idx = Inr index \<and> m_manifests index = [d] \<and> digestOf L raw = d_digest d
            \<and> blobPath p (d_digest d) = Inr path \<and> s_disk s path = Some raw)"
proof (cases "parse_ref N False img")
  case (Inl e)
  with assms early show ?thesis by (auto simp: push_def)
next
  case (Inr ref)
  note ref = Inr
  obtain r1 s1 where mk: "make_client N i ref opts s = (r1, s1)" by fastforce
  from mk show ?thesis
  proof (cases rule: make_client_cases)
    case (failed e)
    with assms ref mk early show ?thesis by (auto simp: push_def)
  next
    case (made c h)
    let ?p = "\<lparr>pu_layout = dir, pu_repo = pr_repo ref, pu_c = c\<rparr>"
    let ?path = "path_join [dir, ''index.json'']"
    have heap: "s_disk s1 = s_disk s" "s_wire s1 = s_wire s" using made by simp_all
    show ?thesis
    proof (cases "s_disk s ?path")
      case None
      with assms ref mk made early show ?thesis by (auto simp: push_def Let_def)
    next
      case (Some idx)
      note idx = Some
      show ?thesis
      proof (cases "parse_doc L idx")
        case (Inl e)
        with assms ref mk made idx early show ?thesis by (auto simp: push_def Let_def)
      next
        case (Inr index)
        note index = Inr
        consider "m_manifests index = []" | d where "m_manifests index = [d]"
          | d1 d2 ds where "m_manifests index = d1 # d2 # ds"
          by (metis list.exhaust)
        then show ?thesis
        proof cases
          case 1
          with assms ref mk made idx index early show ?thesis by (auto simp: push_def Let_def)
        next
          case (2 d)
          with assms ref mk made idx index
          have pmd: "pushManifestDescriptor L E ?p n d (pr_ident ref) s1 = Some (r, s')"
            by (auto simp: push_def Let_def)
          obtain r2 s2 where f: "layout_fetch L ?p d s1 = (r2, s2)" by fastforce
          note s2 = layout_fetch_state [OF f]
          show ?thesis
          proof (cases r2)
            case (Inl e)
            with pmd f s2 heap early show ?thesis by (auto simp: pushManifestDescriptor_fetch)
          next
            case (Inr b)
            then obtain raw mt where b: "r2 = Inr (raw, mt)" by (cases b) auto
            have "digestOf L raw = d_digest d" using layout_fetch_digest f b by blast
            moreover obtain path where "blobPath ?p (d_digest d) = Inr path" "s_disk s path = Some raw"
              using f b heap by (auto simp: layout_fetch_def split: sum.splits option.splits if_splits)
            moreover have "walk L (layout_fetch L ?p) (pushBlob L E ?p) (putManifest L E c (pr_repo ref))
                n raw mt (pr_ident ref) s1 = Some (r, s')"
              using pmd f b s2 by (simp add: pushManifestDescriptor_fetch pushManifestBytes_walk)
            ultimately show ?thesis
              using walked [of ref ?p h raw mt] ref made idx index 2 by auto
          qed
        next
          case (3 d1 d2 ds)
          with assms ref mk made idx index
          have "pushManifestBytes L E ?p n idx (m_mediaType index) (pr_ident ref) s1 = Some (r, s')"
            by (auto simp: push_def Let_def)
          then show ?thesis
            using walked [of ref ?p h idx "m_mediaType index"] ref made idx index 3
            by (auto simp: pushManifestBytes_walk)
        qed
      qed
    qed
  qed
qed

end
