(* ===== verification/Image_Mirror.thy ===== *)
theory Image_Mirror
  imports Layout_Push
begin

text \<open>
  \<open>pkg/ocipush/staging.go\<close> and \<open>pkg/ocipush/mirror.go\<close>: the temporary files blobs are staged in, and
  \<open>Mirror\<close>, which copies an image between registries, verifying every node. The copy of a blob
  to disk is one step here: a read or write error ends \<open>mirrorBlob\<close>, whose deferred \<open>os.Remove\<close>
  deletes whatever was written.
\<close>

section \<open>Staging files (staging.go)\<close>

definition envStagingDir :: string where
  "envStagingDir = ''CONTAIN_STAGING_DIR''"

definition resolveStagingDir :: "'w env \<Rightarrow> string \<Rightarrow> string" where
  "resolveStagingDir E dir =
     (if dir \<noteq> '''' then dir
      else if getenv E envStagingDir \<noteq> '''' then getenv E envStagingDir
      else if getenv E ''CONTAIN_CACHE_DIR'' \<noteq> ''''
      then path_join [getenv E ''CONTAIN_CACHE_DIR'', ''staging'']
      else '''')"

definition stagingDirName :: "'w env \<Rightarrow> string \<Rightarrow> string" where
  "stagingDirName E resolved = (if resolved = '''' then temp_dir E else resolved)"

text \<open>\<open>os.CreateTemp\<close> opens a file that did not exist, or fails.\<close>

definition createTemp :: "'w env \<Rightarrow> string \<Rightarrow> string \<Rightarrow> 'w st \<Rightarrow> (string, 'w) result" where
  "createTemp E dir pattern s =
     (case create_temp E (if dir = '''' then temp_dir E else dir) pattern (s_world s) of
        (Inl e, w) \<Rightarrow> (Inl (Msg e), s\<lparr>s_world := w\<rparr>)
      | (Inr name, w) \<Rightarrow>
          (if s_disk s name \<noteq> None then (Inl (Msg ''file exists''), s\<lparr>s_world := w\<rparr>)
           else (Inr name, s\<lparr>s_world := w, s_disk := (s_disk s)(name \<mapsto> [])\<rparr>)))"

definition stagingFile :: "'w env \<Rightarrow> string \<Rightarrow> string \<Rightarrow> 'w st \<Rightarrow> (string, 'w) result" where
  "stagingFile E dir pattern s =
     (let resolved = resolveStagingDir E dir in
      case (if resolved \<noteq> '''' then mkdir_all E resolved (s_world s) else (None, s_world s)) of
        (Some e, w) \<Rightarrow> (Inl (Wrap (''create staging dir '' @ resolved) (Msg e)), s\<lparr>s_world := w\<rparr>)
      | (None, w) \<Rightarrow>
          (case createTemp E resolved pattern (s\<lparr>s_world := w\<rparr>) of
             (Inl e, s1) \<Rightarrow> (Inl (Wrap (''create staging file in '' @ stagingDirName E resolved) e), s1)
           | (Inr f, s1) \<Rightarrow> (Inr f, s1)))"

abbreviation remove_file :: "string \<Rightarrow> 'w st \<Rightarrow> 'w st" where
  "remove_file name s \<equiv> s\<lparr>s_disk := (s_disk s)(name := None)\<rparr>"

section \<open>Options\<close>

record SourceOptions =
  so_auth :: "string option"
  so_keychain :: "string option"
  so_plainHTTP :: bool

definition access :: "SourceOptions \<Rightarrow> Options" where
  "access so = \<lparr>o_auth = so_auth so, o_keychain = so_keychain so, o_extThreshold = 0,
     o_partSize = 0, o_stagingDir = ''''\<rparr>"

record MirrorOptions =
  mo_src :: SourceOptions
  mo_dst :: Options

section \<open>The mirrorer\<close>

definition manifestAccept :: string where
  "manifestAccept =
     ''application/vnd.oci.image.index.v1+json, application/vnd.oci.image.manifest.v1+json, ''
     @ ''application/vnd.docker.distribution.manifest.list.v2+json, ''
     @ ''application/vnd.docker.distribution.manifest.v2+json''"

record mirrorer =
  mi_src :: regClient
  mi_dst :: regClient
  mi_srcRepo :: string
  mi_dstRepo :: string
  mi_stagingDir :: string

definition manifestLimit :: int where
  "manifestLimit = 32 * 1024 * 1024"

definition fetchManifest ::
  "lib \<Rightarrow> 'w env \<Rightarrow> mirrorer \<Rightarrow> string \<Rightarrow> 'w st \<Rightarrow> (bytes \<times> string, 'w) result" where
  "fetchManifest L E m ref s =
     (let c = mi_src m in
      case newRequest L c (OpManifestGet (mi_srcRepo m) ref) ''GET''
             (c_base c @ ''/v2/'' @ mi_srcRepo m @ ''/manifests/'' @ ref) [] of
        Inl e \<Rightarrow> (Inl e, s)
      | Inr req \<Rightarrow>
          (case do_req L E c (mi_srcRepo m) PullScope (req\<lparr>q_hdrs := [(''Accept'', manifestAccept)]\<rparr>) s of
             (Inl e, s1) \<Rightarrow> (Inl (Wrap (''source manifest '' @ ref) e), s1)
           | (Inr res, s1) \<Rightarrow>
               (if r_status res \<noteq> 200 then (Inl (statusError (''source manifest '' @ ref) res), s1)
                else
                 (case read_limited manifestLimit (r_body res) (r_err res) of
                    (raw, Some e) \<Rightarrow> (Inl (Wrap (''source manifest '' @ ref) (Msg e)), s1)
                  | (raw, None) \<Rightarrow> (Inr (raw, header_get (r_hdrs res) ''Content-Type''), s1)))))"

definition verifyBlob :: "lib \<Rightarrow> descriptor \<Rightarrow> i64 \<Rightarrow> bytes \<Rightarrow> go_err + unit" where
  "verifyBlob L d sz hasher =
     (if d_size d \<noteq> 0 \<and> sz \<noteq> d_size d
      then Inl (Msg (''blob '' @ d_digest d @ '': source served '' @ itoa (sint sz)
             @ '' bytes, descriptor says '' @ itoa (sint (d_size d))))
      else if \<not> equal_fold (d_digest d) (digestOfHash L hasher)
      then Inl (Msg (''blob '' @ d_digest d @ '': source content hashes to '' @ digestOfHash L hasher))
      else Inr ())"

text \<open>What follows the creation of the staging file \<open>name\<close>, up to the deferred removal.\<close>

definition mirrorStaged ::
  "lib \<Rightarrow> 'w env \<Rightarrow> mirrorer \<Rightarrow> descriptor \<Rightarrow> response \<Rightarrow> string \<Rightarrow> 'w st \<Rightarrow> (unit, 'w) result" where
  "mirrorStaged L E m d res name s =
     (case write_err E name (r_body res) (s_world s) of
        Some e \<Rightarrow> (Inl (Wrap (''source blob '' @ d_digest d) (Msg e)), s)
      | None \<Rightarrow>
        let s1 = s\<lparr>s_disk := (s_disk s)(name \<mapsto> r_body res)\<rparr>;
            sz = of_nat (length (r_body res)) in
        (case r_err res of
           Some e \<Rightarrow> (Inl (Wrap (''source blob '' @ d_digest d) (Msg e)), s1)
         | None \<Rightarrow>
           (case close_err E name (s_world s1) of
              Some e \<Rightarrow> (Inl (Msg e), s1)
            | None \<Rightarrow>
              (case verifyBlob L d sz (r_body res) of
                 Inl e \<Rightarrow> (Inl e, s1)
               | Inr _ \<Rightarrow>
                   pushBlobFile L E (mi_dst m) (mi_dstRepo m)
                     \<lparr>d_mediaType = '''', d_digest = d_digest d, d_size = sz\<rparr> name s1))))"

definition mirrorBlob ::
  "lib \<Rightarrow> 'w env \<Rightarrow> mirrorer \<Rightarrow> descriptor \<Rightarrow> 'w st \<Rightarrow> (unit, 'w) result" where
  "mirrorBlob L E m d s =
     (case blobExists L E (mi_dst m) (mi_dstRepo m) (d_digest d) PushScope s of
        (Inl e, s1) \<Rightarrow> (Inl e, s1)
      | (Inr True, s1) \<Rightarrow> (Inr (), s1)
      | (Inr False, s1) \<Rightarrow>
          (case newRequest L (mi_src m) (OpBlobGet (mi_srcRepo m) (d_digest d)) ''GET''
                  (c_base (mi_src m) @ ''/v2/'' @ mi_srcRepo m @ ''/blobs/'' @ d_digest d) [] of
             Inl e \<Rightarrow> (Inl e, s1)
           | Inr req \<Rightarrow>
               (case do_req L E (mi_src m) (mi_srcRepo m) PullScope req s1 of
                  (Inl e, s2) \<Rightarrow> (Inl (Wrap (''source blob '' @ d_digest d) e), s2)
                | (Inr res, s2) \<Rightarrow>
                    (if r_status res \<noteq> 200
                     then (Inl (statusError (''source blob '' @ d_digest d) res), s2)
                     else
                      (case stagingFile E (mi_stagingDir m) ''contain-mirror-*'' s2 of
                         (Inl e, s3) \<Rightarrow> (Inl e, s3)
                       | (Inr name, s3) \<Rightarrow>
                           (case mirrorStaged L E m d res name s3 of
                              (r, s4) \<Rightarrow> (r, remove_file name s4)))))))"

fun pushTree ::
  "lib \<Rightarrow> 'w env \<Rightarrow> mirrorer \<Rightarrow> nat \<Rightarrow> bytes \<Rightarrow> string \<Rightarrow> string \<Rightarrow> 'w st \<Rightarrow> (unit, 'w) result option"
where
  "pushTree L E m 0 raw mediaType refOrDigest s = None"
| "pushTree L E m (Suc n) raw mediaType refOrDigest s =
     (case parse_doc L raw of
        Inl e \<Rightarrow> Some (Inl (Wrap ''parse manifest'' (Msg e)), s)
      | Inr doc \<Rightarrow>
          (case for_each_opt
                  (\<lambda>child s.
                     case fetchManifest L E m (d_digest child) s of
                       (Inl e, s1) \<Rightarrow> Some (Inl e, s1)
                     | (Inr (childRaw, childType), s1) \<Rightarrow>
                         (if digestOf L childRaw \<noteq> d_digest child
                          then Some (Inl (Msg (''child manifest '' @ d_digest child
                                 @ '' served with digest '' @ digestOf L childRaw)), s1)
                          else pushTree L E m n childRaw
                                 (if childType = '''' then d_mediaType child else childType)
                                 (d_digest child) s1))
                  (m_manifests doc) s of
             None \<Rightarrow> None
           | Some (Inl e, s1) \<Rightarrow> Some (Inl e, s1)
           | Some (Inr _, s1) \<Rightarrow>
               (case for_each (mirrorBlob L E m) (blobs doc) s1 of
                  (Inl e, s2) \<Rightarrow> Some (Inl e, s2)
                | (Inr _, s2) \<Rightarrow>
                    Some (putManifest L E (mi_dst m) (mi_dstRepo m) raw (mediaTypeOr doc mediaType)
                      refOrDigest s2))))"

text \<open>The source client is number \<open>i\<close>, the destination client number \<open>j\<close>.\<close>

definition mirror ::
  "lib \<Rightarrow> 'w env \<Rightarrow> names \<Rightarrow> nat \<Rightarrow> nat \<Rightarrow> nat \<Rightarrow> string \<Rightarrow> string \<Rightarrow> MirrorOptions \<Rightarrow> 'w st \<Rightarrow>
   (unit, 'w) result option" where
  "mirror L E N fuel i j srcRef dstRef opts s =
     (case parse_ref N (so_plainHTTP (mo_src opts)) srcRef of
        Inl e \<Rightarrow> Some (Inl (Wrap (''parse source '' @ srcRef) (Msg e)), s)
      | Inr src \<Rightarrow>
      (case parse_ref N False dstRef of
        Inl e \<Rightarrow> Some (Inl (Wrap (''parse destination '' @ dstRef) (Msg e)), s)
      | Inr dst \<Rightarrow>
      (case make_client N i src (access (mo_src opts)) s of
        (Inl e, s1) \<Rightarrow> Some (Inl e, s1)
      | (Inr srcClient, s1) \<Rightarrow>
      (case make_client N j dst (mo_dst opts) s1 of
        (Inl e, s2) \<Rightarrow> Some (Inl e, s2)
      | (Inr dstClient, s2) \<Rightarrow>
        let m = \<lparr>mi_src = srcClient, mi_dst = dstClient, mi_srcRepo = pr_repo src,
                 mi_dstRepo = pr_repo dst, mi_stagingDir = o_stagingDir (mo_dst opts)\<rparr> in
        (case fetchManifest L E m (pr_ident src) s2 of
          (Inl e, s3) \<Rightarrow> Some (Inl e, s3)
        | (Inr (raw, mediaType), s3) \<Rightarrow>
            (if pr_digest src \<notin> {None, Some (digestOf L raw)}
             then Some (Inl (Msg (''source root manifest digest '' @ digestOf L raw
                    @ '' does not match requested '' @ the (pr_digest src))), s3)
             else pushTree L E m fuel raw mediaType (pr_ident dst) s3))))))"

section \<open>Staging leaves nothing behind\<close>

lemma stagingFile_cases:
  assumes "stagingFile E dir pat s = (r, s')"
  obtains (failed) e w where "r = Inl e" "s' = s\<lparr>s_world := w\<rparr>"
  | (created) name w where "r = Inr name" "s_disk s name = None"
      "s' = s\<lparr>s_world := w, s_disk := (s_disk s)(name \<mapsto> [])\<rparr>"
  using assms that
  by (auto simp: stagingFile_def createTemp_def Let_def split: prod.splits option.splits sum.splits if_splits)

text \<open>What the mirror may send: reads to the source, and verified blobs to the destination.\<close>

definition mirror_event :: "lib \<Rightarrow> mirrorer \<Rightarrow> exchange \<Rightarrow> bool" where
  "mirror_event L m e \<longleftrightarrow>
     (q_via (fst e) = c_id (mi_src m) \<and> q_meth (fst e) = ''GET'' \<and> req_ok (mi_src m) (fst e)
        \<and> (\<exists>ref. q_op (fst e) = OpManifestGet (mi_srcRepo m) ref
              \<or> q_op (fst e) = OpBlobGet (mi_srcRepo m) ref))
     \<or> (q_via (fst e) = c_id (mi_dst m) \<and> req_ok (mi_dst m) (fst e)
        \<and> (\<forall>repo dg. q_op (fst e) = OpBlobPut repo dg \<longrightarrow>
              repo = mi_dstRepo m \<and> equal_fold dg (digestOf L (q_body (fst e))))
        \<and> (\<forall>repo ref. q_op (fst e) = OpManifestPut repo ref \<longrightarrow> repo = mi_dstRepo m))"

definition mirror_get :: "mirrorer \<Rightarrow> exchange \<Rightarrow> bool" where
  "mirror_get m e \<longleftrightarrow> q_via (fst e) = c_id (mi_src m) \<and> q_meth (fst e) = ''GET''
     \<and> req_ok (mi_src m) (fst e)
     \<and> (\<exists>ref. q_op (fst e) = OpManifestGet (mi_srcRepo m) ref
              \<or> q_op (fst e) = OpBlobGet (mi_srcRepo m) ref)"

lemma mirror_get_event: "mirror_get m e \<Longrightarrow> mirror_event L m e"
  by (simp add: mirror_get_def mirror_event_def)

lemma mirror_get_quiet: "mirror_get m e \<Longrightarrow> \<not> put_event c repo e"
  by (auto simp: mirror_get_def put_event_def)

lemma mirror_get_no_ext: "mirror_get m e \<Longrightarrow> \<not> discovers c e \<and> \<not> ext_event c e"
  by (auto simp: mirror_get_def discovers_def ext_event_def)

lemma mirror_event_ev:
  "ev (mi_dst m) ops e \<Longrightarrow> (\<And>repo dg. \<not> ops (OpBlobPut repo dg)) \<Longrightarrow>
   (\<And>repo ref. ops (OpManifestPut repo ref) \<Longrightarrow> repo = mi_dstRepo m) \<Longrightarrow> mirror_event L m e"
  by (auto simp: ev_def mirror_event_def)

lemma fetchManifest_trace:
  assumes "fetchManifest L E m ref s = (r, s')"
  shows "adds (mirror_get m) s s' \<and> keeps s s' \<and> ext_same s s'"
  using assms
  by (auto simp: fetchManifest_def Let_def mirror_get_def req_ok_def read_limited_def
      split: sum.splits prod.splits if_splits option.splits
      dest!: newRequest_fields dest: do_req_frame intro!: do_req_adds)

text \<open>The staging file holds what was hashed, so a pushed blob hashes to its digest.\<close>

lemma mirrorStaged_trace:
  assumes "mirrorStaged L E m d res name s = (r, s')"
  shows "adds (\<lambda>e. mirror_event L m e \<and> \<not> put_event c repo e) s s'
     \<and> (r = Inr () \<longrightarrow> has_blob L (mi_dst m) (mi_dstRepo m) (d_digest d) (s_wire s'))
     \<and> (\<forall>p. p \<noteq> name \<longrightarrow> s_disk s' p = s_disk s p)
     \<and> (ext_inv L (mi_dst m) s \<longrightarrow> ext_inv L (mi_dst m) s')"
proof -
  let ?s1 = "s\<lparr>s_disk := (s_disk s)(name \<mapsto> r_body res)\<rparr>"
  let ?d = "\<lparr>d_mediaType = '''', d_digest = d_digest d, d_size = of_nat (length (r_body res))\<rparr>"
  show ?thesis
  proof (cases "equal_fold (d_digest d) (digestOf L (r_body res)) \<and>
      pushBlobFile L E (mi_dst m) (mi_dstRepo m) ?d name ?s1 = (r, s')")
    case True
    note push = conjunct2 [OF True]
    have "adds (\<lambda>e. ev (mi_dst m) (blob_op (mi_dstRepo m) (d_digest d)) e
        \<and> carries ?d (Some (r_body res)) e) ?s1 s'"
      using pushBlobFile_trace [OF push] pushBlobFile_carries [OF push] by (intro adds_conj) simp_all
    then have "adds (\<lambda>e. mirror_event L m e \<and> \<not> put_event c repo e) ?s1 s'"
      by (rule adds_mono) (use True in \<open>auto simp: mirror_event_def ev_def carries_def put_event_def\<close>)
    then have "adds (\<lambda>e. mirror_event L m e \<and> \<not> put_event c repo e) s s'"
      by (simp add: adds_def)
    moreover have "ext_inv L (mi_dst m) s \<Longrightarrow> ext_inv L (mi_dst m) ?s1" by (simp add: ext_inv_def)
    ultimately show ?thesis
      using pushBlobFile_trace [OF push] by (auto simp: keeps_disk)
  next
    case False
    then have "(\<exists>e. r = Inl e) \<and> (s' = s \<or> s' = ?s1)"
      using assms
      by (auto simp: mirrorStaged_def verifyBlob_def digestOf_def digestOfHash_def Let_def
          split: option.splits sum.splits if_splits)
    then show ?thesis by (auto simp: adds_def ext_inv_def)
  qed
qed

lemma mirrorBlob_trace:
  assumes "mirrorBlob L E m d s = (r, s')"
  shows "adds (\<lambda>e. mirror_event L m e \<and> \<not> put_event c repo e) s s'
     \<and> (r = Inr () \<longrightarrow> has_blob L (mi_dst m) (mi_dstRepo m) (d_digest d) (s_wire s'))
     \<and> s_disk s' = s_disk s
     \<and> (ext_inv L (mi_dst m) s \<longrightarrow> ext_inv L (mi_dst m) s')"
proof -
  let ?P = "\<lambda>e. mirror_event L m e \<and> \<not> put_event c repo e"
  obtain r1 s1 where head: "blobExists L E (mi_dst m) (mi_dstRepo m) (d_digest d) PushScope s = (r1, s1)"
    by fastforce
  have a1: "adds ?P s s1"
    by (rule adds_mono [OF blobExists_adds [OF head]])
      (auto intro: mirror_event_ev simp: put_event_def ev_def)
  note f1 = blobExists_frame [OF head]
  have i1: "ext_inv L (mi_dst m) s1" if "ext_inv L (mi_dst m) s"
    by (rule ext_inv_adds [OF that blobExists_adds [OF head]])
      (use f1 in \<open>auto simp: ext_same_def ev_def discovers_def ext_event_def\<close>)
  note base = a1 keeps_disk [OF conjunct1 [OF f1]] i1
  show ?thesis
  proof (cases "r1 = Inr False")
    case False
    have "s' = s1" "r = Inr () \<Longrightarrow> r1 = Inr True"
      using assms head False by (cases r1; auto simp: mirrorBlob_def split: bool.splits)+
    moreover have "has_blob L (mi_dst m) (mi_dstRepo m) (d_digest d) (s_wire s1)" if "r1 = Inr True"
      using blobExists_True head that by (fastforce simp: has_blob_def blob_ok_def)
    ultimately show ?thesis using base by auto
  next
    case True
    let ?url = "c_base (mi_src m) @ ''/v2/'' @ mi_srcRepo m @ ''/blobs/'' @ d_digest d"
    show ?thesis
    proof (cases "newRequest L (mi_src m) (OpBlobGet (mi_srcRepo m) (d_digest d)) ''GET'' ?url []")
      case (Inl e)
      with assms head True base show ?thesis by (auto simp: mirrorBlob_def)
    next
      case (Inr req)
      note req = newRequest_fields [OF Inr]
      obtain r2 s2 where get: "do_req L E (mi_src m) (mi_srcRepo m) PullScope req s1 = (r2, s2)"
        by fastforce
      have g: "adds (mirror_get m) s1 s2"
        by (rule do_req_adds [OF get]) (use req in \<open>auto simp: mirror_get_def req_ok_def\<close>)
      note f2 = do_req_frame [OF get]
      have a2: "adds ?P s s2"
        using g by (auto intro!: adds_trans [OF a1] elim!: adds_mono
            simp: mirror_get_event mirror_get_quiet)
      have i2: "ext_inv L (mi_dst m) s2" if "ext_inv L (mi_dst m) s"
        by (rule ext_inv_adds [OF i1 [OF that] g])
          (use f2 mirror_get_no_ext in \<open>auto simp: ext_same_def\<close>)
      have d2: "s_disk s2 = s_disk s" using f1 f2 by (metis keeps_disk)
      show ?thesis
      proof (cases "\<exists>res. r2 = Inr res \<and> r_status res = 200")
        case False
        with assms head True Inr get have "s' = s2 \<and> (\<exists>e. r = Inl e)"
          by (cases r2) (auto simp: mirrorBlob_def)
        with a2 i2 d2 show ?thesis by auto
      next
        case ok: True
        then obtain res where res: "r2 = Inr res" "r_status res = 200" by blast
        obtain r3 s3 where st: "stagingFile E (mi_stagingDir m) ''contain-mirror-*'' s2 = (r3, s3)"
          by fastforce
        note sofar = assms head True Inr get res st
        from st show ?thesis
        proof (cases rule: stagingFile_cases)
          case (failed e w)
          with sofar have "s' = s2\<lparr>s_world := w\<rparr> \<and> r = Inl e" by (auto simp: mirrorBlob_def)
          with a2 i2 d2 show ?thesis by (auto simp: adds_def ext_inv_def)
        next
          case (created name w)
          obtain r4 s4 where ms: "mirrorStaged L E m d res name s3 = (r4, s4)" by fastforce
          have out: "r = r4 \<and> s' = remove_file name s4"
            using sofar created(1) ms by (auto simp: mirrorBlob_def)
          note t = mirrorStaged_trace [OF ms, where c = c and repo = repo]
          have "adds ?P s2 s3" "ext_inv L (mi_dst m) s3 \<longleftrightarrow> ext_inv L (mi_dst m) s2"
            using created by (auto simp: adds_def ext_inv_def)
          then have "adds ?P s s4" "ext_inv L (mi_dst m) s \<longrightarrow> ext_inv L (mi_dst m) s4"
            using a2 i2 t by (blast intro: adds_trans)+
          then have "adds ?P s s'" "ext_inv L (mi_dst m) s \<longrightarrow> ext_inv L (mi_dst m) s'"
            using out by (auto simp: adds_def ext_inv_def)
          moreover have "s_disk s' = s_disk s"
            using out t created d2 by (auto simp: fun_eq_iff)
          ultimately show ?thesis using t out by simp
        qed
      qed
    qed
  qed
qed

section \<open>Mirror is the shared traversal\<close>

definition mirror_fetch ::
  "lib \<Rightarrow> 'w env \<Rightarrow> mirrorer \<Rightarrow> descriptor \<Rightarrow> 'w st \<Rightarrow> (bytes \<times> string, 'w) result" where
  "mirror_fetch L E m d s =
     (case fetchManifest L E m (d_digest d) s of
        (Inl e, s1) \<Rightarrow> (Inl e, s1)
      | (Inr (raw, mt), s1) \<Rightarrow>
          (if digestOf L raw \<noteq> d_digest d
           then (Inl (Msg (''child manifest '' @ d_digest d @ '' served with digest '' @ digestOf L raw)), s1)
           else (Inr (raw, if mt = '''' then d_mediaType d else mt), s1)))"

lemma pushTree_child:
  "(case fetchManifest L E m (d_digest d) s of
      (Inl e, s1) \<Rightarrow> Some (Inl e, s1)
    | (Inr (raw, mt), s1) \<Rightarrow>
        (if digestOf L raw \<noteq> d_digest d
         then Some (Inl (Msg (''child manifest '' @ d_digest d @ '' served with digest '' @ digestOf L raw)), s1)
         else walk L F B P n raw (if mt = '''' then d_mediaType d else mt) (d_digest d) s1)) =
   (case mirror_fetch L E m d s of
      (Inl e, s1) \<Rightarrow> Some (Inl e, s1)
    | (Inr (raw, mt), s1) \<Rightarrow> walk L F B P n raw mt (d_digest d) s1)"
  by (simp add: mirror_fetch_def split: prod.split sum.split)

lemma pushTree_walk:
  "pushTree L E m n raw mt r s =
     walk L (mirror_fetch L E m) (mirrorBlob L E m) (putManifest L E (mi_dst m) (mi_dstRepo m)) n raw mt r s"
  by (induction n arbitrary: raw mt r s)
    (simp_all only: pushTree.simps walk.simps pushTree_child cong: sum.case_cong prod.case_cong)

lemma mirror_fetch_trace:
  assumes "mirror_fetch L E m d s = (r, s')"
  shows "adds (mirror_get m) s s' \<and> keeps s s' \<and> ext_same s s'"
  using assms
  by (auto simp: mirror_fetch_def split: prod.splits sum.splits if_splits dest: fetchManifest_trace)

lemma mirror_fetch_digest:
  "mirror_fetch L E m d s = (Inr (raw, mt), s') \<Longrightarrow> digestOf L raw = d_digest d"
  by (auto simp: mirror_fetch_def split: prod.splits sum.splits if_splits)

lemma mirror_get_ext_inv:
  assumes "adds (mirror_get m) s s'" and "ext_same s s'" and "ext_inv L c s"
  shows "ext_inv L c s'"
  by (rule ext_inv_adds [OF assms(3,1)]) (use assms(2) mirror_get_no_ext in \<open>auto simp: ext_same_def\<close>)

text \<open>
  The invariant of a run that began in \<open>s0\<close>: the files are those of the start, every request since
  is one the mirror may send, and the destination client's extension state is sound.
\<close>

definition mirror_inv :: "lib \<Rightarrow> mirrorer \<Rightarrow> 'w st \<Rightarrow> 'w st \<Rightarrow> bool" where
  "mirror_inv L m s0 s \<longleftrightarrow> s_disk s = s_disk s0 \<and> adds (mirror_event L m) s0 s
     \<and> (ext_inv L (mi_dst m) s0 \<longrightarrow> ext_inv L (mi_dst m) s)"

interpretation mirror: manifest_walk_inv L "mi_dst m" "mi_dstRepo m" "mirror_fetch L E m" "mirrorBlob L E m"
    "putManifest L E (mi_dst m) (mi_dstRepo m)" "mirror_inv L m s0"
  for L m and E :: "'w env" and s0
proof unfold_locales
  show "adds (\<lambda>e. \<not> put_event (mi_dst m) (mi_dstRepo m) e) s s'" if "mirror_fetch L E m d s = (r, s')"
    for d s s' r
    using mirror_fetch_trace [OF that] mirror_get_quiet by (blast intro: adds_mono)
  show "adds (\<lambda>e. \<not> put_event (mi_dst m) (mi_dstRepo m) e) s s'" if "mirrorBlob L E m d s = (r, s')"
    for d s s' r
    using mirrorBlob_trace [OF that, of "mi_dst m" "mi_dstRepo m"] by (auto elim: adds_mono)
  show "mirror_inv L m s0 s'" if "mirror_fetch L E m d s = (r, s')" "mirror_inv L m s0 s" for d s s' r
  proof -
    note t = mirror_fetch_trace [OF that(1)]
    have "adds (mirror_event L m) s s'" using t mirror_get_event by (blast intro: adds_mono)
    with t that(2) mirror_get_ext_inv show ?thesis
      unfolding mirror_inv_def by (metis adds_trans keeps_disk)
  qed
  show "mirror_inv L m s0 s'" if "mirrorBlob L E m d s = (r, s')" "mirror_inv L m s0 s" for d s s' r
  proof -
    note t = mirrorBlob_trace [OF that(1), of "mi_dst m" "mi_dstRepo m"]
    have "adds (mirror_event L m) s s'" by (rule adds_mono [OF conjunct1 [OF t]]) simp
    with t that(2) show ?thesis unfolding mirror_inv_def by (metis adds_trans)
  qed
  show "mirror_inv L m s0 s'"
    if "putManifest L E (mi_dst m) (mi_dstRepo m) raw mt ref s = (r, s')" "mirror_inv L m s0 s"
    for raw mt ref s s' r
  proof -
    have "adds (mirror_event L m) s s'"
      by (rule adds_mono [OF putManifest_adds [OF that(1)]]) (auto intro: mirror_event_ev)
    with that(2) putManifest_frame [OF that(1)] putManifest_ext_inv [OF that(1)] show ?thesis
      unfolding mirror_inv_def by (metis adds_trans keeps_disk)
  qed
qed (auto dest: mirror_fetch_digest mirrorBlob_trace intro: putManifest_op putManifest_accepted)

text \<open>
  A mirror that gets past its references and credentials makes two clients and fetches the root.
  It then stops with an error, having only read from the source, or walks the tree from the root's
  bytes.
\<close>

lemma mirror_cases:
  assumes "mirror L E N n i j srcRef dstRef opts s = Some (r, s')"
  obtains (early) e where "r = Inl e" "s_wire s' = s_wire s" "s_disk s' = s_disk s"
  | (fetched) e m s2 where "r = Inl e" "s_wire s2 = s_wire s" "s_disk s2 = s_disk s"
      "c_id (mi_src m) = i" "c_id (mi_dst m) = j" "mirror_inv L m s2 s'" "adds (mirror_get m) s2 s'"
  | (walked) src dst m raw mt s2 s3 where
      "parse_ref N (so_plainHTTP (mo_src opts)) srcRef = Inr src" "parse_ref N False dstRef = Inr dst"
      "mi_srcRepo m = pr_repo src" "mi_dstRepo m = pr_repo dst"
      "c_id (mi_src m) = i" "c_id (mi_dst m) = j"
      "c_base (mi_src m) = pr_scheme src @ ''://'' @ pr_host src"
      "c_base (mi_dst m) = pr_scheme dst @ ''://'' @ pr_host dst"
      "s_wire s2 = s_wire s" "s_disk s2 = s_disk s"
      "\<not> cs_usable (s_heap s2 j)" "\<not> cs_discovered (s_heap s2 j)"
      "adds (mirror_get m) s2 s3" "mirror_inv L m s2 s3"
      "pr_digest src = None \<or> pr_digest src = Some (digestOf L raw)"
      "walk L (mirror_fetch L E m) (mirrorBlob L E m) (putManifest L E (mi_dst m) (mi_dstRepo m)) n raw mt
         (pr_ident dst) s3 = Some (r, s')"
proof -
  consider (bad) e where "r = Inl e" "s_wire s' = s_wire s" "s_disk s' = s_disk s"
    | (made) src dst c1 c2 s1 s2 where
        "parse_ref N (so_plainHTTP (mo_src opts)) srcRef = Inr src" "parse_ref N False dstRef = Inr dst"
        "make_client N i src (access (mo_src opts)) s = (Inr c1, s1)"
        "make_client N j dst (mo_dst opts) s1 = (Inr c2, s2)"
    using assms
    by (auto simp: mirror_def split: sum.splits prod.splits elim!: make_client_cases)
  then show thesis
  proof cases
    case bad
    then show ?thesis by (rule early)
  next
    case made
    let ?m = "\<lparr>mi_src = c1, mi_dst = c2, mi_srcRepo = pr_repo src, mi_dstRepo = pr_repo dst,
      mi_stagingDir = o_stagingDir (mo_dst opts)\<rparr>"
    obtain h1 where h1: "s1 = s\<lparr>s_heap := (s_heap s)(i := h1)\<rparr>" "c_id c1 = i"
        "c_base c1 = pr_scheme src @ ''://'' @ pr_host src"
      using made(3) by (auto elim!: make_client_cases)
    obtain h2 where h2: "s2 = s1\<lparr>s_heap := (s_heap s1)(j := h2)\<rparr>" "c_id c2 = j"
        "c_base c2 = pr_scheme dst @ ''://'' @ pr_host dst" "\<not> cs_usable h2" "\<not> cs_discovered h2"
      using made(4) by (auto elim!: make_client_cases)
    have s2: "s_wire s2 = s_wire s" "s_disk s2 = s_disk s"
        "\<not> cs_usable (s_heap s2 j)" "\<not> cs_discovered (s_heap s2 j)"
      using h1 h2 by auto
    obtain r3 s3 where f: "fetchManifest L E ?m (pr_ident src) s2 = (r3, s3)" by fastforce
    note t = fetchManifest_trace [OF f]
    have inv: "mirror_inv L ?m s2 s3"
      using t mirror_get_ext_inv [OF conjunct1 [OF t]]
      by (auto simp: mirror_inv_def keeps_disk elim!: adds_mono intro: mirror_get_event)
    show ?thesis
    proof (cases "\<exists>raw mt. r3 = Inr (raw, mt) \<and> (pr_digest src = None \<or> pr_digest src = Some (digestOf L raw))")
      case True
      then obtain raw mt where raw: "r3 = Inr (raw, mt)"
          "pr_digest src = None \<or> pr_digest src = Some (digestOf L raw)" by blast
      have "pushTree L E ?m n raw mt (pr_ident dst) s3 = Some (r, s')"
        using assms made f raw by (auto simp: mirror_def Let_def)
      then show ?thesis
        using walked [of src dst ?m s2 s3 raw mt] made(1,2) h1 h2 s2 t inv raw(2)
        by (simp add: pushTree_walk)
    next
      case False
      have "s' = s3" "\<exists>e. r = Inl e"
        using assms made f False by (cases r3; auto simp: mirror_def Let_def split: if_splits)+
      then show ?thesis using fetched [of _ s2 ?m] s2 h1 h2 t inv by auto
    qed
  qed
qed

end
