(* ===== verification/Oci_Proxy.thy ===== *)
theory Oci_Proxy
  imports Image_Mirror "HOL-Library.AList"
begin

text \<open>
  \<open>pkg/ocipush/proxy.go\<close>: the registry frontend that stages what docker pushes and re-uploads it.

  The proxy's state is the map \<open>sessions\<close> from upload ids to sessions. A Go pointer to an
  \<open>uploadSession\<close> is a number here and \<open>px_heap\<close> the store it points into: a request looks the pointer
  up under \<open>p.mu\<close> and works on the session under \<open>session.mu\<close>, so a request may hold the pointer of a
  session that another request dropped meanwhile; \<open>uploadContinue\<close> is therefore split into the lookup
  and \<open>sessionOp\<close>, the part that runs under the session's lock. A \<open>hash.Hash\<close> is the bytes written
  to it. The sessions map is an association list; Go's iteration order over it is this list's order.
\<close>

section \<open>The grammars\<close>

definition alnum_lower :: "char \<Rightarrow> bool" where
  "alnum_lower c \<longleftrightarrow> is_lower c \<or> is_digit c"

definition name_sep :: rx where
  "name_sep = RAlt (rchar (CHR ''.'')) (RAlt (rchar (CHR ''_'')) (RAlt (rstr ''__'') (rplus (rchar (CHR ''-'')))))"

definition name_component :: rx where
  "name_component = RSeq (rplus (RCls alnum_lower)) (RStar (RSeq name_sep (rplus (RCls alnum_lower))))"

definition proxyNameRe :: rx where
  "proxyNameRe = RSeq name_component (RStar (RSeq (rchar (CHR ''/'')) name_component))"

definition tag_first :: "char \<Rightarrow> bool" where
  "tag_first c \<longleftrightarrow> is_lower c \<or> is_upper c \<or> is_digit c \<or> c = CHR ''_''"

definition tag_rest :: "char \<Rightarrow> bool" where
  "tag_rest c \<longleftrightarrow> tag_first c \<or> c = CHR ''.'' \<or> c = CHR ''-''"

definition digest_sep :: "char \<Rightarrow> bool" where
  "digest_sep c \<longleftrightarrow> c \<in> set ''.+_-''"

definition digest_enc :: "char \<Rightarrow> bool" where
  "digest_enc c \<longleftrightarrow> is_lower c \<or> is_upper c \<or> is_digit c \<or> c \<in> set ''=_-''"

definition proxyRefRe :: rx where
  "proxyRefRe =
     RAlt (RSeq (RCls tag_first) (rupto 127 (RCls tag_rest)))
          (RSeq (rplus (RCls alnum_lower))
            (RSeq (RStar (RSeq (RCls digest_sep) (rplus (RCls alnum_lower))))
              (RSeq (rchar (CHR '':'')) (rplus (RCls digest_enc)))))"

definition proxyUploadIDRe :: rx where
  "proxyUploadIDRe = rtimes 32 (RCls is_hex_lower)"

section \<open>Requests, responses, state\<close>

record http_req =
  hr_method :: string
  hr_path :: string  \<comment> \<open>\<open>URL.Path\<close>\<close>
  hr_query :: "(string \<times> string) list"
  hr_hdrs :: "(string \<times> string) list"
  hr_body :: bytes
  hr_err :: "string option"

record http_resp =
  hp_status :: nat
  hp_hdrs :: "(string \<times> string) list"
  hp_body :: bytes

record uploadSession =
  us_file :: string
  us_open :: bool  \<comment> \<open>the file descriptor has not been closed\<close>
  us_locked :: bool  \<comment> \<open>\<open>mu\<close>\<close>
  us_size :: i64
  us_hash :: bytes
  us_lastUsed :: int

record Proxy =
  px_c :: regClient
  px_prefix :: string
  px_stagingDir :: string

record 'w pst =
  px_st :: "'w st"
  px_sessions :: "(string \<times> nat) list"
  px_heap :: "nat \<rightharpoonup> uploadSession"
  px_next :: nat  \<comment> \<open>the next free pointer\<close>

type_synonym 'w handler = "'w pst \<Rightarrow> http_resp \<times> 'w pst"

abbreviation on_st :: "('w st \<Rightarrow> 'w st) \<Rightarrow> 'w pst \<Rightarrow> 'w pst" where
  "on_st f P \<equiv> P\<lparr>px_st := f (px_st P)\<rparr>"

abbreviation upd_session :: "nat \<Rightarrow> (uploadSession \<Rightarrow> uploadSession) \<Rightarrow> 'w pst \<Rightarrow> 'w pst" where
  "upd_session i f P \<equiv> P\<lparr>px_heap := (px_heap P)(i := map_option f (px_heap P i))\<rparr>"

definition sessionMaxIdle :: int where
  "sessionMaxIdle = 3600 * 1000000000"

section \<open>Answers\<close>

definition proxyError :: "lib \<Rightarrow> nat \<Rightarrow> string \<Rightarrow> string \<Rightarrow> http_resp" where
  "proxyError L status code message =
     \<lparr>hp_status = status, hp_hdrs = [(''Content-Type'', ''application/json'')],
      hp_body = marshal L (JObj [(''errors'', JArr [JObj [(''code'', JStr code), (''detail'', JNull),
        (''message'', JStr message)]])]) @ [CHR 10]\<rparr>"

definition created :: "string \<Rightarrow> string \<Rightarrow> string \<Rightarrow> http_resp" where
  "created repo kind dg =
     \<lparr>hp_status = 201,
      hp_hdrs = [(''Location'', ''/v2/'' @ repo @ ''/'' @ kind @ ''/'' @ dg),
                 (''Docker-Content-Digest'', dg)],
      hp_body = []\<rparr>"

definition upstreamError :: "lib \<Rightarrow> go_err \<Rightarrow> http_resp" where
  "upstreamError L e =
     (case as_status e of
        Some n \<Rightarrow>
          (if n = 401 \<or> n = 403 then proxyError L n ''DENIED'' (err_text e)
           else if n = 404 then proxyError L n ''NAME_UNKNOWN'' (err_text e)
           else if n = 429 then proxyError L n ''TOOMANYREQUESTS'' (err_text e)
           else proxyError L 502 ''UNKNOWN'' (''upstream: '' @ err_text e))
      | None \<Rightarrow> proxyError L 502 ''UNKNOWN'' (''upstream: '' @ err_text e))"

text \<open>The validations answer the request themselves when they fail (\<open>Inl\<close>).\<close>

definition repoOr400 :: "lib \<Rightarrow> string list \<Rightarrow> http_resp + string" where
  "repoOr400 L segments =
     (let repo = str_join segments ''/'' in
      if \<not> rmatch proxyNameRe repo then Inl (proxyError L 400 ''NAME_INVALID'' ''invalid repository name'')
      else Inr repo)"

definition pathPartOr400 :: "lib \<Rightarrow> string \<Rightarrow> rx \<Rightarrow> string \<Rightarrow> string \<Rightarrow> http_resp option" where
  "pathPartOr400 L v re code message =
     (if \<not> rmatch re v then Some (proxyError L 400 code message) else None)"

section \<open>Construction\<close>

definition newProxy ::
  "(string \<Rightarrow> string + parsed_ref) \<Rightarrow> names \<Rightarrow> nat \<Rightarrow> string \<Rightarrow> string \<Rightarrow> Options \<Rightarrow> 'w st \<Rightarrow>
   go_err + (Proxy \<times> 'w pst)" where
  "newProxy new_registry N i upstreamHost pre opts s =
     (if pre \<noteq> '''' \<and> \<not> has_suffix pre ''/''
      then Inl (Msg (''prefix must end with /: '' @ go_quote pre))
      else if pre \<noteq> '''' \<and> \<not> rmatch proxyNameRe (trim_suffix pre ''/'')
      then Inl (Msg (''prefix is not a valid repository name path: '' @ go_quote pre))
      else
       (case new_registry upstreamHost of
          Inl e \<Rightarrow> Inl (Wrap (''upstream registry '' @ upstreamHost) (Msg e))
        | Inr reg \<Rightarrow>
          (case make_client N i reg opts s of
             (Inl e, s1) \<Rightarrow> Inl e
           | (Inr c, s1) \<Rightarrow>
               Inr (\<lparr>px_c = c, px_prefix = pre, px_stagingDir = o_stagingDir opts\<rparr>,
                    \<lparr>px_st = s1, px_sessions = [], px_heap = Map.empty, px_next = 0\<rparr>))))"

definition upstreamRepo :: "Proxy \<Rightarrow> string \<Rightarrow> string" where
  "upstreamRepo p repo = px_prefix p @ repo"

section \<open>Reads and manifests\<close>

definition copy_headers :: "string list \<Rightarrow> (string \<times> string) list \<Rightarrow> (string \<times> string) list" where
  "copy_headers ks hs = map (\<lambda>h. (h, header_get hs h)) (filter (\<lambda>h. header_get hs h \<noteq> '''') ks)"

definition forward ::
  "lib \<Rightarrow> 'w env \<Rightarrow> Proxy \<Rightarrow> http_req \<Rightarrow> string \<Rightarrow> string \<Rightarrow> 'w handler" where
  "forward L E p r repo tail P =
     (let up = upstreamRepo p repo in
      case newRequest L (px_c p) (OpForward up tail) (hr_method r)
             (c_base (px_c p) @ ''/v2/'' @ up @ ''/'' @ tail) [] of
        Inl e \<Rightarrow> (proxyError L 500 ''UNKNOWN'' (err_text e), P)
      | Inr req \<Rightarrow>
          (case do_req L E (px_c p) up PullScope
                  (req\<lparr>q_hdrs := copy_headers [''Accept'', ''Range''] (hr_hdrs r)\<rparr>) (px_st P) of
             (Inl e, s1) \<Rightarrow> (upstreamError L e, P\<lparr>px_st := s1\<rparr>)
           | (Inr res, s1) \<Rightarrow>
               (\<lparr>hp_status = r_status res,
                 hp_hdrs = copy_headers [''Content-Type'', ''Content-Length'', ''Content-Range'',
                   ''Accept-Ranges'', ''Docker-Content-Digest'', ''Etag'', ''Link''] (r_hdrs res),
                 hp_body = r_body res\<rparr>, P\<lparr>px_st := s1\<rparr>)))"

definition manifestPut ::
  "lib \<Rightarrow> 'w env \<Rightarrow> Proxy \<Rightarrow> http_req \<Rightarrow> string \<Rightarrow> string \<Rightarrow> 'w handler" where
  "manifestPut L E p r repo ref P =
     (case read_limited (manifestLimit + 1) (hr_body r) (hr_err r) of
        (raw, Some e) \<Rightarrow> (proxyError L 400 ''MANIFEST_INVALID'' e, P)
      | (raw, None) \<Rightarrow>
      (if int (length raw) > manifestLimit
       then (proxyError L 413 ''MANIFEST_INVALID'' ''manifest too large'', P)
       else
       (case putManifest L E (px_c p) (upstreamRepo p repo) raw (header_get (hr_hdrs r) ''Content-Type'')
               ref (px_st P) of
          (Inl e, s1) \<Rightarrow> (upstreamError L e, P\<lparr>px_st := s1\<rparr>)
        | (Inr _, s1) \<Rightarrow> (created repo ''manifests'' (digestOf L raw), P\<lparr>px_st := s1\<rparr>))))"

section \<open>Upload sessions\<close>

text \<open>Closing and removing a session's file.\<close>

definition discard :: "nat \<Rightarrow> 'w pst \<Rightarrow> 'w pst" where
  "discard i P =
     (case px_heap P i of
        None \<Rightarrow> P
      | Some us \<Rightarrow> on_st (remove_file (us_file us)) (upd_session i (\<lambda>u. u\<lparr>us_open := False\<rparr>) P))"

text \<open>One round of the sweep: \<open>TryLock\<close> fails on a session that a request works on.\<close>

definition expireOne :: "'w env \<Rightarrow> string \<times> nat \<Rightarrow> 'w pst \<Rightarrow> 'w pst" where
  "expireOne E entry P =
     (case entry of (uid, i) \<Rightarrow>
      (case clock E (s_world (px_st P)) of (now, w) \<Rightarrow>
        let P1 = on_st (\<lambda>s. s\<lparr>s_world := w\<rparr>) P in
        (case px_heap P1 i of
           None \<Rightarrow> P1
         | Some us \<Rightarrow>
             (if now - us_lastUsed us > sessionMaxIdle \<and> \<not> us_locked us
              then (discard i P1)\<lparr>px_sessions := AList.delete uid (px_sessions P1)\<rparr>
              else P1))))"

definition expireIdleSessions :: "'w env \<Rightarrow> 'w pst \<Rightarrow> 'w pst" where
  "expireIdleSessions E P = fold (expireOne E) (px_sessions P) P"

text \<open>
  \<open>rand_read n\<close> is \<open>rand.Read\<close> for n bytes; \<open>hex_encode\<close> is \<open>hex.EncodeToString\<close>.
\<close>

definition hex_digit :: "nat \<Rightarrow> char" where
  "hex_digit n = (if n < 10 then char_of (48 + n) else char_of (87 + n))"

definition hex_encode :: "bytes \<Rightarrow> string" where
  "hex_encode b = concat (map (\<lambda>c. [hex_digit (of_char c div 16), hex_digit (of_char c mod 16)]) b)"

definition uploadStart ::
  "lib \<Rightarrow> 'w env \<Rightarrow> (nat \<Rightarrow> 'w \<Rightarrow> (string + bytes) \<times> 'w) \<Rightarrow> Proxy \<Rightarrow> http_req \<Rightarrow> string \<Rightarrow> 'w handler" where
  "uploadStart L E rand_read p r repo P =
     (let mount = header_get (hr_query r) ''mount'' in
      case (if mount \<noteq> ''''
            then (case blobExists L E (px_c p) (upstreamRepo p repo) mount PushScope (px_st P) of
                    (Inl e, s1) \<Rightarrow> (Some (upstreamError L e), s1)
                  | (Inr True, s1) \<Rightarrow> (Some (created repo ''blobs'' mount), s1)
                  | (Inr False, s1) \<Rightarrow> (None, s1))
            else (None, px_st P)) of
        (Some resp, s1) \<Rightarrow> (resp, P\<lparr>px_st := s1\<rparr>)
      | (None, s1) \<Rightarrow>
        (case stagingFile E (px_stagingDir p) ''contain-proxy-upload-*'' s1 of
          (Inl e, s2) \<Rightarrow> (proxyError L 500 ''UNKNOWN'' (err_text e), P\<lparr>px_st := s2\<rparr>)
        | (Inr file, s2) \<Rightarrow>
        (case rand_read 16 (s_world s2) of
          (Inl e, w3) \<Rightarrow> (proxyError L 500 ''UNKNOWN'' e, P\<lparr>px_st := s2\<lparr>s_world := w3\<rparr>\<rparr>)
        | (Inr idBytes, w3) \<Rightarrow>
          let uid = hex_encode idBytes in
          (case clock E w3 of (now, w4) \<Rightarrow>
            let session = \<lparr>us_file = file, us_open = True, us_locked = False, us_size = 0, us_hash = [],
                           us_lastUsed = now\<rparr>;
                i = px_next P;
                P1 = P\<lparr>px_st := s2\<lparr>s_world := w4\<rparr>, px_heap := (px_heap P)(i \<mapsto> session),
                       px_next := Suc i\<rparr>;
                P2 = expireIdleSessions E P1
            in (\<lparr>hp_status = 202,
                 hp_hdrs = [(''Location'', ''/v2/'' @ repo @ ''/blobs/uploads/'' @ uid),
                            (''Docker-Upload-Uuid'', uid), (''Range'', ''0-0'')],
                 hp_body = []\<rparr>,
                P2\<lparr>px_sessions := AList.update uid i (px_sessions P2)\<rparr>)))))"

text \<open>
  \<open>io.Copy(io.MultiWriter(session.file, session.hash), r.Body)\<close>. A write to a closed file fails; an
  empty body makes no write. After an error the caller drops the session, so what was written
  before the error is never read.
\<close>

definition session_copy :: "'w env \<Rightarrow> nat \<Rightarrow> http_req \<Rightarrow> 'w pst \<Rightarrow> (string + i64) \<times> 'w pst" where
  "session_copy E i r P =
     (case px_heap P i of
        None \<Rightarrow> (Inl ''invalid session'', P)
      | Some us \<Rightarrow>
          (if hr_body r \<noteq> [] \<and> \<not> us_open us then (Inl ''file already closed'', P)
           else
            (case (if hr_body r = [] then None else write_err E (us_file us) (hr_body r) (s_world (px_st P))) of
               Some e \<Rightarrow> (Inl e, P)
             | None \<Rightarrow>
                 let P1 =
                   (if hr_body r = [] then P
                    else on_st (\<lambda>s. s\<lparr>s_disk := (s_disk s)(us_file us := map_option (\<lambda>b. b @ hr_body r)
                           (s_disk s (us_file us)))\<rparr>)
                         (upd_session i (\<lambda>u. u\<lparr>us_hash := us_hash u @ hr_body r\<rparr>) P))
                 in (case hr_err r of
                       Some e \<Rightarrow> (Inl e, P1)
                     | None \<Rightarrow> (Inr (of_nat (length (hr_body r))), P1)))))"

definition drop_session :: "string \<Rightarrow> nat \<Rightarrow> 'w pst \<Rightarrow> 'w pst" where
  "drop_session uid i P =
     (let P1 = discard i P in P1\<lparr>px_sessions := AList.delete uid (px_sessions P1)\<rparr>)"

text \<open>\<open>file.Close\<close>: an error if the file is closed already or the operating system reports one.\<close>

definition session_close :: "'w env \<Rightarrow> nat \<Rightarrow> 'w pst \<Rightarrow> string option \<times> 'w pst" where
  "session_close E i P =
     (case px_heap P i of
        None \<Rightarrow> (Some ''invalid session'', P)
      | Some us \<Rightarrow>
          (if \<not> us_open us then (Some ''file already closed'', P)
           else (close_err E (us_file us) (s_world (px_st P)),
                 upd_session i (\<lambda>u. u\<lparr>us_open := False\<rparr>) P)))"

definition upload_headers :: "string \<Rightarrow> string \<Rightarrow> i64 \<Rightarrow> (string \<times> string) list" where
  "upload_headers repo uid sz =
     [(''Location'', ''/v2/'' @ repo @ ''/blobs/uploads/'' @ uid), (''Docker-Upload-Uuid'', uid),
      (''Range'', ''0-'' @ itoa (sint (sz - 1)))]"

definition sessionPatch ::
  "lib \<Rightarrow> 'w env \<Rightarrow> http_req \<Rightarrow> string \<Rightarrow> string \<Rightarrow> nat \<Rightarrow> uploadSession \<Rightarrow> 'w handler" where
  "sessionPatch L E r repo uid i us P =
     (let cr = header_get (hr_hdrs r) ''Content-Range'' in
      if cr \<noteq> '''' \<and> \<not> has_prefix cr (itoa (sint (us_size us)) @ ''-'')
      then (proxyError L 416 ''BLOB_UPLOAD_INVALID'' ''out of order chunk'', P)
      else
       (case session_copy E i r P of
          (Inl e, P1) \<Rightarrow> (proxyError L 400 ''BLOB_UPLOAD_INVALID'' e, drop_session uid i P1)
        | (Inr written, P1) \<Rightarrow>
            (\<lparr>hp_status = 202, hp_hdrs = upload_headers repo uid (us_size us + written), hp_body = []\<rparr>,
             upd_session i (\<lambda>u. u\<lparr>us_size := us_size us + written\<rparr>) P1)))"

definition sessionPut ::
  "lib \<Rightarrow> 'w env \<Rightarrow> Proxy \<Rightarrow> http_req \<Rightarrow> string \<Rightarrow> string \<Rightarrow> nat \<Rightarrow> uploadSession \<Rightarrow> 'w handler" where
  "sessionPut L E p r repo uid i us P =
     (let dg = header_get (hr_query r) ''digest'' in
      case session_copy E i r P of
        (Inl e, P1) \<Rightarrow> (proxyError L 400 ''BLOB_UPLOAD_INVALID'' e, drop_session uid i P1)
      | (Inr written, P1) \<Rightarrow>
        let sz = us_size us + written;
            P2 = upd_session i (\<lambda>u. u\<lparr>us_size := sz\<rparr>) P1;
            actual = digestOfHash L (us_hash us @ hr_body r) in
        if \<not> equal_fold dg actual
        then (proxyError L 400 ''DIGEST_INVALID'' (''received '' @ actual @ '', client declared '' @ dg),
              drop_session uid i P2)
        else
         (case session_close E i P2 of
            (Some e, P3) \<Rightarrow> (proxyError L 500 ''UNKNOWN'' e, drop_session uid i P3)
          | (None, P3) \<Rightarrow>
              (case pushBlobFile L E (px_c p) (upstreamRepo p repo)
                      \<lparr>d_mediaType = '''', d_digest = dg, d_size = sz\<rparr> (us_file us) (px_st P3) of
                 (res, s4) \<Rightarrow>
                   let P5 = drop_session uid i (P3\<lparr>px_st := s4\<rparr>) in
                   (case res of
                      Inl e \<Rightarrow> (upstreamError L e, P5)
                    | Inr _ \<Rightarrow> (created repo ''blobs'' dg, P5)))))"

definition sessionMethod ::
  "lib \<Rightarrow> 'w env \<Rightarrow> Proxy \<Rightarrow> http_req \<Rightarrow> string \<Rightarrow> string \<Rightarrow> nat \<Rightarrow> uploadSession \<Rightarrow> 'w handler" where
  "sessionMethod L E p r repo uid i us P =
     (if hr_method r = ''PATCH'' then sessionPatch L E r repo uid i us P
      else if hr_method r = ''PUT'' then sessionPut L E p r repo uid i us P
      else if hr_method r = ''GET'' then
        (\<lparr>hp_status = 204,
          hp_hdrs = [(''Docker-Upload-Uuid'', uid), (''Range'', ''0-'' @ itoa (max (sint (us_size us - 1)) 0))],
          hp_body = []\<rparr>, P)
      else if hr_method r = ''DELETE'' then
        (\<lparr>hp_status = 204, hp_hdrs = [], hp_body = []\<rparr>, drop_session uid i P)
      else (proxyError L 405 ''UNSUPPORTED'' ''method not allowed'', P))"

text \<open>
  The part of \<open>uploadContinue\<close> under the session's lock: \<open>lastUsed\<close> is set, the method handled, and the
  deferred calls run in reverse order, the sweep first and then the unlock.
\<close>

definition sessionOp ::
  "lib \<Rightarrow> 'w env \<Rightarrow> Proxy \<Rightarrow> http_req \<Rightarrow> string \<Rightarrow> string \<Rightarrow> nat \<Rightarrow> 'w handler" where
  "sessionOp L E p r repo uid i P =
     (case clock E (s_world (px_st P)) of (now, w) \<Rightarrow>
        let P1 = upd_session i (\<lambda>u. u\<lparr>us_locked := True, us_lastUsed := now\<rparr>)
                   (on_st (\<lambda>s. s\<lparr>s_world := w\<rparr>) P) in
        (case px_heap P1 i of
           None \<Rightarrow> (proxyError L 404 ''BLOB_UPLOAD_UNKNOWN'' ''unknown upload session'', P1)
         | Some us \<Rightarrow>
             (case sessionMethod L E p r repo uid i us P1 of
                (resp, P2) \<Rightarrow>
                  (resp, upd_session i (\<lambda>u. u\<lparr>us_locked := False\<rparr>) (expireIdleSessions E P2)))))"

definition uploadContinue ::
  "lib \<Rightarrow> 'w env \<Rightarrow> Proxy \<Rightarrow> http_req \<Rightarrow> string \<Rightarrow> string \<Rightarrow> 'w handler" where
  "uploadContinue L E p r repo uid P =
     (case map_of (px_sessions P) uid of
        None \<Rightarrow> (proxyError L 404 ''BLOB_UPLOAD_UNKNOWN'' ''unknown upload session'', P)
      | Some i \<Rightarrow> sessionOp L E p r repo uid i P)"

section \<open>Routing\<close>

text \<open>\<open>rest ! (n - 2)\<close> and the like are the code's indices; the guards make them valid.\<close>

definition serveHTTP ::
  "lib \<Rightarrow> 'w env \<Rightarrow> (nat \<Rightarrow> 'w \<Rightarrow> (string + bytes) \<times> 'w) \<Rightarrow> Proxy \<Rightarrow> http_req \<Rightarrow> 'w handler" where
  "serveHTTP L E rand_read p r P =
     (let segments = fields_func (\<lambda>c. c = CHR ''/'') (hr_path r) in
      if segments = [] \<or> hd segments \<noteq> ''v2''
      then (proxyError L 404 ''UNSUPPORTED'' ''not found'', P)
      else
       let rest = tl segments; n = length rest in
       if n = 0 then
         (\<lparr>hp_status = 200,
           hp_hdrs = [(''Docker-Distribution-Api-Version'', ''registry/2.0''),
                      (''Content-Type'', ''application/json'')],
           hp_body = ''{}''\<rparr>, P)
       else if n \<ge> 3 \<and> rest ! (n - 2) = ''manifests'' then
         (case repoOr400 L (take (n - 2) rest) of
            Inl resp \<Rightarrow> (resp, P)
          | Inr repo \<Rightarrow>
              let ref = rest ! (n - 1) in
              (case pathPartOr400 L ref proxyRefRe ''MANIFEST_INVALID'' ''invalid manifest reference'' of
                 Some resp \<Rightarrow> (resp, P)
               | None \<Rightarrow>
                   (if hr_method r = ''GET'' \<or> hr_method r = ''HEAD''
                    then forward L E p r repo (''manifests/'' @ ref) P
                    else if hr_method r = ''PUT'' then manifestPut L E p r repo ref P
                    else (proxyError L 405 ''UNSUPPORTED'' ''method not allowed'', P))))
       else if n \<ge> 3 \<and> rest ! (n - 2) = ''blobs'' \<and> rest ! (n - 1) = ''uploads'' then
         (case repoOr400 L (take (n - 2) rest) of
            Inl resp \<Rightarrow> (resp, P)
          | Inr repo \<Rightarrow>
              (if hr_method r \<noteq> ''POST''
               then (proxyError L 405 ''UNSUPPORTED'' ''method not allowed'', P)
               else uploadStart L E rand_read p r repo P))
       else if n \<ge> 4 \<and> rest ! (n - 3) = ''blobs'' \<and> rest ! (n - 2) = ''uploads'' then
         (case repoOr400 L (take (n - 3) rest) of
            Inl resp \<Rightarrow> (resp, P)
          | Inr repo \<Rightarrow>
              let uid = rest ! (n - 1) in
              (case pathPartOr400 L uid proxyUploadIDRe ''BLOB_UPLOAD_INVALID'' ''invalid upload id'' of
                 Some resp \<Rightarrow> (resp, P)
               | None \<Rightarrow> uploadContinue L E p r repo uid P))
       else if n \<ge> 3 \<and> rest ! (n - 2) = ''blobs'' then
         (case repoOr400 L (take (n - 2) rest) of
            Inl resp \<Rightarrow> (resp, P)
          | Inr repo \<Rightarrow>
              let dg = rest ! (n - 1) in
              (case pathPartOr400 L dg proxyRefRe ''DIGEST_INVALID'' ''invalid digest'' of
                 Some resp \<Rightarrow> (resp, P)
               | None \<Rightarrow>
                   (if hr_method r \<noteq> ''GET'' \<and> hr_method r \<noteq> ''HEAD''
                    then (proxyError L 405 ''UNSUPPORTED'' ''method not allowed'', P)
                    else forward L E p r repo (''blobs/'' @ dg) P)))
       else if n \<ge> 3 \<and> rest ! (n - 2) = ''tags'' \<and> rest ! (n - 1) = ''list'' then
         (case repoOr400 L (take (n - 2) rest) of
            Inl resp \<Rightarrow> (resp, P)
          | Inr repo \<Rightarrow> forward L E p r repo ''tags/list'' P)
       else (proxyError L 404 ''UNSUPPORTED'' ''not found'', P))"

section \<open>The sessions' invariant\<close>

text \<open>
  \<open>sessions_inv X P\<close>, where \<open>X\<close> is the set of sessions that a request is working on (holding their
  lock): the file of an open session holds exactly the bytes that were hashed and, between requests,
  as many as the size says; no session shares its file with an open one; the map has one entry per
  id and per session, and its sessions are open.
\<close>

definition sessions_inv :: "nat set \<Rightarrow> 'w pst \<Rightarrow> bool" where
  "sessions_inv X P \<longleftrightarrow>
     (\<forall>i u. px_heap P i = Some u \<longrightarrow>
        i < px_next P \<and> (us_locked u \<longleftrightarrow> i \<in> X)
        \<and> (us_open u \<longrightarrow> s_disk (px_st P) (us_file u) = Some (us_hash u)
             \<and> (i \<notin> X \<longrightarrow> us_size u = of_nat (length (us_hash u))))
        \<and> (\<forall>j v. px_heap P j = Some v \<longrightarrow> us_open u \<longrightarrow> i \<noteq> j \<longrightarrow> us_file u \<noteq> us_file v))
     \<and> distinct (map fst (px_sessions P))
     \<and> (\<forall>a b i. (a, i) \<in> set (px_sessions P) \<longrightarrow> (b, i) \<in> set (px_sessions P) \<longrightarrow> a = b)
     \<and> (\<forall>a i. (a, i) \<in> set (px_sessions P) \<longrightarrow>
          (\<exists>u. px_heap P i = Some u \<and> (i \<notin> X \<longrightarrow> us_open u)))"

text \<open>\<open>owns P uid i\<close>: the session \<open>i\<close> is known under no other id.\<close>

definition owns :: "'w pst \<Rightarrow> string \<Rightarrow> nat \<Rightarrow> bool" where
  "owns P uid i \<longleftrightarrow> (\<forall>v. (v, i) \<in> set (px_sessions P) \<longrightarrow> v = uid)"

lemma sessions_inv_same:
  assumes "sessions_inv X P" and "px_heap P' = px_heap P" and "px_sessions P' = px_sessions P"
    and "px_next P' = px_next P" and "s_disk (px_st P') = s_disk (px_st P)"
  shows "sessions_inv X P'"
  using assms by (simp add: sessions_inv_def)

lemma owns_lookup: "sessions_inv X P \<Longrightarrow> map_of (px_sessions P) uid = Some i \<Longrightarrow> owns P uid i"
  unfolding sessions_inv_def owns_def by (blast dest: map_of_SomeD)

lemma sessions_inv_mapped:
  "sessions_inv X P \<Longrightarrow> map_of (px_sessions P) uid = Some i \<Longrightarrow> \<exists>u. px_heap P i = Some u"
  unfolding sessions_inv_def by (blast dest: map_of_SomeD)

lemma discard_simps [simp]:
  "px_sessions (discard i P) = px_sessions P"
  "px_next (discard i P) = px_next P"
  "s_wire (px_st (discard i P)) = s_wire (px_st P)"
  "s_heap (px_st (discard i P)) = s_heap (px_st P)"
  by (simp_all add: discard_def split: option.split)

lemma drop_session_simps [simp]:
  "px_next (drop_session uid i P) = px_next P"
  "s_wire (px_st (drop_session uid i P)) = s_wire (px_st P)"
  "s_heap (px_st (drop_session uid i P)) = s_heap (px_st P)"
  "px_heap (drop_session uid i P) = px_heap (discard i P)"
  "px_sessions (drop_session uid i P) = AList.delete uid (px_sessions P)"
  by (simp_all add: drop_session_def Let_def)

lemma discard_heap: "px_heap (discard i P) j =
    (if j = i then map_option (\<lambda>u. u\<lparr>us_open := False\<rparr>) (px_heap P i) else px_heap P j)"
  by (simp add: discard_def split: option.split)

lemma discard_disk: "px_heap P i = Some u \<Longrightarrow>
    s_disk (px_st (discard i P)) = (s_disk (px_st P))(us_file u := None)"
  by (simp add: discard_def)

lemma set_delete: "set (AList.delete k xs) = {e \<in> set xs. fst e \<noteq> k}"
  by (auto simp: AList.delete_eq)

lemma distinct_delete: "distinct (map fst xs) \<Longrightarrow> distinct (map fst (AList.delete k xs))"
  by (simp add: AList.distinct_delete)

lemma sessions_inv_drop:
  assumes "sessions_inv X P" and "owns P uid i" and "px_heap P i \<noteq> None"
  shows "sessions_inv X (drop_session uid i P)"
proof -
  obtain u where u: "px_heap P i = Some u" using assms(3) by blast
  show ?thesis
    using assms(1,2) u discard_disk [OF u]
    unfolding sessions_inv_def owns_def
    by (auto simp: discard_heap set_delete distinct_delete drop_session_def Let_def)
qed

lemma expireOne_sessions: "set (px_sessions (expireOne E x P)) \<subseteq> set (px_sessions P)"
  by (auto simp: expireOne_def Let_def set_delete split: prod.splits option.splits)

lemma sessions_inv_world: "sessions_inv X (on_st (\<lambda>s. s\<lparr>s_world := w\<rparr>) P) = sessions_inv X P"
  by (simp add: sessions_inv_def)

lemma expireOne_inv:
  assumes "sessions_inv X P" and "owns P uid i"
  shows "sessions_inv X (expireOne E (uid, i) P)"
proof -
  obtain now w where clock: "clock E (s_world (px_st P)) = (now, w)" by fastforce
  let ?P = "on_st (\<lambda>s. s\<lparr>s_world := w\<rparr>) P"
  have inv: "sessions_inv X ?P" "owns ?P uid i"
    using assms by (simp_all add: sessions_inv_def owns_def)
  have "expireOne E (uid, i) P = ?P \<or> (px_heap ?P i \<noteq> None \<and> expireOne E (uid, i) P = drop_session uid i ?P)"
    by (auto simp: expireOne_def clock drop_session_def Let_def split: option.split)
  with inv sessions_inv_drop show ?thesis by metis
qed

lemma expireIdleSessions_inv:
  assumes "sessions_inv X P"
  shows "sessions_inv X (expireIdleSessions E P)"
proof -
  have "sessions_inv X (fold (expireOne E) xs Q)"
    if "sessions_inv X Q" "\<forall>(a, i) \<in> set xs. owns Q a i" for xs Q
    using that
  proof (induction xs arbitrary: Q)
    case (Cons x xs)
    obtain a i where x: "x = (a, i)" by fastforce
    have "sessions_inv X (expireOne E x Q)" using expireOne_inv Cons.prems x by auto
    moreover have "\<forall>(a, i) \<in> set xs. owns (expireOne E x Q) a i"
      using Cons.prems(2) expireOne_sessions [of E x Q] unfolding owns_def by fastforce
    ultimately show ?case using Cons.IH by simp
  qed simp
  moreover have "\<forall>(a, i) \<in> set (px_sessions P). owns P a i"
    using assms by (auto simp: sessions_inv_def owns_def)
  ultimately show ?thesis using assms by (simp add: expireIdleSessions_def)
qed

lemma expireIdleSessions_sessions:
  "set (px_sessions (expireIdleSessions E P)) \<subseteq> set (px_sessions P)"
proof -
  have "set (px_sessions (fold (expireOne E) xs Q)) \<subseteq> set (px_sessions Q)" for xs Q
    by (induction xs arbitrary: Q) (use expireOne_sessions in fastforce)+
  then show ?thesis by (simp add: expireIdleSessions_def)
qed

lemma expireOne_frame:
  "px_next (expireOne E x P) = px_next P \<and> s_wire (px_st (expireOne E x P)) = s_wire (px_st P)
   \<and> s_heap (px_st (expireOne E x P)) = s_heap (px_st P)
   \<and> (\<forall>j. px_heap (expireOne E x P) j = None \<longleftrightarrow> px_heap P j = None)"
  by (auto simp: expireOne_def Let_def discard_heap split: prod.splits option.splits)

lemma expireIdleSessions_frame:
  "px_next (expireIdleSessions E P) = px_next P
   \<and> s_wire (px_st (expireIdleSessions E P)) = s_wire (px_st P)
   \<and> s_heap (px_st (expireIdleSessions E P)) = s_heap (px_st P)
   \<and> (\<forall>j. px_heap (expireIdleSessions E P) j = None \<longleftrightarrow> px_heap P j = None)"
proof -
  have "px_next (fold (expireOne E) xs Q) = px_next Q \<and> s_wire (px_st (fold (expireOne E) xs Q)) = s_wire (px_st Q)
   \<and> s_heap (px_st (fold (expireOne E) xs Q)) = s_heap (px_st Q)
   \<and> (\<forall>j. px_heap (fold (expireOne E) xs Q) j = None \<longleftrightarrow> px_heap Q j = None)" for xs Q
  proof (induction xs arbitrary: Q)
    case (Cons x xs)
    then show ?case using expireOne_frame [of E x Q] by simp
  qed simp
  then show ?thesis by (simp add: expireIdleSessions_def)
qed

section \<open>Operations on one session keep the invariant\<close>

text \<open>A session is settled when its lock may be released.\<close>

definition settled :: "nat \<Rightarrow> 'w pst \<Rightarrow> bool" where
  "settled i P \<longleftrightarrow> (\<forall>u. px_heap P i = Some u \<longrightarrow>
     (us_open u \<longrightarrow> us_size u = of_nat (length (us_hash u)))
     \<and> (\<forall>a. (a, i) \<in> set (px_sessions P) \<longrightarrow> us_open u))"

lemma sessions_inv_settled: "sessions_inv {} P \<Longrightarrow> settled i P"
  unfolding sessions_inv_def settled_def by fastforce

lemma sessions_inv_lock:
  assumes "sessions_inv {} P" and "px_heap P i = Some u"
  shows "sessions_inv {i} (upd_session i (\<lambda>u. u\<lparr>us_locked := True, us_lastUsed := t\<rparr>) P)"
  using assms unfolding sessions_inv_def by (auto split: if_splits)

lemma sessions_inv_absent:
  assumes "sessions_inv {i} P" and "px_heap P i = None"
  shows "sessions_inv {} P"
proof -
  note inv = assms(1) [unfolded sessions_inv_def]
  have ptr: "j < px_next P \<and> (us_locked u \<longleftrightarrow> j \<in> {})
        \<and> (us_open u \<longrightarrow> s_disk (px_st P) (us_file u) = Some (us_hash u)
             \<and> (j \<notin> {} \<longrightarrow> us_size u = of_nat (length (us_hash u))))
        \<and> (\<forall>k v. px_heap P k = Some v \<longrightarrow> us_open u \<longrightarrow> j \<noteq> k \<longrightarrow> us_file u \<noteq> us_file v)"
    if "px_heap P j = Some u" for j u
  proof -
    have "j \<noteq> i" using that assms(2) by auto
    with conjunct1 [OF inv, rule_format, OF that] show ?thesis by simp
  qed
  have ent: "\<exists>u. px_heap P j = Some u \<and> (j \<notin> {} \<longrightarrow> us_open u)" if "(a, j) \<in> set (px_sessions P)" for a j
    using conjunct2 [OF conjunct2 [OF conjunct2 [OF inv]], rule_format, OF that] assms(2) by auto
  show ?thesis
    unfolding sessions_inv_def using ptr ent conjunct1 [OF conjunct2 [OF inv]]
      conjunct1 [OF conjunct2 [OF conjunct2 [OF inv]]] by blast
qed

lemma sessions_inv_unlock:
  assumes "sessions_inv {i} P" and "settled i P" and "px_heap P i \<noteq> None"
  shows "sessions_inv {} (upd_session i (\<lambda>u. u\<lparr>us_locked := False\<rparr>) P)"
  using assms unfolding sessions_inv_def settled_def by (auto split: if_splits) blast+

lemma settled_drop:
  assumes "owns P uid i"
  shows "settled i (drop_session uid i P)"
  using assms by (auto simp: settled_def owns_def discard_heap set_delete)

lemma session_copy_cases:
  assumes "session_copy E i r P = (res, P')" and "px_heap P i = Some us"
  obtains (failed) e where "res = Inl e" "P' = P"
  | (empty) "hr_body r = []" "P' = P" "res = (case hr_err r of None \<Rightarrow> Inr 0 | Some e \<Rightarrow> Inl e)"
  | (written) "us_open us"
      "P' = on_st (\<lambda>s. s\<lparr>s_disk := (s_disk s)(us_file us := map_option (\<lambda>b. b @ hr_body r)
                           (s_disk s (us_file us)))\<rparr>)
              (upd_session i (\<lambda>u. u\<lparr>us_hash := us_hash u @ hr_body r\<rparr>) P)"
      "res = (case hr_err r of None \<Rightarrow> Inr (of_nat (length (hr_body r))) | Some e \<Rightarrow> Inl e)"
  using assms that
  by (auto simp: session_copy_def Let_def split: if_splits option.splits)

lemma session_copy_inv:
  assumes "session_copy E i r P = (res, P')" and "px_heap P i = Some us"
    and "sessions_inv X P" and "i \<in> X"
  shows "sessions_inv X P' \<and> px_sessions P' = px_sessions P
    \<and> (\<exists>us'. px_heap P' i = Some us' \<and> us_file us' = us_file us \<and> us_size us' = us_size us
         \<and> us_open us' = us_open us
         \<and> (\<forall>n. res = Inr n \<longrightarrow> n = of_nat (length (hr_body r)) \<and> us_hash us' = us_hash us @ hr_body r))"
  using assms(1,2)
proof (cases rule: session_copy_cases)
  case (failed e)
  with assms show ?thesis by simp
next
  case empty
  with assms show ?thesis by (auto split: option.splits)
next
  case written
  have "sessions_inv X P'"
    using assms(2-4) written unfolding sessions_inv_def
    by (auto split: if_splits)
  with assms(2) written show ?thesis by (auto split: option.splits)
qed

lemma sessions_inv_size:
  assumes "sessions_inv X P" and "i \<in> X" and "px_heap P i = Some u"
  shows "sessions_inv X (upd_session i (\<lambda>u. u\<lparr>us_size := n\<rparr>) P)"
  using assms unfolding sessions_inv_def by (auto split: if_splits)

lemma session_close_inv:
  assumes "session_close E i P = (e, P')" and "sessions_inv X P" and "i \<in> X"
  shows "sessions_inv X P' \<and> px_sessions P' = px_sessions P
    \<and> (\<forall>us. px_heap P i = Some us \<longrightarrow> px_heap P' i = Some (us\<lparr>us_open := False\<rparr>)
          \<and> (e = None \<longrightarrow> us_open us)) \<and> px_st P' = px_st P"
proof (cases "px_heap P i")
  case None
  with assms show ?thesis by (simp add: session_close_def)
next
  case (Some u)
  with assms show ?thesis
    unfolding sessions_inv_def session_close_def by (auto split: if_splits)
qed

lemma sessionPatch_inv:
  assumes "sessionPatch L E r repo uid i us P = (resp, P')" and "px_heap P i = Some us"
    and "sessions_inv {i} P" and "settled i P" and "owns P uid i"
  shows "sessions_inv {i} P' \<and> settled i P'"
proof (cases "P' = P")
  case True
  with assms show ?thesis by simp
next
  case False
  obtain res P1 where copy: "session_copy E i r P = (res, P1)" by fastforce
  note c = session_copy_inv [OF copy assms(2,3) singletonI]
  then obtain us' where us': "px_heap P1 i = Some us'" "us_file us' = us_file us" "us_size us' = us_size us"
      "us_open us' = us_open us"
      "\<And>n. res = Inr n \<Longrightarrow> n = of_nat (length (hr_body r)) \<and> us_hash us' = us_hash us @ hr_body r"
    by blast
  have own: "owns P1 uid i" using assms(5) c by (simp add: owns_def)
  show ?thesis
  proof (cases res)
    case (Inl e)
    with False assms(1) copy have "P' = drop_session uid i P1"
      by (auto simp: sessionPatch_def Let_def split: if_splits)
    with c own us'(1) show ?thesis by (auto intro: sessions_inv_drop settled_drop)
  next
    case (Inr n)
    with False assms(1) copy
    have P': "P' = upd_session i (\<lambda>u. u\<lparr>us_size := us_size us + n\<rparr>) P1"
      by (auto simp: sessionPatch_def Let_def split: if_splits)
    have "settled i P'"
      using us' us'(5) [OF Inr] assms(2,4) c by (auto simp: settled_def P')
    with P' c sessions_inv_size show ?thesis by blast
  qed
qed

lemma sessionPut_inv:
  assumes "sessionPut L E p r repo uid i us P = (resp, P')" and "px_heap P i = Some us"
    and "sessions_inv {i} P" and "owns P uid i"
  shows "sessions_inv {i} P' \<and> settled i P'"
proof -
  have dropped: "sessions_inv {i} (drop_session uid i Q) \<and> settled i (drop_session uid i Q)"
    if "sessions_inv {i} Q" "px_sessions Q = px_sessions P" "px_heap Q i \<noteq> None" for Q :: "'a pst"
  proof -
    have "owns Q uid i" using assms(4) that(2) by (simp add: owns_def)
    with that show ?thesis by (simp add: sessions_inv_drop settled_drop)
  qed
  obtain res P1 where copy: "session_copy E i r P = (res, P1)" by fastforce
  note c = session_copy_inv [OF copy assms(2,3) singletonI]
  show ?thesis
  proof (cases res)
    case (Inl e)
    with assms(1) copy have "P' = drop_session uid i P1" by (auto simp: sessionPut_def Let_def)
    with dropped [of P1] c show ?thesis by auto
  next
    case (Inr n)
    let ?P2 = "upd_session i (\<lambda>u. u\<lparr>us_size := us_size us + n\<rparr>) P1"
    have P2: "sessions_inv {i} ?P2" "px_sessions ?P2 = px_sessions P" "px_heap ?P2 i \<noteq> None"
      using c sessions_inv_size [of "{i}" P1 i] by auto
    obtain e P3 where cl: "session_close E i ?P2 = (e, P3)" by fastforce
    note d = session_close_inv [OF cl P2(1) singletonI]
    have P3: "sessions_inv {i} P3" "px_sessions P3 = px_sessions P" "px_heap P3 i \<noteq> None"
      using d P2 by auto
    obtain r4 s4 where push: "pushBlobFile L E (px_c p) (upstreamRepo p repo)
        \<lparr>d_mediaType = '''', d_digest = header_get (hr_query r) ''digest'', d_size = us_size us + n\<rparr>
        (us_file us) (px_st P3) = (r4, s4)" by fastforce
    have "s_disk s4 = s_disk (px_st P3)" using pushBlobFile_trace [OF push] by (simp add: keeps_disk)
    then have P4: "sessions_inv {i} (P3\<lparr>px_st := s4\<rparr>)" by (intro sessions_inv_same [OF P3(1)]) simp_all
    have "P' \<in> {drop_session uid i ?P2, drop_session uid i P3, drop_session uid i (P3\<lparr>px_st := s4\<rparr>)}"
      using assms(1) copy Inr cl push
      by (cases e; cases r4) (auto simp: sessionPut_def Let_def split: if_splits)
    with dropped [OF P2] dropped [OF P3] dropped [OF P4] P3 show ?thesis by auto
  qed
qed

lemma sessionMethod_inv:
  assumes "sessionMethod L E p r repo uid i us P = (resp, P')" and "px_heap P i = Some us"
    and "sessions_inv {i} P" and "settled i P" and "owns P uid i"
  shows "sessions_inv {i} P' \<and> settled i P'"
  using assms sessions_inv_drop [OF assms(3,5)] settled_drop [OF assms(5)]
    sessionPatch_inv [OF _ assms(2-5)] sessionPut_inv [OF _ assms(2,3,5)]
  by (auto simp: sessionMethod_def split: if_splits)

text \<open>The sweep changes only idle sessions that are in the map and unlocked, and closes those.\<close>

lemma expireOne_heap:
  "px_heap (expireOne E x P) j = px_heap P j
   \<or> (j = snd x \<and> (\<exists>u now w. px_heap P j = Some u \<and> \<not> us_locked u
        \<and> clock E (s_world (px_st P)) = (now, w) \<and> now - us_lastUsed u > sessionMaxIdle
        \<and> px_heap (expireOne E x P) j = Some (u\<lparr>us_open := False\<rparr>)))"
  by (auto simp: expireOne_def Let_def discard_heap split: prod.splits option.splits)

lemma expireIdleSessions_untouched:
  assumes "(\<forall>x \<in> set (px_sessions P). snd x \<noteq> i) \<or> (\<exists>u. px_heap P i = Some u \<and> us_locked u)"
  shows "px_heap (expireIdleSessions E P) i = px_heap P i"
proof -
  have "px_heap (fold (expireOne E) xs Q) i = px_heap Q i"
    if "(\<forall>x \<in> set xs. snd x \<noteq> i) \<or> (\<exists>u. px_heap Q i = Some u \<and> us_locked u)" for xs Q
    using that
  proof (induction xs arbitrary: Q)
    case (Cons x xs)
    have "px_heap (expireOne E x Q) i = px_heap Q i"
      using expireOne_heap [of E x Q i] Cons.prems by auto
    moreover from this have "(\<forall>x \<in> set xs. snd x \<noteq> i)
        \<or> (\<exists>u. px_heap (expireOne E x Q) i = Some u \<and> us_locked u)"
      using Cons.prems by auto
    ultimately show ?case using Cons.IH by simp
  qed simp
  with assms show ?thesis by (simp add: expireIdleSessions_def)
qed

lemma expireIdleSessions_heap:
  "\<exists>b. px_heap (expireIdleSessions E P) j = map_option (\<lambda>u. u\<lparr>us_open := us_open u \<and> b\<rparr>) (px_heap P j)"
proof -
  have "\<exists>b. px_heap (fold (expireOne E) xs Q) j = map_option (\<lambda>u. u\<lparr>us_open := us_open u \<and> b\<rparr>) (px_heap Q j)"
    for xs Q
  proof (induction xs arbitrary: Q)
    case Nil
    show ?case by (rule exI [of _ True]) (cases "px_heap Q j"; simp)
  next
    case (Cons x xs)
    obtain b where b: "px_heap (fold (expireOne E) xs (expireOne E x Q)) j
        = map_option (\<lambda>u. u\<lparr>us_open := us_open u \<and> b\<rparr>) (px_heap (expireOne E x Q) j)"
      using Cons.IH by blast
    from expireOne_heap [of E x Q j] show ?case
    proof
      assume "px_heap (expireOne E x Q) j = px_heap Q j"
      with b show ?thesis by auto
    next
      assume "j = snd x \<and> (\<exists>u now w. px_heap Q j = Some u \<and> \<not> us_locked u
        \<and> clock E (s_world (px_st Q)) = (now, w) \<and> now - us_lastUsed u > sessionMaxIdle
        \<and> px_heap (expireOne E x Q) j = Some (u\<lparr>us_open := False\<rparr>))"
      with b show ?thesis by (intro exI [of _ False]) auto
    qed
  qed
  then show ?thesis by (simp add: expireIdleSessions_def)
qed

lemma settled_sweep:
  assumes "settled i P" and "px_heap P i = Some u" and "us_locked u"
  shows "settled i (expireIdleSessions E P)"
  using assms expireIdleSessions_untouched [of P i E] expireIdleSessions_sessions [of E P]
  unfolding settled_def by auto

section \<open>Requests keep the invariant\<close>

lemma sessionOp_inv:
  assumes inv: "sessions_inv {} P" and own: "owns P uid i"
  shows "sessions_inv {} (snd (sessionOp L E p r repo uid i P))"
proof -
  obtain now w where clock: "clock E (s_world (px_st P)) = (now, w)" by fastforce
  let ?P0 = "on_st (\<lambda>s. s\<lparr>s_world := w\<rparr>) P"
  let ?P1 = "upd_session i (\<lambda>u. u\<lparr>us_locked := True, us_lastUsed := now\<rparr>) ?P0"
  have inv0: "sessions_inv {} ?P0" using inv by (rule sessions_inv_same) simp_all
  show ?thesis
  proof (cases "px_heap P i")
    case None
    then have "(px_heap P)(i := None) = px_heap P" by (simp add: fun_upd_idem)
    with None clock inv0 show ?thesis by (simp add: sessionOp_def Let_def)
  next
    case (Some u)
    let ?us = "u\<lparr>us_locked := True, us_lastUsed := now\<rparr>"
    have inv1: "sessions_inv {i} ?P1" using sessions_inv_lock [OF inv0] Some by simp
    have set1: "settled i ?P1" using sessions_inv_settled [OF inv0, of i] Some by (simp add: settled_def)
    have own1: "owns ?P1 uid i" using own by (simp add: owns_def)
    have us: "px_heap ?P1 i = Some ?us" using Some by simp
    obtain resp P2 where m: "sessionMethod L E p r repo uid i ?us ?P1 = (resp, P2)" by fastforce
    have P2: "sessions_inv {i} P2 \<and> settled i P2"
      by (rule sessionMethod_inv [OF m us inv1 set1 own1])
    have out: "snd (sessionOp L E p r repo uid i P)
        = upd_session i (\<lambda>u. u\<lparr>us_locked := False\<rparr>) (expireIdleSessions E P2)"
      using clock Some m by (simp add: sessionOp_def Let_def)
    show ?thesis
    proof (cases "px_heap P2 i")
      case None
      then have no: "px_heap (expireIdleSessions E P2) i = None" using expireIdleSessions_frame by blast
      then have "(px_heap (expireIdleSessions E P2))(i := None) = px_heap (expireIdleSessions E P2)"
        by (simp add: fun_upd_idem)
      with no P2 sessions_inv_absent [OF expireIdleSessions_inv no] show ?thesis
        unfolding out by (simp add: sessions_inv_def)
    next
      case (Some v)
      with P2 have "us_locked v" unfolding sessions_inv_def by blast
      then show ?thesis
        unfolding out using P2 Some expireIdleSessions_frame [of E P2]
        by (intro sessions_inv_unlock expireIdleSessions_inv settled_sweep [where u = v]) auto
    qed
  qed
qed

lemma uploadContinue_inv:
  assumes "sessions_inv {} P"
  shows "sessions_inv {} (snd (uploadContinue L E p r repo uid P))"
  using assms owns_lookup [OF assms] by (auto simp: uploadContinue_def intro: sessionOp_inv split: option.split)

text \<open>\<open>new_names P P'\<close>: a session that \<open>P'\<close> has and \<open>P\<close> has not got a file name never used before.\<close>

definition new_names :: "'w pst \<Rightarrow> 'w pst \<Rightarrow> bool" where
  "new_names P P' \<longleftrightarrow> (\<forall>i j u v. px_heap P i = Some u \<longrightarrow> px_heap P j = None \<longrightarrow>
     px_heap P' j = Some v \<longrightarrow> us_file v \<noteq> us_file u)"

lemma uploadStart_cases:
  assumes "uploadStart L E R p r repo P = (resp, P')"
  obtains (answered) s1 where "P' = P\<lparr>px_st := s1\<rparr>" "s_disk s1 = s_disk (px_st P)"
      "hp_status resp \<noteq> 202"
  | (unread) s1 name where "P' = P\<lparr>px_st := s1\<rparr>" "s_disk (px_st P) name = None"
      "s_disk s1 = (s_disk (px_st P))(name \<mapsto> [])" "hp_status resp = 500"
  | (opened) s1 name b now where
      "s_disk (px_st P) name = None" "s_disk s1 = (s_disk (px_st P))(name \<mapsto> [])"
      "P' = (let P1 = P\<lparr>px_st := s1, px_heap := (px_heap P)(px_next P \<mapsto>
                \<lparr>us_file = name, us_open = True, us_locked = False, us_size = 0, us_hash = [],
                 us_lastUsed = now\<rparr>), px_next := Suc (px_next P)\<rparr>;
                P2 = expireIdleSessions E P1
             in P2\<lparr>px_sessions := AList.update (hex_encode b) (px_next P) (px_sessions P2)\<rparr>)"
      "resp = \<lparr>hp_status = 202,
         hp_hdrs = [(''Location'', ''/v2/'' @ repo @ ''/blobs/uploads/'' @ hex_encode b),
                    (''Docker-Upload-Uuid'', hex_encode b), (''Range'', ''0-0'')], hp_body = []\<rparr>"
      "\<exists>w w'. R 16 w = (Inr b, w')"
proof -
  let ?mount = "header_get (hr_query r) ''mount''"
  let ?head = "if ?mount \<noteq> ''''
            then (case blobExists L E (px_c p) (upstreamRepo p repo) ?mount PushScope (px_st P) of
                    (Inl e, s1) \<Rightarrow> (Some (upstreamError L e), s1)
                  | (Inr True, s1) \<Rightarrow> (Some (created repo ''blobs'' ?mount), s1)
                  | (Inr False, s1) \<Rightarrow> (None, s1))
            else (None, px_st P)"
  obtain a s1 where head: "?head = (a, s1)" by fastforce
  have disk: "s_disk s1 = s_disk (px_st P)" and a202: "\<And>x. a = Some x \<Longrightarrow> hp_status x \<noteq> 202"
    using head
    by (auto split: if_splits prod.splits sum.splits bool.splits option.splits
        dest!: blobExists_frame dest: keeps_disk simp: created_def upstreamError_def proxyError_def)
  show thesis
  proof (cases a)
    case (Some x)
    with assms head have "P' = P\<lparr>px_st := s1\<rparr>" "resp = x" by (auto simp: uploadStart_def Let_def)
    with answered disk a202 Some show ?thesis by blast
  next
    case None
    obtain f s2 where st: "stagingFile E (px_stagingDir p) ''contain-proxy-upload-*'' s1 = (f, s2)"
      by fastforce
    note sofar = assms [unfolded uploadStart_def Let_def head [unfolded Let_def] None]
    from st show ?thesis
    proof (cases rule: stagingFile_cases)
      case (failed e w)
      with sofar st have "P' = P\<lparr>px_st := s2\<rparr>" "hp_status resp = 500" by (auto simp: proxyError_def)
      with answered disk failed show ?thesis by auto
    next
      case (created name w)
      obtain x w3 where rd: "R 16 (s_world s2) = (x, w3)" by fastforce
      show ?thesis
      proof (cases x)
        case (Inl e)
        with sofar st created rd have "P' = P\<lparr>px_st := s2\<lparr>s_world := w3\<rparr>\<rparr>" "hp_status resp = 500"
          by (auto simp: proxyError_def)
        with unread [of "s2\<lparr>s_world := w3\<rparr>" name] created disk show ?thesis by auto
      next
        case (Inr b)
        obtain now w4 where cl: "clock E w3 = (now, w4)" by fastforce
        from sofar st created(1) rd Inr cl opened [of name "s2\<lparr>s_world := w4\<rparr>" now b] created disk
        show ?thesis by (auto simp: Let_def)
      qed
    qed
  qed
qed

lemma sessions_inv_fresh:
  assumes "sessions_inv X P" and "i = px_next P"
  shows "px_heap P i = None" and "(a, i) \<notin> set (px_sessions P)"
proof -
  show no: "px_heap P i = None"
  proof (rule ccontr)
    assume "px_heap P i \<noteq> None"
    then obtain u where "px_heap P i = Some u" by blast
    with assms(1) have "i < px_next P" unfolding sessions_inv_def by blast
    with assms(2) show False by simp
  qed
  show "(a, i) \<notin> set (px_sessions P)"
  proof
    assume "(a, i) \<in> set (px_sessions P)"
    with assms(1) have "\<exists>u. px_heap P i = Some u" unfolding sessions_inv_def by blast
    with no show False by simp
  qed
qed

lemma sessions_inv_new:
  assumes "sessions_inv {} P" and "s_disk s1 = (s_disk (px_st P))(name \<mapsto> [])"
    and "\<And>i u. px_heap P i = Some u \<Longrightarrow> us_file u \<noteq> name"
  shows "sessions_inv {} (P\<lparr>px_st := s1, px_heap := (px_heap P)(px_next P \<mapsto>
                \<lparr>us_file = name, us_open = True, us_locked = False, us_size = 0, us_hash = [],
                 us_lastUsed = now\<rparr>), px_next := Suc (px_next P)\<rparr>)" (is "sessions_inv {} ?P1")
proof -
  note inv = assms(1) [unfolded sessions_inv_def]
  note fresh = sessions_inv_fresh [OF assms(1) refl]
  have ptr: "j < px_next ?P1 \<and> (us_locked u \<longleftrightarrow> j \<in> {})
        \<and> (us_open u \<longrightarrow> s_disk (px_st ?P1) (us_file u) = Some (us_hash u)
             \<and> (j \<notin> {} \<longrightarrow> us_size u = of_nat (length (us_hash u))))
        \<and> (\<forall>k v. px_heap ?P1 k = Some v \<longrightarrow> us_open u \<longrightarrow> j \<noteq> k \<longrightarrow> us_file u \<noteq> us_file v)"
    if "px_heap ?P1 j = Some u" for j u
  proof (cases "j = px_next P")
    case True
    with that assms(2,3) show ?thesis by auto
  next
    case False
    with that have old: "px_heap P j = Some u" by simp
    from conjunct1 [OF inv, rule_format, OF old] assms(2,3) old show ?thesis by (auto split: if_splits)
  qed
  have ent: "\<exists>u. px_heap ?P1 j = Some u \<and> (j \<notin> {} \<longrightarrow> us_open u)" if "(a, j) \<in> set (px_sessions ?P1)" for a j
  proof -
    have "(a, j) \<in> set (px_sessions P)" using that by simp
    from conjunct2 [OF conjunct2 [OF conjunct2 [OF inv]], rule_format, OF this] fresh(1) show ?thesis by auto
  qed
  show ?thesis
    unfolding sessions_inv_def using ptr ent conjunct1 [OF conjunct2 [OF inv]]
      conjunct1 [OF conjunct2 [OF conjunct2 [OF inv]]] by (intro conjI) (blast | simp)+
qed

lemma set_update: "distinct (map fst xs) \<Longrightarrow> set (AList.update k v xs) = insert (k, v) {e \<in> set xs. fst e \<noteq> k}"
  by (induction xs) (auto simp: image_iff)

lemma sessions_inv_register:
  assumes "sessions_inv {} P" and "px_heap P i = Some u" and "us_open u"
    and "\<And>a. (a, i) \<notin> set (px_sessions P)"
  shows "sessions_inv {} (P\<lparr>px_sessions := AList.update uid i (px_sessions P)\<rparr>)"
proof -
  have "distinct (map fst (px_sessions P))" using assms(1) by (simp add: sessions_inv_def)
  with assms show ?thesis
    unfolding sessions_inv_def by (simp add: set_update AList.distinct_update) blast
qed

lemma uploadStart_inv:
  assumes inv: "sessions_inv {} P" and st: "uploadStart L E R p r repo P = (resp, P')"
    and names: "new_names P P'"
  shows "sessions_inv {} P'"
  using st
proof (cases rule: uploadStart_cases)
  case (answered s1)
  with inv show ?thesis by (intro sessions_inv_same [OF inv]) simp_all
next
  case (unread s1 name)
  have "s_disk (px_st P) (us_file u) = Some (us_hash u)" if "px_heap P i = Some u" "us_open u" for i u
    using inv that unfolding sessions_inv_def by blast
  with unread have "us_file u \<noteq> name" if "px_heap P i = Some u" "us_open u" for i u
    using that by force
  with inv unread show ?thesis unfolding sessions_inv_def by simp
next
  case (opened s1 name b now)
  let ?u = "\<lparr>us_file = name, us_open = True, us_locked = False, us_size = 0, us_hash = [], us_lastUsed = now\<rparr>"
  let ?i = "px_next P"
  let ?P1 = "P\<lparr>px_st := s1, px_heap := (px_heap P)(?i \<mapsto> ?u), px_next := Suc ?i\<rparr>"
  let ?P2 = "expireIdleSessions E ?P1"
  note fresh = sessions_inv_fresh [OF inv refl]
  have P': "P' = ?P2\<lparr>px_sessions := AList.update (hex_encode b) ?i (px_sessions ?P2)\<rparr>"
    using opened(3) by (simp add: Let_def)
  have kept: "px_heap ?P2 ?i = Some ?u"
  proof -
    have "\<forall>x \<in> set (px_sessions ?P1). snd x \<noteq> ?i" using fresh(2) by force
    with expireIdleSessions_untouched [of ?P1 ?i E] show ?thesis by simp
  qed
  have "us_file u \<noteq> name" if "px_heap P j = Some u" for j u
  proof -
    have "px_heap P' ?i = Some ?u" using kept by (simp add: P')
    with names fresh(1) that have "us_file ?u \<noteq> us_file u" unfolding new_names_def by blast
    then show ?thesis by simp
  qed
  then have "sessions_inv {} ?P1" by (intro sessions_inv_new [OF inv opened(2)])
  from expireIdleSessions_inv [OF this] have "sessions_inv {} ?P2" .
  moreover have "(a, ?i) \<notin> set (px_sessions ?P2)" for a
    using expireIdleSessions_sessions [of E ?P1] fresh(2) by auto
  ultimately show ?thesis unfolding P' using kept by (intro sessions_inv_register) auto
qed

lemma forward_frame:
  assumes "forward L E p r repo tail P = (resp, P')"
  shows "px_heap P' = px_heap P \<and> px_sessions P' = px_sessions P \<and> px_next P' = px_next P
     \<and> s_disk (px_st P') = s_disk (px_st P)"
  using assms
  by (auto simp: forward_def Let_def split: sum.splits prod.splits dest!: do_req_frame keeps_disk)

lemma manifestPut_frame:
  assumes "manifestPut L E p r repo ref P = (resp, P')"
  shows "px_heap P' = px_heap P \<and> px_sessions P' = px_sessions P \<and> px_next P' = px_next P
     \<and> s_disk (px_st P') = s_disk (px_st P)"
  using assms
  by (auto simp: manifestPut_def Let_def split: sum.splits prod.splits if_splits option.splits
      dest!: putManifest_frame keeps_disk)

section \<open>Where a request may go\<close>

text \<open>
  Every request is answered on the spot, or belongs to one of four handlers with a repository name
  and a last path element that passed their grammars.
\<close>

lemma repoOr400_Inr: "repoOr400 L segs = Inr repo \<Longrightarrow> rmatch proxyNameRe repo \<and> repo = str_join segs ''/''"
  by (auto simp: repoOr400_def Let_def split: if_splits)

lemma pathPartOr400_None: "pathPartOr400 L v re code msg = None \<Longrightarrow> rmatch re v"
  by (auto simp: pathPartOr400_def split: if_splits)

lemma repoOr400_Inl: "repoOr400 L segs = Inl resp \<Longrightarrow> hp_status resp = 400"
  by (auto simp: repoOr400_def Let_def proxyError_def split: if_splits)

lemma pathPartOr400_Some: "pathPartOr400 L v re code msg = Some resp \<Longrightarrow> hp_status resp = 400"
  by (auto simp: pathPartOr400_def proxyError_def split: if_splits)

lemma proxyError_status [simp]: "hp_status (proxyError L n code msg) = n"
  by (simp add: proxyError_def)

inductive routed ::
  "lib \<Rightarrow> 'w env \<Rightarrow> (nat \<Rightarrow> 'w \<Rightarrow> (string + bytes) \<times> 'w) \<Rightarrow> Proxy \<Rightarrow> http_req \<Rightarrow> 'w pst \<Rightarrow>
   http_resp \<times> 'w pst \<Rightarrow> bool" for L E R p r P where
  local: "hp_status resp \<in> {200, 400, 404, 405} \<Longrightarrow> routed L E R p r P (resp, P)"
| reads: "rmatch proxyNameRe repo \<Longrightarrow> rmatch proxyRefRe ref \<Longrightarrow> hr_method r = ''GET'' \<or> hr_method r = ''HEAD'' \<Longrightarrow>
    kind = ''manifests/'' \<or> kind = ''blobs/'' \<Longrightarrow>
    routed L E R p r P (forward L E p r repo (kind @ ref) P)"
| tags: "rmatch proxyNameRe repo \<Longrightarrow> routed L E R p r P (forward L E p r repo ''tags/list'' P)"
| manifest: "rmatch proxyNameRe repo \<Longrightarrow> rmatch proxyRefRe ref \<Longrightarrow> hr_method r = ''PUT'' \<Longrightarrow>
    routed L E R p r P (manifestPut L E p r repo ref P)"
| start: "rmatch proxyNameRe repo \<Longrightarrow> hr_method r = ''POST'' \<Longrightarrow>
    routed L E R p r P (uploadStart L E R p r repo P)"
| continue: "rmatch proxyNameRe repo \<Longrightarrow> rmatch proxyUploadIDRe uid \<Longrightarrow>
    routed L E R p r P (uploadContinue L E p r repo uid P)"

lemma routed_error: "n \<in> {400, 404, 405} \<Longrightarrow> routed L E R p r P (proxyError L n code msg, P)"
  by (intro local) auto

lemma routed_repo:
  assumes "\<And>repo. rmatch proxyNameRe repo \<Longrightarrow> routed L E R p r P (f repo)"
  shows "routed L E R p r P (case repoOr400 L segs of Inl resp \<Rightarrow> (resp, P) | Inr repo \<Rightarrow> f repo)"
  using assms by (auto split: sum.split dest!: repoOr400_Inl repoOr400_Inr intro: local)

lemma routed_part:
  assumes "rmatch re v \<Longrightarrow> routed L E R p r P x"
  shows "routed L E R p r P (case pathPartOr400 L v re code msg of Some resp \<Rightarrow> (resp, P) | None \<Rightarrow> x)"
  using assms by (auto split: option.split dest!: pathPartOr400_None pathPartOr400_Some intro: local)

lemma routed_if:
  assumes "b \<Longrightarrow> routed L E R p r P x" and "\<not> b \<Longrightarrow> routed L E R p r P y"
  shows "routed L E R p r P (if b then x else y)"
  using assms by simp

lemma routed_manifests:
  "rmatch proxyNameRe repo \<Longrightarrow> rmatch proxyRefRe ref \<Longrightarrow> hr_method r = ''GET'' \<or> hr_method r = ''HEAD'' \<Longrightarrow>
    routed L E R p r P (forward L E p r repo (''manifests/'' @ ref) P)"
  by (rule reads) simp_all

lemma routed_blobs:
  "rmatch proxyNameRe repo \<Longrightarrow> rmatch proxyRefRe ref \<Longrightarrow> \<not> (hr_method r \<noteq> ''GET'' \<and> hr_method r \<noteq> ''HEAD'') \<Longrightarrow>
    routed L E R p r P (forward L E p r repo (''blobs/'' @ ref) P)"
  by (rule reads) auto

lemma routed_start:
  "rmatch proxyNameRe repo \<Longrightarrow> \<not> hr_method r \<noteq> ''POST'' \<Longrightarrow> routed L E R p r P (uploadStart L E R p r repo P)"
  by (rule start) simp_all

lemma serveHTTP_routed: "routed L E R p r P (serveHTTP L E R p r P)"
  unfolding serveHTTP_def Let_def
  by (intro routed_if routed_repo routed_part)
    ((rule routed_error routed_manifests routed_blobs tags manifest routed_start continue;
      (assumption | simp; fail)) | (rule local; simp))+

section \<open>Interleaved requests\<close>

text \<open>
  A request for an upload looks its session up and then waits for the session's lock; \<open>pending\<close> are the
  requests in between. Every other request, and the part under the lock, is one step.
\<close>

type_synonym pending = "http_req \<times> string \<times> string \<times> nat"

inductive proxy_step ::
  "lib \<Rightarrow> 'w env \<Rightarrow> (nat \<Rightarrow> 'w \<Rightarrow> (string + bytes) \<times> 'w) \<Rightarrow> Proxy \<Rightarrow>
   'w pst \<times> pending list \<Rightarrow> 'w pst \<times> pending list \<Rightarrow> bool" for L E R p where
  serve: "serveHTTP L E R p r P = (resp, P') \<Longrightarrow> new_names P P' \<Longrightarrow>
    proxy_step L E R p (P, Q) (P', Q)"
| lookup: "map_of (px_sessions P) uid = Some i \<Longrightarrow>
    proxy_step L E R p (P, Q) (P, (r, repo, uid, i) # Q)"
| resume: "(r, repo, uid, i) \<in> set Q \<Longrightarrow> sessionOp L E p r repo uid i P = (resp, P') \<Longrightarrow>
    proxy_step L E R p (P, Q) (P', remove1 (r, repo, uid, i) Q)"

text \<open>What a step leaves of the map of sessions: old entries, and entries of new sessions.\<close>

definition grows :: "'w pst \<Rightarrow> 'w pst \<Rightarrow> bool" where
  "grows P P' \<longleftrightarrow> px_next P \<le> px_next P' \<and>
     (\<forall>a i. (a, i) \<in> set (px_sessions P') \<longrightarrow> (a, i) \<in> set (px_sessions P) \<or> i = px_next P)"

lemma grows_owns: "grows P P' \<Longrightarrow> owns P uid i \<Longrightarrow> i < px_next P \<Longrightarrow> owns P' uid i \<and> i < px_next P'"
  unfolding grows_def owns_def by fastforce

lemma session_copy_frame:
  assumes "session_copy E i r P = (res, P')"
  shows "px_sessions P' = px_sessions P \<and> px_next P' = px_next P \<and> s_wire (px_st P') = s_wire (px_st P)
     \<and> s_heap (px_st P') = s_heap (px_st P)"
proof (cases "px_heap P i")
  case None
  with assms show ?thesis by (simp add: session_copy_def)
next
  case (Some u)
  from assms Some show ?thesis by (cases rule: session_copy_cases) auto
qed

lemma session_close_frame:
  "session_close E i P = (e, P') \<Longrightarrow> px_sessions P' = px_sessions P \<and> px_next P' = px_next P
     \<and> px_st P' = px_st P"
  by (auto simp: session_close_def split: option.splits if_splits)

lemma sessionPatch_frame:
  assumes "sessionPatch L E r repo uid i us P = (resp, P')"
  shows "set (px_sessions P') \<subseteq> set (px_sessions P) \<and> px_next P' = px_next P"
  using assms
  by (auto simp: sessionPatch_def Let_def set_delete split: if_splits prod.splits sum.splits
      dest!: session_copy_frame)

lemma sessionPut_frame:
  assumes "sessionPut L E p r repo uid i us P = (resp, P')"
  shows "set (px_sessions P') \<subseteq> set (px_sessions P) \<and> px_next P' = px_next P"
  using assms
  by (auto simp: sessionPut_def Let_def set_delete split: if_splits prod.splits sum.splits option.splits
      dest!: session_copy_frame session_close_frame)

lemma sessionOp_grows: "grows P (snd (sessionOp L E p r repo uid i P))"
proof -
  obtain now w where clock: "clock E (s_world (px_st P)) = (now, w)" by fastforce
  let ?P1 = "upd_session i (\<lambda>u. u\<lparr>us_locked := True, us_lastUsed := now\<rparr>) (on_st (\<lambda>s. s\<lparr>s_world := w\<rparr>) P)"
  show ?thesis
  proof (cases "px_heap P i")
    case None
    with clock show ?thesis by (simp add: sessionOp_def Let_def grows_def)
  next
    case (Some u)
    let ?us = "u\<lparr>us_locked := True, us_lastUsed := now\<rparr>"
    obtain resp P2 where m: "sessionMethod L E p r repo uid i ?us ?P1 = (resp, P2)" by fastforce
    have "set (px_sessions P2) \<subseteq> set (px_sessions P) \<and> px_next P2 = px_next P"
      using m by (auto simp: sessionMethod_def set_delete split: if_splits
          dest!: sessionPatch_frame sessionPut_frame)
    moreover have "snd (sessionOp L E p r repo uid i P)
        = upd_session i (\<lambda>u. u\<lparr>us_locked := False\<rparr>) (expireIdleSessions E P2)"
      using clock Some m by (simp add: sessionOp_def Let_def)
    ultimately show ?thesis
      using expireIdleSessions_frame [of E P2] expireIdleSessions_sessions [of E P2]
      by (auto simp: grows_def)
  qed
qed

lemma uploadStart_grows:
  assumes "uploadStart L E R p r repo P = (resp, P')"
  shows "grows P P'"
  using assms
proof (cases rule: uploadStart_cases)
  case (opened s1 name b now)
  let ?P1 = "P\<lparr>px_st := s1, px_heap := (px_heap P)(px_next P \<mapsto>
                \<lparr>us_file = name, us_open = True, us_locked = False, us_size = 0, us_hash = [],
                 us_lastUsed = now\<rparr>), px_next := Suc (px_next P)\<rparr>"
  have "set (AList.update k v xs) \<subseteq> insert (k, v) (set xs)" for k :: string and v :: nat and xs
    by (induction xs) auto
  with opened(3) expireIdleSessions_frame [of E ?P1] expireIdleSessions_sessions [of E ?P1]
  show ?thesis by (fastforce simp: grows_def Let_def)
qed (auto simp: grows_def)

lemma serveHTTP_grows:
  assumes "serveHTTP L E R p r P = (resp, P')"
  shows "grows P P'"
  using serveHTTP_routed [of L E R p r P, unfolded assms]
proof (cases rule: routed.cases)
  case (start repo)
  then show ?thesis by (metis uploadStart_grows)
next
  case (continue repo uid)
  have "grows P (snd (uploadContinue L E p r repo uid P))"
    by (cases "map_of (px_sessions P) uid")
      (simp_all add: uploadContinue_def sessionOp_grows grows_def [of P P])
  with continue show ?thesis by (metis snd_conv)
next
  case (reads repo ref kind)
  then show ?thesis using forward_frame [of L E p r repo "kind @ ref" P resp P'] by (auto simp: grows_def)
next
  case (tags repo)
  then show ?thesis using forward_frame [of L E p r repo "''tags/list''" P resp P'] by (auto simp: grows_def)
next
  case (manifest repo ref)
  then show ?thesis using manifestPut_frame [of L E p r repo ref P resp P'] by (auto simp: grows_def)
qed (auto simp: grows_def)

lemma serveHTTP_inv:
  assumes inv: "sessions_inv {} P" and st: "serveHTTP L E R p r P = (resp, P')" and "new_names P P'"
  shows "sessions_inv {} P'"
  using serveHTTP_routed [of L E R p r P, unfolded st]
proof (cases rule: routed.cases)
  case (start repo)
  then show ?thesis using uploadStart_inv inv assms(3) by metis
next
  case (continue repo uid)
  then show ?thesis using uploadContinue_inv [OF inv] by (metis snd_conv)
next
  case (reads repo ref kind)
  then show ?thesis
    using forward_frame [of L E p r repo "kind @ ref" P resp P'] by (intro sessions_inv_same [OF inv]) simp_all
next
  case (tags repo)
  then show ?thesis
    using forward_frame [of L E p r repo "''tags/list''" P resp P'] by (intro sessions_inv_same [OF inv]) simp_all
next
  case (manifest repo ref)
  then show ?thesis
    using manifestPut_frame [of L E p r repo ref P resp P']
    by (intro sessions_inv_same [OF inv]) simp_all
qed (use inv in simp)

definition proxy_inv :: "'w pst \<times> pending list \<Rightarrow> bool" where
  "proxy_inv x \<longleftrightarrow> sessions_inv {} (fst x) \<and>
     (\<forall>(r, repo, uid, i) \<in> set (snd x). owns (fst x) uid i \<and> i < px_next (fst x))"

lemma proxy_step_inv:
  assumes "proxy_step L E R p x y" and "proxy_inv x"
  shows "proxy_inv y"
  using assms
proof (induction rule: proxy_step.induct)
  case (serve r P resp P' Q)
  then show ?case
    using serveHTTP_inv serveHTTP_grows grows_owns unfolding proxy_inv_def by fastforce
next
  case (lookup P uid i Q r repo)
  then have inv: "sessions_inv {} P" by (simp add: proxy_inv_def)
  obtain u where "px_heap P i = Some u" using sessions_inv_mapped [OF inv lookup.hyps] by blast
  with inv have "i < px_next P" unfolding sessions_inv_def by blast
  with lookup owns_lookup [OF inv] show ?case by (auto simp: proxy_inv_def)
next
  case (resume r repo uid i Q P resp P')
  then have inv: "sessions_inv {} P" and own: "owns P uid i" by (auto simp: proxy_inv_def)
  have "sessions_inv {} P'" using sessionOp_inv [OF inv own] resume.hyps(2) by (metis snd_conv)
  moreover have "grows P P'" using sessionOp_grows resume.hyps(2) by (metis snd_conv)
  moreover have "set (remove1 (r, repo, uid, i) Q) \<subseteq> set Q" by (rule set_remove1_subset)
  ultimately show ?case using resume.prems grows_owns unfolding proxy_inv_def by fastforce
qed

lemma proxy_reachable_inv:
  assumes "(proxy_step L E R p)\<^sup>*\<^sup>* x y" and "proxy_inv x"
  shows "proxy_inv y"
  using assms by (induction rule: rtranclp_induct) (auto intro: proxy_step_inv)

lemma newProxy_inv: "newProxy reg N i host pre opts s = Inr (p, P) \<Longrightarrow> proxy_inv (P, [])"
  by (auto simp: newProxy_def proxy_inv_def sessions_inv_def split: if_splits sum.splits prod.splits)

section \<open>A blob is reported created only when it is\<close>

lemma upstreamError_status: "hp_status (upstreamError L e) \<in> {401, 403, 404, 429, 502}"
  by (auto simp: upstreamError_def split: option.split)

lemma upstreamError_201 [simp]: "hp_status (upstreamError L e) \<noteq> 201"
  using upstreamError_status [of L e] by auto

lemma sessionPut_created:
  assumes put: "sessionPut L E p r repo uid i us P = (resp, P')" and "hp_status resp = 201"
    and us: "px_heap P i = Some us" and inv: "sessions_inv {i} P"
    and size: "us_open us \<longrightarrow> us_size us = of_nat (length (us_hash us))"
  shows "let dg = header_get (hr_query r) ''digest''; content = us_hash us @ hr_body r in
    us_open us \<and> equal_fold dg (digestOf L content)
    \<and> resp = created repo ''blobs'' dg
    \<and> has_blob L (px_c p) (upstreamRepo p repo) dg (s_wire (px_st P'))
    \<and> adds (carries \<lparr>d_mediaType = '''', d_digest = dg, d_size = of_nat (length content)\<rparr> (Some content))
        (px_st P) (px_st P')"
proof -
  let ?dg = "header_get (hr_query r) ''digest''"
  let ?content = "us_hash us @ hr_body r"
  obtain res P1 where copy: "session_copy E i r P = (res, P1)" by fastforce
  show ?thesis
  proof (cases res)
    case (Inl e)
    with put copy assms(2) show ?thesis by (auto simp: sessionPut_def Let_def)
  next
    case (Inr n)
    note c = session_copy_inv [OF copy us inv singletonI]
    then obtain us' where us': "px_heap P1 i = Some us'" "us_file us' = us_file us" "us_size us' = us_size us"
        "us_open us' = us_open us" "n = of_nat (length (hr_body r))" "us_hash us' = ?content"
      using Inr by auto
    note fr = session_copy_frame [OF copy]
    let ?P2 = "upd_session i (\<lambda>u. u\<lparr>us_size := us_size us + n\<rparr>) P1"
    obtain e P3 where cl: "session_close E i ?P2 = (e, P3)" by fastforce
    let ?d = "\<lparr>d_mediaType = '''', d_digest = ?dg, d_size = us_size us + n\<rparr>"
    obtain r4 s4 where push: "pushBlobFile L E (px_c p) (upstreamRepo p repo) ?d (us_file us) (px_st P3)
        = (r4, s4)" by fastforce
    have ok: "equal_fold ?dg (digestOf L ?content) \<and> e = None \<and> r4 = Inr ()
        \<and> P' = drop_session uid i (P3\<lparr>px_st := s4\<rparr>) \<and> resp = created repo ''blobs'' ?dg"
      using put copy Inr cl push assms(2)
      by (cases e; cases r4; auto simp: sessionPut_def Let_def digestOfHash_digestOf split: if_splits)
    have "us_open us"
      using session_close_inv [OF cl, of "{i}"] sessions_inv_size [OF conjunct1 [OF c] singletonI us'(1)]
        us'(1,4) ok by auto
    moreover have sz: "us_size us + n = of_nat (length ?content)"
      using size \<open>us_open us\<close> us'(5) by simp
    moreover have st3: "px_st P3 = px_st P1" using session_close_frame [OF cl] by simp
    have "s_disk (px_st P1) (us_file us) = Some ?content"
      using c us' \<open>us_open us\<close> unfolding sessions_inv_def by metis
    then have "adds (carries ?d (Some ?content)) (px_st P3) s4"
      using pushBlobFile_carries [OF push] st3 by simp
    then have "adds (carries ?d (Some ?content)) (px_st P) (px_st P')"
      using fr st3 ok by (simp add: adds_def)
    moreover have "has_blob L (px_c p) (upstreamRepo p repo) ?dg (s_wire (px_st P'))"
      using pushBlobFile_trace [OF push] ok by simp
    ultimately show ?thesis using ok by (simp add: Let_def)
  qed
qed

section \<open>What the sweep does to one session\<close>

lemma fold_expire_other:
  assumes "\<forall>x \<in> set xs. snd x \<noteq> i"
  shows "px_heap (fold (expireOne E) xs Q) i = px_heap Q i"
  using assms
proof (induction xs arbitrary: Q)
  case (Cons x xs)
  have "px_heap (expireOne E x Q) i = px_heap Q i" using expireOne_heap [of E x Q i] Cons.prems by auto
  with Cons show ?case by simp
qed simp

lemma fold_expire_sessions: "set (px_sessions (fold (expireOne E) xs Q)) \<subseteq> set (px_sessions Q)"
  by (induction xs arbitrary: Q) (use expireOne_sessions in fastforce)+

lemma expireOne_keeps_entry: "(a, i) \<in> set (px_sessions Q) \<Longrightarrow> fst x \<noteq> a \<Longrightarrow> (a, i) \<in> set (px_sessions (expireOne E x Q))"
  by (auto simp: expireOne_def Let_def set_delete split: prod.splits option.splits)

lemma fold_expire_keeps_entry:
  "(a, i) \<in> set (px_sessions Q) \<Longrightarrow> \<forall>x \<in> set xs. fst x \<noteq> a \<Longrightarrow>
     (a, i) \<in> set (px_sessions (fold (expireOne E) xs Q))"
  by (induction xs arbitrary: Q) (auto intro: expireOne_keeps_entry)

lemma sessions_inv_split:
  assumes "sessions_inv X P" and "(uid, i) \<in> set (px_sessions P)"
  obtains ys zs where "px_sessions P = ys @ (uid, i) # zs"
    and "\<forall>x \<in> set ys. snd x \<noteq> i \<and> fst x \<noteq> uid" and "\<forall>x \<in> set zs. snd x \<noteq> i \<and> fst x \<noteq> uid"
proof -
  obtain ys zs where split: "px_sessions P = ys @ (uid, i) # zs"
    using assms(2) by (meson split_list)
  have d: "distinct (map fst (px_sessions P))"
      and inj: "\<And>a b j. (a, j) \<in> set (px_sessions P) \<Longrightarrow> (b, j) \<in> set (px_sessions P) \<Longrightarrow> a = b"
    using assms(1) unfolding sessions_inv_def by blast+
  have keys: "fst x \<noteq> uid" if "x \<in> set ys \<union> set zs" for x
    using d that unfolding split by (auto simp: image_iff)
  have "snd x \<noteq> i" if "x \<in> set ys \<union> set zs" for x
  proof
    assume "snd x = i"
    then have "(fst x, i) \<in> set (px_sessions P)" using that split by (cases x) auto
    with inj assms(2) keys [OF that] show False by blast
  qed
  with keys split show thesis by (intro that [of ys zs]) auto
qed

lemma sweep_removes:
  assumes inv: "sessions_inv X P" and mem: "(uid, i) \<in> set (px_sessions P)"
    and u: "px_heap P i = Some u" "\<not> us_locked u"
    and late: "\<And>w. fst (clock E w) - us_lastUsed u > sessionMaxIdle"
  shows "(uid, j) \<notin> set (px_sessions (expireIdleSessions E P))
    \<and> px_heap (expireIdleSessions E P) i = Some (u\<lparr>us_open := False\<rparr>)"
proof -
  obtain ys zs where split: "px_sessions P = ys @ (uid, i) # zs"
      "\<forall>x \<in> set ys. snd x \<noteq> i \<and> fst x \<noteq> uid" "\<forall>x \<in> set zs. snd x \<noteq> i \<and> fst x \<noteq> uid"
    by (rule sessions_inv_split [OF inv mem])
  let ?Q = "fold (expireOne E) ys P"
  let ?R = "expireOne E (uid, i) ?Q"
  have Q: "px_heap ?Q i = Some u" using fold_expire_other split(2) u(1) by metis
  obtain now w where clock: "clock E (s_world (px_st ?Q)) = (now, w)" by fastforce
  then have "now - us_lastUsed u > sessionMaxIdle" using late by (metis fst_conv)
  with Q u(2) clock have R: "px_heap ?R i = Some (u\<lparr>us_open := False\<rparr>)" "(uid, j) \<notin> set (px_sessions ?R)"
    by (auto simp: expireOne_def Let_def discard_heap set_delete)
  have "px_heap (fold (expireOne E) zs ?R) i = px_heap ?R i"
    using fold_expire_other split(3) by metis
  moreover have "(uid, j) \<notin> set (px_sessions (fold (expireOne E) zs ?R))"
    using fold_expire_sessions R(2) by blast
  ultimately show ?thesis using R(1) by (simp add: expireIdleSessions_def split(1))
qed

lemma sweep_keeps:
  assumes inv: "sessions_inv X P" and mem: "(uid, i) \<in> set (px_sessions P)"
    and u: "px_heap P i = Some u"
    and early: "us_locked u \<or> (\<forall>w. fst (clock E w) - us_lastUsed u \<le> sessionMaxIdle)"
  shows "(uid, i) \<in> set (px_sessions (expireIdleSessions E P)) \<and> px_heap (expireIdleSessions E P) i = Some u"
proof -
  obtain ys zs where split: "px_sessions P = ys @ (uid, i) # zs"
      "\<forall>x \<in> set ys. snd x \<noteq> i \<and> fst x \<noteq> uid" "\<forall>x \<in> set zs. snd x \<noteq> i \<and> fst x \<noteq> uid"
    by (rule sessions_inv_split [OF inv mem])
  let ?Q = "fold (expireOne E) ys P"
  let ?R = "expireOne E (uid, i) ?Q"
  have Q: "px_heap ?Q i = Some u" "(uid, i) \<in> set (px_sessions ?Q)"
    using fold_expire_other fold_expire_keeps_entry [of uid i P ys E] split(2) u mem by metis+
  obtain now w where clock: "clock E (s_world (px_st ?Q)) = (now, w)" by fastforce
  have "us_locked u \<or> now - us_lastUsed u \<le> sessionMaxIdle" using early clock by (metis fst_conv)
  with Q clock have R: "px_heap ?R i = Some u" "(uid, i) \<in> set (px_sessions ?R)"
    by (auto simp: expireOne_def Let_def)
  then have "px_heap (fold (expireOne E) zs ?R) i = Some u"
      "(uid, i) \<in> set (px_sessions (fold (expireOne E) zs ?R))"
    using fold_expire_other fold_expire_keeps_entry [of uid i ?R zs E] split(3) by metis+
  then show ?thesis by (simp add: expireIdleSessions_def split(1))
qed

text \<open>
  A request on a session, step by step: the session under its lock is the one from before but for
  the lock and the time, and after the method the sweep and the unlock leave it alone.
\<close>

lemma uploadContinue_run:
  assumes inv: "sessions_inv {} P" and look: "map_of (px_sessions P) uid = Some i"
    and u: "px_heap P i = Some u" and run: "uploadContinue L E p r repo uid P = (resp, P')"
  obtains now P1 P2 where
    "sessions_inv {i} P1" "settled i P1" "owns P1 uid i" "px_heap P1 i = Some (u\<lparr>us_locked := True, us_lastUsed := now\<rparr>)"
    "px_sessions P1 = px_sessions P" "s_wire (px_st P1) = s_wire (px_st P)" "s_disk (px_st P1) = s_disk (px_st P)"
    "sessionMethod L E p r repo uid i (u\<lparr>us_locked := True, us_lastUsed := now\<rparr>) P1 = (resp, P2)"
    "sessions_inv {i} P2" "settled i P2"
    "s_wire (px_st P') = s_wire (px_st P2)" "set (px_sessions P') \<subseteq> set (px_sessions P2)"
    "\<And>v. px_heap P2 i = Some v \<Longrightarrow> px_heap P' i = Some (v\<lparr>us_locked := False\<rparr>)"
    "sessions_inv {} P'"
proof -
  obtain now w where clock: "clock E (s_world (px_st P)) = (now, w)" by fastforce
  let ?P0 = "on_st (\<lambda>s. s\<lparr>s_world := w\<rparr>) P"
  let ?P1 = "upd_session i (\<lambda>u. u\<lparr>us_locked := True, us_lastUsed := now\<rparr>) ?P0"
  let ?us = "u\<lparr>us_locked := True, us_lastUsed := now\<rparr>"
  have inv0: "sessions_inv {} ?P0" using inv by (rule sessions_inv_same) simp_all
  have inv1: "sessions_inv {i} ?P1" using sessions_inv_lock [OF inv0] u by simp
  have set1: "settled i ?P1" using sessions_inv_settled [OF inv0, of i] u by (simp add: settled_def)
  have own1: "owns ?P1 uid i" using owns_lookup [OF inv look] by (simp add: owns_def)
  have us: "px_heap ?P1 i = Some ?us" using u by simp
  obtain resp2 P2 where m: "sessionMethod L E p r repo uid i ?us ?P1 = (resp2, P2)" by fastforce
  note P2 = sessionMethod_inv [OF m us inv1 set1 own1]
  have out: "resp = resp2" "P' = upd_session i (\<lambda>u. u\<lparr>us_locked := False\<rparr>) (expireIdleSessions E P2)"
    using run look clock u m by (auto simp: uploadContinue_def sessionOp_def Let_def)
  have "px_heap P' i = Some (v\<lparr>us_locked := False\<rparr>)" if v: "px_heap P2 i = Some v" for v
  proof -
    have "us_locked v" using P2 v unfolding sessions_inv_def by blast
    then have "px_heap (expireIdleSessions E P2) i = Some v"
      using expireIdleSessions_untouched [of P2 i E] v by auto
    then show ?thesis by (simp add: out)
  qed
  moreover have "sessions_inv {} P'"
    using uploadContinue_inv [OF inv] run by (metis snd_conv)
  ultimately show thesis
    using that [of ?P1 now P2] inv1 set1 own1 us m P2 out expireIdleSessions_frame [of E P2]
      expireIdleSessions_sessions [of E P2]
    by simp
qed

lemma sessionPut_gone:
  assumes "sessionPut L E p r repo uid i us P = (resp, P')"
  shows "map_of (px_sessions P') uid = None"
  using assms
  by (auto simp: sessionPut_def Let_def set_delete map_of_eq_None_iff
      split: if_splits prod.splits sum.splits option.splits)

section \<open>Upload ids\<close>

lemma hex_digit_lower: "n < 16 \<Longrightarrow> is_hex_lower (hex_digit n)"
proof -
  have "\<forall>n \<in> set [0..<16]. is_hex_lower (hex_digit n)" by code_simp
  then show "n < 16 \<Longrightarrow> is_hex_lower (hex_digit n)" by simp
qed

lemma length_hex_encode: "length (hex_encode b) = 2 * length b"
  by (induction b) (simp_all add: hex_encode_def)

lemma hex_encode_id:
  assumes "length b = 16"
  shows "rmatch proxyUploadIDRe (hex_encode b)"
proof -
  have "(of_char c :: nat) div 16 < 16 \<and> (of_char c :: nat) mod 16 < 16" for c
  proof -
    have "(of_char c :: nat) < 256" by (rule nat_of_char_less_256)
    then have "(of_char c :: nat) div 16 < 16" by linarith
    then show ?thesis by simp
  qed
  then have "list_all is_hex_lower (hex_encode b)"
    by (auto simp: hex_encode_def list_all_iff intro: hex_digit_lower)
  then show ?thesis
    using assms by (simp add: proxyUploadIDRe_def rmatch_lang rtimes_class_iff length_hex_encode
        del: rtimes.simps)
qed

text \<open>The id of an opened session comes from sixteen random bytes.\<close>

lemma uploadStart_random:
  assumes "uploadStart L E R p r repo P = (resp, P')" and "hp_status resp = 202"
  shows "\<exists>w b w'. R 16 w = (Inr b, w') \<and> header_get (hp_hdrs resp) ''Docker-Upload-Uuid'' = hex_encode b"
  using assms(1)
proof (cases rule: uploadStart_cases)
  case (opened s1 name b now)
  then show ?thesis by (auto simp: header_get_def)
qed (use assms(2) in simp_all)

end
