(* ===== verification/Proxy_Paths.thy ===== *)
theory Proxy_Paths
  imports Oci_Proxy
begin

text \<open>
  The reason the proxy validates names: the paths it builds carry credentials, and servers resolve
  \<open>.\<close> and \<open>..\<close> segments. What passes the grammars has no such segment, so no request built from
  them leaves the path its label stands for. The one exception in the code is the \<open>mount\<close>
  parameter of an upload, which no grammar guards.
\<close>

section \<open>Paths without dot segments\<close>

definition no_dots :: "string \<Rightarrow> bool" where
  "no_dots s \<longleftrightarrow> (\<forall>seg \<in> set (split_on (CHR ''/'') s). seg \<noteq> ''.'' \<and> seg \<noteq> ''..'')"

lemma no_dots_append: "no_dots (s @ ''/'' @ t) \<longleftrightarrow> no_dots s \<and> no_dots t"
  by (auto simp: no_dots_def split_on_append_sep)

lemma no_dots_Cons [simp]: "no_dots (CHR ''/'' # s) \<longleftrightarrow> no_dots s"
  by (simp add: no_dots_def)

lemma no_dots_single: "CHR ''/'' \<notin> set s \<Longrightarrow> no_dots s \<longleftrightarrow> s \<noteq> ''.'' \<and> s \<noteq> ''..''"
  by (simp add: no_dots_def split_on_no_sep)

section \<open>Repository names\<close>

definition comp :: "string \<Rightarrow> bool" where
  "comp w \<longleftrightarrow> w \<noteq> [] \<and> alnum_lower (hd w) \<and> CHR ''/'' \<notin> set w"

lemma alnum_lower_not [simp]:
  "\<not> alnum_lower (CHR ''/'')" "\<not> alnum_lower (CHR ''.'')" "\<not> alnum_lower (CHR '':'')"
  by (simp_all add: alnum_lower_def is_lower_def is_digit_def in_range_def)

lemma no_slash_class:
  assumes "all_cls (\<lambda>c. c \<noteq> CHR ''/'') r" and "w \<in> lang r"
  shows "CHR ''/'' \<notin> set w"
  using lang_all_cls [OF assms] by (auto simp: list_all_iff)

lemma name_component_comp:
  assumes "w \<in> lang name_component"
  shows "comp w"
proof -
  have "all_cls (\<lambda>c. c \<noteq> CHR ''/'') name_component"
    by (auto simp: name_component_def name_sep_def rplus_def)
  then have "CHR ''/'' \<notin> set w" using assms by (rule no_slash_class)
  with assms show ?thesis
    by (auto simp: name_component_def comp_def lang_rplus)
qed

lemma comp_no_dots: "comp w \<Longrightarrow> no_dots w"
  by (auto simp: comp_def no_dots_single)

lemma proxyNameRe_split:
  assumes "rmatch proxyNameRe s"
  shows "\<forall>seg \<in> set (split_on (CHR ''/'') s). comp seg"
proof -
  let ?A = "{u @ v |u v. u \<in> {''/''} \<and> v \<in> lang name_component}"
  obtain c w where s: "s = c @ w" "c \<in> lang name_component" "w \<in> star ?A"
    using assms by (auto simp: rmatch_lang proxyNameRe_def)
  have "\<exists>cs. (\<forall>x \<in> set cs. comp x) \<and> (\<forall>d. CHR ''/'' \<notin> set d \<longrightarrow> split_on (CHR ''/'') (d @ w) = d # cs)"
    using s(3)
  proof (induction rule: star.induct)
    case star_nil
    show ?case by (intro exI [of _ "[]"]) (simp add: split_on_no_sep)
  next
    case (star_app u v)
    then obtain x where x: "u = CHR ''/'' # x" "comp x" by (auto simp: name_component_comp)
    from star_app obtain cs where cs: "\<forall>y \<in> set cs. comp y"
        "\<And>d. CHR ''/'' \<notin> set d \<Longrightarrow> split_on (CHR ''/'') (d @ v) = d # cs" by blast
    have "split_on (CHR ''/'') (d @ u @ v) = d # x # cs" if "CHR ''/'' \<notin> set d" for d
      using that cs(2) [of x] x by (simp add: split_on_append_sep split_on_no_sep comp_def)
    with cs x show ?case by (intro exI [of _ "x # cs"]) simp
  qed
  then obtain cs where cs: "\<forall>x \<in> set cs. comp x"
      "\<And>d. CHR ''/'' \<notin> set d \<Longrightarrow> split_on (CHR ''/'') (d @ w) = d # cs" by blast
  from name_component_comp [OF s(2)] cs show ?thesis by (simp add: s(1) comp_def)
qed

lemma proxyNameRe_no_dots: "rmatch proxyNameRe s \<Longrightarrow> no_dots s"
  using proxyNameRe_split by (fastforce simp: no_dots_def comp_def)

section \<open>References and digests\<close>

lemma tag_not [simp]:
  "\<not> tag_first (CHR ''/'')" "\<not> tag_first (CHR ''.'')" "\<not> tag_rest (CHR ''/'')" "\<not> digest_enc (CHR ''/'')"
  "\<not> digest_sep (CHR ''/'')"
  by (simp_all add: tag_first_def tag_rest_def digest_enc_def digest_sep_def is_lower_def is_upper_def
      is_digit_def in_range_def)

lemma proxyRefRe_shape:
  assumes "rmatch proxyRefRe s"
  shows "CHR ''/'' \<notin> set s \<and> no_dots s"
proof -
  have "all_cls (\<lambda>c. c \<noteq> CHR ''/'') proxyRefRe"
    unfolding proxyRefRe_def rplus_def by (auto intro!: all_cls_rupto)
  then have no: "CHR ''/'' \<notin> set s" using assms no_slash_class by (simp add: rmatch_lang)
  have "s \<noteq> ''.'' \<and> s \<noteq> ''..''"
    using assms by (auto simp: rmatch_lang proxyRefRe_def lang_rplus Cons_eq_append_conv simp del: rupto.simps)
  with no show ?thesis by (simp add: no_dots_single)
qed

lemma to_lower_slash: "to_lower_ascii c = to_lower_ascii t \<Longrightarrow> (c = CHR ''/'') = (t = CHR ''/'')"
proof -
  have "to_lower_ascii c = CHR ''/'' \<longleftrightarrow> c = CHR ''/''" for c
  proof -
    have "to_lower_ascii c \<noteq> CHR ''/''" if "CHR ''A'' \<le> c" "c \<le> CHR ''Z''"
    proof
      assume "to_lower_ascii c = CHR ''/''"
      with that have "(of_char (char_of (of_char c + 32 :: nat) :: char) :: nat) = 47"
        by (simp add: to_lower_ascii_def)
      moreover have "(of_char c :: nat) \<le> 90" using that(2) by (simp add: less_eq_char_def)
      ultimately show False using that(1) by (simp add: less_eq_char_def)
    qed
    then show ?thesis by (auto simp: to_lower_ascii_def)
  qed
  then show "to_lower_ascii c = to_lower_ascii t \<Longrightarrow> (c = CHR ''/'') = (t = CHR ''/'')" by metis
qed

lemma equal_fold_slash: "equal_fold s t \<Longrightarrow> CHR ''/'' \<notin> set t \<Longrightarrow> CHR ''/'' \<notin> set s"
proof (induction s t rule: equal_fold.induct)
  case (2 s t ts)
  then obtain c cs where s: "s = c # cs" by (cases s) auto
  show ?case
  proof (cases "to_lower_ascii c = to_lower_ascii t")
    case True
    with 2 s to_lower_slash [OF True] show ?thesis by auto
  next
    case False
    show ?thesis
    proof (cases "to_lower_ascii t = CHR ''s'' \<and> has_prefix s [CHR 0xC5, CHR 0xBF]")
      case long_s: True
      then obtain r where r: "s = [CHR 0xC5, CHR 0xBF] @ r" by (auto simp: has_prefix_iff)
      with 2 s False long_s have "equal_fold (drop 2 s) ts" by auto
      from "2.IH"(2) [OF s False long_s this] 2(5) r show ?thesis by simp
    next
      case no_s: False
      then have k: "to_lower_ascii t = CHR ''k'' \<and> has_prefix s [CHR 0xE2, CHR 0x84, CHR 0xAA]"
        using 2(4) s False by (auto split: if_splits)
      then obtain r where r: "s = [CHR 0xE2, CHR 0x84, CHR 0xAA] @ r" by (auto simp: has_prefix_iff)
      have "equal_fold (drop 3 s) ts" using 2(4) s False no_s k by (auto split: if_splits)
      from "2.IH"(3) [OF s False no_s k this] 2(5) r show ?thesis by simp
    qed
  qed
qed simp

lemma equal_fold_no_dots:
  assumes "equal_fold dg (digestOf L b)" and "sha_hex L"
  shows "no_dots dg"
proof -
  have "is_hex_lower c \<Longrightarrow> c \<noteq> CHR ''/''" for c
    by (auto simp: is_hex_lower_def is_digit_def in_range_def)
  then have "CHR ''/'' \<notin> set (digestOf L b)"
    using assms(2) by (auto simp: sha_hex_def digestOf_def list_all_iff)
  then have no: "CHR ''/'' \<notin> set dg" using assms(1) equal_fold_slash by blast
  have "\<not> equal_fold ''.'' (digestOf L b)" "\<not> equal_fold ''..'' (digestOf L b)"
    by (simp_all add: digestOf_def to_lower_ascii_def has_prefix_def)
  with assms(1) no show ?thesis by (auto simp: no_dots_single)
qed

section \<open>Upstream requests stay on their paths\<close>

text \<open>The upload URLs of blobs and parts come from the registry; every other URL is built here.\<close>

fun given_url :: "op \<Rightarrow> bool" where
  "given_url (OpBlobPut r d) = True"
| "given_url (OpExtPart i) = True"
| "given_url _ = False"

definition stays :: "regClient \<Rightarrow> exchange \<Rightarrow> bool" where
  "stays c e \<longleftrightarrow> q_via (fst e) = c_id c \<and> (given_url (q_op (fst e)) \<or>
     (\<exists>path. q_url (fst e) = c_base c @ path \<and> no_dots path))"

fun safe_op :: "op \<Rightarrow> bool" where
  "safe_op (OpBlobHead r d) = (no_dots r \<and> no_dots d)"
| "safe_op (OpUploadStart r) = no_dots r"
| "safe_op (OpBlobPut r d) = True"
| "safe_op (OpManifestPut r d) = (no_dots r \<and> no_dots d)"
| "safe_op (OpManifestGet r d) = (no_dots r \<and> no_dots d)"
| "safe_op (OpBlobGet r d) = (no_dots r \<and> no_dots d)"
| "safe_op (OpForward r t) = (no_dots r \<and> no_dots t)"
| "safe_op OpDiscover = True"
| "safe_op (OpExtStart r d n) = True"
| "safe_op (OpExtPart i) = True"
| "safe_op (OpExtCommit r d n) = True"

lemma no_dots_v2:
  "no_dots r \<Longrightarrow> no_dots (''/v2/'' @ r)"
  "no_dots r \<Longrightarrow> no_dots d \<Longrightarrow> no_dots (''/v2/'' @ r @ ''/'' @ d)"
  "no_dots d \<Longrightarrow> no_dots (''blobs/'' @ d)"
  "no_dots d \<Longrightarrow> no_dots (''manifests/'' @ d)"
proof -
  have v: "no_dots ''v2''" "no_dots ''blobs''" "no_dots ''manifests''" by (simp_all add: no_dots_def)
  have "''/v2/'' @ r = CHR ''/'' # ''v2'' @ ''/'' @ r" by simp
  then show 1: "no_dots r \<Longrightarrow> no_dots (''/v2/'' @ r)" by (simp only: no_dots_Cons no_dots_append v)
  have "''/v2/'' @ r @ ''/'' @ d = CHR ''/'' # ''v2'' @ ''/'' @ r @ ''/'' @ d" by simp
  then show "no_dots r \<Longrightarrow> no_dots d \<Longrightarrow> no_dots (''/v2/'' @ r @ ''/'' @ d)"
    by (simp only: no_dots_Cons no_dots_append v)
  have "''blobs/'' @ d = ''blobs'' @ ''/'' @ d" "''manifests/'' @ d = ''manifests'' @ ''/'' @ d" by simp_all
  then show "no_dots d \<Longrightarrow> no_dots (''blobs/'' @ d)" "no_dots d \<Longrightarrow> no_dots (''manifests/'' @ d)"
    by (simp_all only: no_dots_append v)
qed

lemma safe_op_url:
  assumes "safe_op x" and "\<not> given_url x"
  shows "\<exists>path. url_of_op b x = Some (b @ path) \<and> no_dots path"
proof -
  have lits: "no_dots ''/v2/_oci/ext/discover''" "no_dots ''/v2/_directpush/v1/uploads''"
      "no_dots ''/v2/_directpush/v1/commit''" "no_dots ''uploads/''"
    by (simp_all add: no_dots_def)
  have two: "\<exists>path. b @ ''/v2/'' @ r @ ''/'' @ t = b @ path \<and> no_dots path"
    if "no_dots r" "no_dots t" for r t
    by (rule exI [of _ "''/v2/'' @ r @ ''/'' @ t"]) (use no_dots_v2(2) [OF that] in blast)
  show ?thesis
  proof (cases x)
    case (OpBlobHead r d)
    with assms two [of r "''blobs/'' @ d"] no_dots_v2(3) show ?thesis by auto
  next
    case (OpUploadStart r)
    with assms two [of r "''blobs/'' @ ''uploads/''"] no_dots_v2(3) [OF lits(4)] show ?thesis by auto
  next
    case (OpManifestPut r d)
    with assms two [of r "''manifests/'' @ d"] no_dots_v2(4) show ?thesis by auto
  next
    case (OpManifestGet r d)
    with assms two [of r "''manifests/'' @ d"] no_dots_v2(4) show ?thesis by auto
  next
    case (OpBlobGet r d)
    with assms two [of r "''blobs/'' @ d"] no_dots_v2(3) show ?thesis by auto
  next
    case (OpForward r t)
    with assms two [of r t] show ?thesis by auto
  qed (use assms lits in auto)
qed

lemma ev_stays:
  assumes "ev c ops e" and "\<And>x. ops x \<Longrightarrow> safe_op x"
  shows "stays c e"
  using assms safe_op_url [of "q_op (fst e)" "c_base c"]
  by (auto simp: ev_def stays_def req_ok_def split: option.splits)

lemma blob_op_safe: "blob_op repo dg x \<Longrightarrow> no_dots repo \<Longrightarrow> no_dots dg \<Longrightarrow> safe_op x"
  by (cases x) auto

definition valid_prefix :: "Proxy \<Rightarrow> bool" where
  "valid_prefix p \<longleftrightarrow> px_prefix p = '''' \<or> (\<exists>x. px_prefix p = x @ ''/'' \<and> rmatch proxyNameRe x)"

lemma newProxy_valid: "newProxy reg N i host pre opts s = Inr (p, P) \<Longrightarrow> valid_prefix p"
  by (auto simp: newProxy_def valid_prefix_def has_suffix_iff trim_suffix_def
      split: if_splits sum.splits prod.splits)

lemma upstreamRepo_no_dots:
  assumes "valid_prefix p" and "rmatch proxyNameRe repo"
  shows "no_dots (upstreamRepo p repo)"
  using assms proxyNameRe_no_dots no_dots_append
  by (auto simp: valid_prefix_def upstreamRepo_def)

lemma forward_stays:
  assumes "forward L E p r repo tail P = (resp, P')" and "no_dots (upstreamRepo p repo)" and "no_dots tail"
  shows "adds (stays (px_c p)) (px_st P) (px_st P')"
proof -
  have "adds (ev (px_c p) (\<lambda>x. x = OpForward (upstreamRepo p repo) tail)) (px_st P) (px_st P')"
    using assms(1)
    by (auto simp: forward_def Let_def ev_def req_ok_def split: sum.splits prod.splits
        dest!: newRequest_fields intro!: do_req_adds)
  then show ?thesis by (rule adds_mono) (use assms(2,3) in \<open>auto intro: ev_stays\<close>)
qed

lemma manifestPut_stays:
  assumes "manifestPut L E p r repo ref P = (resp, P')" and "no_dots (upstreamRepo p repo)" and "no_dots ref"
  shows "adds (stays (px_c p)) (px_st P) (px_st P')"
proof (cases "px_st P' = px_st P")
  case False
  then obtain raw mt x where "putManifest L E (px_c p) (upstreamRepo p repo) raw mt ref (px_st P) = (x, px_st P')"
    using assms(1) by (auto simp: manifestPut_def split: if_splits prod.splits sum.splits option.splits)
  from putManifest_adds [OF this] show ?thesis
    by (rule adds_mono) (use assms(2,3) in \<open>auto intro: ev_stays\<close>)
qed simp

lemma blobExists_stays:
  assumes "blobExists L E c repo dg act s = (r, s')" and "no_dots repo" and "no_dots dg"
  shows "adds (stays c) s s'"
  by (rule adds_mono [OF blobExists_adds [OF assms(1)]]) (use assms(2,3) in \<open>auto intro: ev_stays\<close>)

lemma adds_wire: "s_wire s1 = s_wire s \<Longrightarrow> s_wire s1' = s_wire s' \<Longrightarrow> adds P s1 s1' \<Longrightarrow> adds P s s'"
  by (simp add: adds_def)

lemma sessionPatch_wire:
  "sessionPatch L E r repo uid i us P = (resp, P') \<Longrightarrow> s_wire (px_st P') = s_wire (px_st P)"
  by (auto simp: sessionPatch_def Let_def split: if_splits prod.splits sum.splits dest!: session_copy_frame)

lemma sessionOp_stays:
  assumes "sessionOp L E p r repo uid i P = (resp, P')" and "no_dots (upstreamRepo p repo)"
    and "sha_hex L"
  shows "adds (stays (px_c p)) (px_st P) (px_st P')"
proof -
  obtain now w where clock: "clock E (s_world (px_st P)) = (now, w)" by fastforce
  let ?P1 = "upd_session i (\<lambda>u. u\<lparr>us_locked := True, us_lastUsed := now\<rparr>) (on_st (\<lambda>s. s\<lparr>s_world := w\<rparr>) P)"
  show ?thesis
  proof (cases "px_heap P i")
    case None
    with assms(1) clock show ?thesis by (auto simp: sessionOp_def Let_def intro: adds_same_wire)
  next
    case (Some u)
    let ?us = "u\<lparr>us_locked := True, us_lastUsed := now\<rparr>"
    obtain resp2 P2 where m: "sessionMethod L E p r repo uid i ?us ?P1 = (resp2, P2)" by fastforce
    have out: "P' = upd_session i (\<lambda>u. u\<lparr>us_locked := False\<rparr>) (expireIdleSessions E P2)"
      using assms(1) clock Some m by (simp add: sessionOp_def Let_def)
    have "adds (stays (px_c p)) (px_st ?P1) (px_st P2)"
    proof (cases "s_wire (px_st P2) = s_wire (px_st ?P1)")
      case True
      then show ?thesis by (rule adds_same_wire)
    next
      case False
      have put: "sessionPut L E p r repo uid i ?us ?P1 = (resp2, P2)"
        using m False by (auto simp: sessionMethod_def dest!: sessionPatch_wire split: if_splits)
      obtain x P3 where copy: "session_copy E i r ?P1 = (x, P3)" by fastforce
      note f1 = session_copy_frame [OF copy]
      obtain n where n: "x = Inr n" "equal_fold (header_get (hr_query r) ''digest'') (digestOf L (us_hash u @ hr_body r))"
        using put copy False f1
        by (cases x) (auto simp: sessionPut_def Let_def digestOfHash_digestOf split: if_splits)
      let ?P4 = "upd_session i (\<lambda>v. v\<lparr>us_size := us_size u + n\<rparr>) P3"
      obtain e P5 where cl: "session_close E i ?P4 = (e, P5)" by fastforce
      note f2 = session_close_frame [OF cl]
      obtain r6 s6 where push: "pushBlobFile L E (px_c p) (upstreamRepo p repo)
          \<lparr>d_mediaType = '''', d_digest = header_get (hr_query r) ''digest'', d_size = us_size u + n\<rparr>
          (us_file u) (px_st P5) = (r6, s6)" by fastforce
      have "adds (stays (px_c p)) (px_st P5) s6"
        by (rule adds_mono [OF conjunct1 [OF pushBlobFile_trace [OF push]]])
          (use assms(2,3) equal_fold_no_dots n(2) in \<open>auto intro!: ev_stays blob_op_safe\<close>)
      moreover have "s_wire (px_st P2) = s_wire s6"
        using put copy n cl push False f1 f2
        by (cases e; cases r6; auto simp: sessionPut_def Let_def digestOfHash_digestOf split: if_splits)
      ultimately show ?thesis using f1 f2 by (auto intro: adds_wire)
    qed
    then show ?thesis
      using expireIdleSessions_frame [of E P2] by (simp add: out adds_def)
  qed
qed

text \<open>What an upload's start adds to the wire is the check for the mounted blob.\<close>

lemma uploadStart_wire:
  assumes "uploadStart L E R p r repo P = (resp, P')"
    and "(if header_get (hr_query r) ''mount'' = '''' then s1 = px_st P
          else \<exists>x. blobExists L E (px_c p) (upstreamRepo p repo) (header_get (hr_query r) ''mount'')
                 PushScope (px_st P) = (x, s1))"
  shows "s_wire (px_st P') = s_wire s1"
proof -
  let ?m = "header_get (hr_query r) ''mount''"
  let ?head = "if ?m \<noteq> ''''
            then (case blobExists L E (px_c p) (upstreamRepo p repo) ?m PushScope (px_st P) of
                    (Inl e, s1) \<Rightarrow> (Some (upstreamError L e), s1)
                  | (Inr True, s1) \<Rightarrow> (Some (created repo ''blobs'' ?m), s1)
                  | (Inr False, s1) \<Rightarrow> (None, s1))
            else (None, px_st P)"
  obtain a t where "?head = (a, t)" by fastforce
  moreover from this have "t = s1"
    using assms(2) by (auto split: if_splits sum.splits bool.splits)
  ultimately have head: "?head = (a, s1)" by simp
  show ?thesis
  proof (cases a)
    case (Some x)
    with assms(1) head show ?thesis by (clarsimp simp: uploadStart_def Let_def)
  next
    case None
    obtain f s2 where st: "stagingFile E (px_stagingDir p) ''contain-proxy-upload-*'' s1 = (f, s2)"
      by fastforce
    then have w: "s_wire s2 = s_wire s1" by (cases rule: stagingFile_cases) simp_all
    show ?thesis
    proof (cases f)
      case (Inl e)
      with assms(1) head None st w show ?thesis by (clarsimp simp: uploadStart_def Let_def)
    next
      case (Inr name)
      obtain b w3 where rd: "R 16 (s_world s2) = (b, w3)" by fastforce
      obtain now w4 where clk: "clock E w3 = (now, w4)" by fastforce
      show ?thesis
        using assms(1) head None st w Inr rd clk
        by (cases b) (auto simp: uploadStart_def Let_def
            expireIdleSessions_frame [THEN conjunct2, THEN conjunct1])
    qed
  qed
qed

lemma serveHTTP_stays:
  assumes st: "serveHTTP L E R p r P = (resp, P')" and "valid_prefix p" and "sha_hex L"
    and mount: "header_get (hr_query r) ''mount'' = ''''"
  shows "adds (stays (px_c p)) (px_st P) (px_st P')"
  using serveHTTP_routed [of L E R p r P, unfolded st]
proof (cases rule: routed.cases)
  case (reads repo ref kind)
  have "no_dots (kind @ ref)" using reads proxyRefRe_shape no_dots_v2(3,4) by auto
  with reads assms(2) show ?thesis by (metis forward_stays upstreamRepo_no_dots)
next
  case (tags repo)
  have "no_dots ''tags/list''" by (simp add: no_dots_def)
  with tags assms(2) show ?thesis by (metis forward_stays upstreamRepo_no_dots)
next
  case (manifest repo ref)
  with assms(2) proxyRefRe_shape show ?thesis by (metis manifestPut_stays upstreamRepo_no_dots)
next
  case (start repo)
  then have "uploadStart L E R p r repo P = (resp, P')" by simp
  from uploadStart_wire [OF this, of "px_st P"] have "s_wire (px_st P') = s_wire (px_st P)"
    using mount by simp
  then show ?thesis by (rule adds_same_wire)
next
  case (continue repo uid)
  show ?thesis
  proof (cases "map_of (px_sessions P) uid")
    case None
    with continue show ?thesis by (simp add: uploadContinue_def)
  next
    case (Some i)
    with continue have "sessionOp L E p r repo uid i P = (resp, P')" by (simp add: uploadContinue_def)
    from sessionOp_stays [OF this upstreamRepo_no_dots] assms(2,3) continue show ?thesis by blast
  qed
qed (simp)

end
