(* ===== verification/Scripted_World.thy ===== *)
theory Scripted_World
  imports Image_Mirror
begin

text \<open>
  A concrete instance of the parameters, for the witnesses: a network that answers each request
  with the next outcome of a script, a clock that stands still, a disk that never fails, and a
  library with a 64-digit checksum in place of SHA-256. Nothing but witnesses mentions it.
\<close>

type_synonym script = "(string + response) list"

definition ok :: "nat \<Rightarrow> string + response" where
  "ok n = Inr \<lparr>r_status = n, r_hdrs = [], r_body = [], r_err = None\<rparr>"

definition answer :: "nat \<Rightarrow> (string \<times> string) list \<Rightarrow> bytes \<Rightarrow> string + response" where
  "answer n hs b = Inr \<lparr>r_status = n, r_hdrs = hs, r_body = b, r_err = None\<rparr>"

definition script_env :: "script env" where
  "script_env =
     \<lparr>http_do = (\<lambda>q w. case w of [] \<Rightarrow> (Inl ''connection refused'', []) | x # xs \<Rightarrow> (x, xs)),
      handshake = (\<lambda>i scope w. (Inr 7, w)),
      ctx_done = (\<lambda>w. False),
      clock = (\<lambda>w. (0, w)),
      part_order = (\<lambda>n w. [0..<n]),
      mkdir_all = (\<lambda>d w. (None, w)),
      create_temp = (\<lambda>d p w. (Inr (d @ ''/'' @ p), w)),
      write_err = (\<lambda>p b w. None),
      close_err = (\<lambda>p w. None),
      getenv = (\<lambda>k. ''''),
      temp_dir = ''/tmp''\<rparr>"

definition toy_sha :: "bytes \<Rightarrow> string" where
  "toy_sha b = itoa_nat (length b mod 10) @ replicate 63 (CHR ''0'')"

definition toy_doc :: "bytes \<Rightarrow> string + manifestDoc" where
  "toy_doc b = (if b = ''bad'' then Inl ''invalid character'' else
     Inr \<lparr>m_mediaType = '''', m_manifests = [], m_config = None, m_layers = []\<rparr>)"

definition toy_lib :: lib where
  "toy_lib =
     \<lparr>sha = toy_sha, parse_doc = toy_doc,
      parse_discover = (\<lambda>b e. Inr [(''_directpush'', [''_directpush/v1/uploads''])]),
      parse_session = (\<lambda>b e. Inl ''no session''),
      marshal = (\<lambda>j. ''{}''),
      url_err = (\<lambda>u. None),
      url_resolve = (\<lambda>b l. l),
      url_set_query = (\<lambda>u k v. u @ ''?'' @ k @ ''='' @ v),
      scope_of = (\<lambda>r a. ''repository:'' @ r @ '':'' @ a)\<rparr>"

definition toy_client :: regClient where
  "toy_client = \<lparr>c_id = 0, c_base = ''https://r.example'',
     c_ext = Some \<lparr>dp_threshold = 8, dp_partSize = 0\<rparr>\<rparr>"

definition start_state :: "script \<Rightarrow> (string \<rightharpoonup> bytes) \<Rightarrow> script st" where
  "start_state w disk = \<lparr>s_world = w, s_disk = disk, s_wire = [],
     s_heap = (\<lambda>i. \<lparr>cs_clients = Map.empty, cs_usable = False, cs_discovered = False\<rparr>)\<rparr>"

lemmas toy_defs = script_env_def toy_lib_def toy_client_def start_state_def ok_def answer_def
  toy_doc_def

text \<open>The checksum has the shape of SHA-256's hexadecimal form.\<close>

lemma itoa_nat_digit: "n < 10 \<Longrightarrow> itoa_nat n = [char_of (48 + n)]"
  by (subst itoa_nat.simps) simp

lemma toy_sha_hex: "sha_hex toy_lib"
proof -
  have "is_hex_lower (char_of (48 + n))" if "n < 10" for n :: nat
  proof -
    from that have "n \<in> {0,1,2,3,4,5,6,7,8,9}" by auto
    then show ?thesis
      by (elim insertE emptyE) (simp_all add: is_hex_lower_def is_digit_def in_range_def, code_simp+)
  qed
  then show ?thesis
    by (auto simp: sha_hex_def toy_lib_def toy_sha_def itoa_nat_digit list_all_iff
        is_hex_lower_def is_digit_def in_range_def)
qed

section \<open>A layout and a registry\<close>

definition demo_digest :: "nat \<Rightarrow> string" where
  "demo_digest n = ''sha256:'' @ itoa_nat n @ replicate 63 (CHR ''0'')"

definition demo_doc :: "bytes \<Rightarrow> string + manifestDoc" where
  "demo_doc b =
     (if b = ''ix'' then Inr \<lparr>m_mediaType = ''index'',
         m_manifests = [\<lparr>d_mediaType = ''manifest'', d_digest = demo_digest 3, d_size = 3\<rparr>],
         m_config = None, m_layers = []\<rparr>
      else if b = ''man'' then Inr \<lparr>m_mediaType = '''', m_manifests = [],
         m_config = Some \<lparr>d_mediaType = ''config'', d_digest = demo_digest 4, d_size = 4\<rparr>,
         m_layers = [\<lparr>d_mediaType = ''layer'', d_digest = demo_digest 5, d_size = 5\<rparr>]\<rparr>
      else Inl ''invalid character'')"

definition demo_lib :: lib where
  "demo_lib = toy_lib\<lparr>parse_doc := demo_doc\<rparr>"

definition demo_disk :: "string \<rightharpoonup> bytes" where
  "demo_disk = [''/l/index.json'' \<mapsto> ''ix'',
     ''/l/blobs/sha256/'' @ drop 7 (demo_digest 3) \<mapsto> ''man'',
     ''/l/blobs/sha256/'' @ drop 7 (demo_digest 4) \<mapsto> ''conf'',
     ''/l/blobs/sha256/'' @ drop 7 (demo_digest 5) \<mapsto> ''layer'']"

definition demo_ref :: parsed_ref where
  "demo_ref = \<lparr>pr_scheme = ''https'', pr_host = ''r.example'', pr_repo = ''app'',
      pr_ident = ''v1'', pr_digest = None\<rparr>"

definition demo_names :: names where
  "demo_names = \<lparr>parse_ref = (\<lambda>b s. if s = ''pinned'' then Inr (demo_ref\<lparr>pr_digest := Some (demo_digest 3)\<rparr>)
      else Inr demo_ref), keychain = (\<lambda>k h. Inr ''anonymous'')\<rparr>"

definition demo_opts :: Options where
  "demo_opts = \<lparr>o_auth = None, o_keychain = None, o_extThreshold = 0, o_partSize = 0, o_stagingDir = ''/s''\<rparr>"

text \<open>A registry that lacks the config and has the layer.\<close>

definition demo_script :: script where
  "demo_script = [ok 404, answer 202 [(''Location'', ''/u'')] [], ok 201, ok 200, ok 201]"

definition demo_push :: "(unit, script) result option" where
  "demo_push = push demo_lib script_env demo_names 5 0 ''/l'' ''r.example/app:v1'' demo_opts
     (start_state demo_script demo_disk)"

lemma demo_push_ok: "demo_push \<noteq> None \<and> fst (the demo_push) = Inr ()"
  by code_simp

lemma demo_push_run:
  obtains s' where "push demo_lib script_env demo_names 5 0 ''/l'' ''r.example/app:v1'' demo_opts
     (start_state demo_script demo_disk) = Some (Inr (), s')" "s' = snd (the demo_push)"
  using demo_push_ok unfolding demo_push_def by (metis option.collapse prod.collapse)

definition demo_mirror_script :: script where
  "demo_mirror_script = [answer 200 [] ''man'', ok 404, answer 200 [] ''conf'', ok 404,
     answer 202 [(''Location'', ''/u'')] [], ok 201, ok 200, ok 201]"

definition demo_mirror_opts :: MirrorOptions where
  "demo_mirror_opts = \<lparr>mo_src = \<lparr>so_auth = None, so_keychain = None, so_plainHTTP = True\<rparr>, mo_dst = demo_opts\<rparr>"

definition demo_mirror :: "(unit, script) result option" where
  "demo_mirror = mirror demo_lib script_env demo_names 5 0 1 ''pinned'' ''r.example/app:v1'' demo_mirror_opts
     (start_state demo_mirror_script (\<lambda>p. None))"

lemma demo_mirror_ok: "demo_mirror \<noteq> None \<and> fst (the demo_mirror) = Inr ()"
  by code_simp

lemma demo_mirror_run:
  obtains s' where "mirror demo_lib script_env demo_names 5 0 1 ''pinned'' ''r.example/app:v1'' demo_mirror_opts
     (start_state demo_mirror_script (\<lambda>p. None)) = Some (Inr (), s')" "s' = snd (the demo_mirror)"
  using demo_mirror_ok unfolding demo_mirror_def by (metis option.collapse prod.collapse)

lemma demo_refs: "parse_ref demo_names b ''r.example/app:v1'' = Inr demo_ref"
    "parse_ref demo_names b ''pinned'' = Inr (demo_ref\<lparr>pr_digest := Some (demo_digest 3)\<rparr>)"
  by (simp_all add: demo_names_def)

lemma start_state_wire [simp]: "s_wire (start_state w disk) = []"
  by (simp add: start_state_def)

text \<open>Pushes of one blob: accepted, refused at the second attempt.\<close>

definition demo_blob :: "(unit, script) result" where
  "demo_blob = pushBlobFile toy_lib script_env toy_client ''app''
     \<lparr>d_mediaType = '''', d_digest = ''sha256:x'', d_size = 1\<rparr> ''/f''
     (start_state [ok 404, answer 202 [(''Location'', ''/u'')] [], ok 201] [''/f'' \<mapsto> ''x''])"

lemma demo_blob_run:
  "pushBlobFile toy_lib script_env toy_client ''app''
     \<lparr>d_mediaType = '''', d_digest = ''sha256:x'', d_size = 1\<rparr> ''/f''
     (start_state [ok 404, answer 202 [(''Location'', ''/u'')] [], ok 201] [''/f'' \<mapsto> ''x''])
   = (fst demo_blob, snd demo_blob)"
  by (simp add: demo_blob_def)

definition demo_refusal :: "(unit, script) result" where
  "demo_refusal = pushBlobStandard toy_lib script_env toy_client ''app''
     \<lparr>d_mediaType = '''', d_digest = ''sha256:x'', d_size = 1\<rparr> ''/f''
     (start_state [Inl ''reset'', ok 400] [''/f'' \<mapsto> ''x''])"

lemma demo_refusal_run:
  "pushBlobStandard toy_lib script_env toy_client ''app''
     \<lparr>d_mediaType = '''', d_digest = ''sha256:x'', d_size = 1\<rparr> ''/f''
     (start_state [Inl ''reset'', ok 400] [''/f'' \<mapsto> ''x'']) = (fst demo_refusal, snd demo_refusal)"
  by (simp add: demo_refusal_def)

text \<open>A registry with the extension: a session of three parts of four bytes.\<close>

definition demo_session :: extStartResponse where
  "demo_session = \<lparr>se_exists = False, se_key = ''k'', se_uploadId = ''u'', se_partSize = 4,
     se_urls = [''/1'', ''/2'', ''/3''], se_expiresSeconds = 0, se_headers = [(''X-Pin'', ''1'')],
     se_deadline = None\<rparr>"

definition demo_ext_lib :: lib where
  "demo_ext_lib = toy_lib\<lparr>parse_session := (\<lambda>b e. if b = ''session'' then Inr demo_session else Inl ''eof'')\<rparr>"

definition demo_file :: bytes where
  "demo_file = ''0123456789''"

definition demo_desc :: descriptor where
  "demo_desc = \<lparr>d_mediaType = '''', d_digest = ''sha256:x'', d_size = 10\<rparr>"

definition demo_parts :: "(extPart list, script) result" where
  "demo_parts = extUploadParts demo_ext_lib script_env toy_client demo_session demo_desc demo_file
     (start_state [ok 200, ok 200, ok 200] (\<lambda>p. None))"

lemma demo_parts_run:
  "extUploadParts demo_ext_lib script_env toy_client demo_session demo_desc demo_file
     (start_state [ok 200, ok 200, ok 200] (\<lambda>p. None)) = (fst demo_parts, snd demo_parts)"
  by (simp add: demo_parts_def)

text \<open>A file above the threshold, pushed directly; and one whose session is declined.\<close>

definition demo_direct :: "(unit, script) result" where
  "demo_direct = pushBlobFile demo_ext_lib script_env toy_client ''app'' demo_desc ''/f''
     (start_state [ok 404, ok 200, answer 200 [] ''session'', ok 200, ok 200, ok 200, ok 200]
        [''/f'' \<mapsto> demo_file])"

lemma demo_direct_run:
  "pushBlobFile demo_ext_lib script_env toy_client ''app'' demo_desc ''/f''
     (start_state [ok 404, ok 200, answer 200 [] ''session'', ok 200, ok 200, ok 200, ok 200]
        [''/f'' \<mapsto> demo_file]) = (fst demo_direct, snd demo_direct)"
  by (simp add: demo_direct_def)

definition demo_declined :: "(bool, script) result" where
  "demo_declined = tryDirectPush demo_ext_lib script_env toy_client ''app'' demo_desc ''/f''
     (start_state [ok 200, ok 501, ok 404, ok 503] [''/f'' \<mapsto> demo_file])"

lemma demo_declined_run:
  "tryDirectPush demo_ext_lib script_env toy_client ''app'' demo_desc ''/f''
     (start_state [ok 200, ok 501, ok 404, ok 503] [''/f'' \<mapsto> demo_file])
   = (fst demo_declined, snd demo_declined)"
  by (simp add: demo_declined_def)

text \<open>Two sessions whose URLs both expire at once.\<close>

definition demo_expired :: "(unit, script) result" where
  "demo_expired = pushBlobExt demo_ext_lib script_env toy_client \<lparr>dp_threshold = 8, dp_partSize = 0\<rparr> ''app''
     demo_desc ''/f''
     (start_state [answer 200 [] ''session'', ok 403, answer 200 [] ''session'', ok 403] [''/f'' \<mapsto> demo_file])"

lemma demo_expired_run:
  "pushBlobExt demo_ext_lib script_env toy_client \<lparr>dp_threshold = 8, dp_partSize = 0\<rparr> ''app''
     demo_desc ''/f''
     (start_state [answer 200 [] ''session'', ok 403, answer 200 [] ''session'', ok 403] [''/f'' \<mapsto> demo_file])
   = (fst demo_expired, snd demo_expired)"
  by (simp add: demo_expired_def)

end
