(* ===== verification/Oci_Properties.thy ===== *)
theory Oci_Properties
  imports Proxy_Paths Scripted_World "HOL-Library.Multiset"
begin

text \<open>
  The properties of \<open>pkg/ocipush\<close>: pushing a layout, mirroring an image, the direct-upload extension,
  the monolithic upload and its client, each with a run in the scripted world of
  \<open>Scripted_World\<close> that meets its hypotheses. A client is fresh when no request was sent
  through its number yet: \<open>newRegClient\<close> returns a new pointer.
\<close>

section \<open>Fresh clients\<close>

definition fresh_client :: "nat \<Rightarrow> 'w st \<Rightarrow> bool" where
  "fresh_client i s \<longleftrightarrow> (\<forall>e \<in> set (s_wire s). q_via (fst e) \<noteq> i)"

lemma fresh_start [simp]: "fresh_client i (start_state w disk)"
  by (simp add: fresh_client_def)

lemma fresh_wire: "fresh_client i s \<Longrightarrow> s_wire s' = s_wire s \<Longrightarrow> fresh_client i s'"
  by (simp add: fresh_client_def)

lemma fresh_ready: "fresh_client (c_id c) s \<Longrightarrow> justified (put_ready L c repo) (s_wire s)"
  by (auto simp: justified_def put_ready_def put_event_def fresh_client_def)

lemma fresh_ext_inv:
  assumes "fresh_client (c_id c) s" and "\<not> cs_usable (s_heap s' (c_id c))"
    and "\<not> cs_discovered (s_heap s' (c_id c))" and "s_wire s' = s_wire s"
  shows "ext_inv L c s'"
proof -
  have "filter (discovers c) (s_wire s) = []"
    using assms(1) by (auto simp: fresh_client_def discovers_def filter_empty_conv)
  moreover have "justified (after_discovery L c) (s_wire s)"
    using assms(1) by (auto simp: justified_def after_discovery_def ext_event_def fresh_client_def)
  ultimately show ?thesis using assms(2-4) by (simp add: ext_inv_def)
qed

text \<open>Only the number of a client matters to what is said about the wire.\<close>

lemma client_id_cong:
  assumes "c_id c = c_id c'"
  shows "put_ready L c = put_ready L c'" and "has_blob L c = has_blob L c'"
    and "manifest_put c = manifest_put c'" and "after_discovery L c = after_discovery L c'"
    and "discovers c = discovers c'"
  using assms
  by (auto simp: fun_eq_iff put_ready_def put_event_def has_blob_def blob_ok_def has_manifest_def
      manifest_put_def after_discovery_def ext_event_def advertises_def discovers_def)

section \<open>Push\<close>

text \<open>
  C1: \<open>Push\<close> never hands the registry a manifest whose parts it may lack. At every manifest PUT, the
  manifest's bytes parse, the registry has confirmed every blob they name (config and layers) and
  accepted every child manifest they name, byte-exact under its digest, earlier on the wire. This
  holds whatever the registry answers and whether or not the push succeeds.
\<close>

theorem push_order:
  assumes "push L E N n i dir img opts s = Some (r, s')" and "parse_ref N False img = Inr ref"
    and "c_id c = i" and "fresh_client i s"
  shows "justified (put_ready L c (pr_repo ref)) (s_wire s')"
  using assms(1)
proof (cases rule: push_cases)
  case (early e)
  with assms(3,4) show ?thesis using fresh_ready [of c s L "pr_repo ref"] by simp
next
  case (walked ref' p h raw mt)
  have id: "c_id c = c_id (pu_c p)" and ref: "pr_repo ref = pu_repo p" using walked assms(2,3) by auto
  have "justified (put_ready L (pu_c p) (pu_repo p)) (s_wire (s\<lparr>s_heap := (s_heap s)(i := h)\<rparr>))"
    using fresh_ready [of "pu_c p" s L "pu_repo p"] assms(4) walked(4) by simp
  from layout.walk_ready [OF walked(9) this] show ?thesis
    by (simp add: ref client_id_cong(1) [OF id])
qed

theorem push_order_witness:
  "justified (put_ready demo_lib toy_client ''app'') (s_wire (snd (the demo_push)))"
proof -
  obtain s' where "push demo_lib script_env demo_names 5 0 ''/l'' ''r.example/app:v1'' demo_opts
     (start_state demo_script demo_disk) = Some (Inr (), s')" "s' = snd (the demo_push)"
    by (rule demo_push_run)
  with push_order [OF this(1) demo_refs(1), of toy_client] show ?thesis
    by (simp add: demo_ref_def toy_client_def)
qed





section \<open>Mirror\<close>

text \<open>
  C4: \<open>Mirror\<close> sends nothing it has not verified. Of the requests it adds, those to the source are
  GETs; a blob PUT carries bytes whose SHA-256 is the digest it is put under (up to letter case);
  a manifest PUT carries bytes that hash to the reference it is put under, except for the root,
  which goes under the destination's identifier and, when the source reference pins a digest,
  hashes to that digest.
\<close>

theorem mirror_integrity:
  assumes "mirror L E N n i j srcRef dstRef opts s = Some (r, s')" and "i \<noteq> j"
    and "parse_ref N (so_plainHTTP (mo_src opts)) srcRef = Inr src" and "parse_ref N False dstRef = Inr dst"
  shows "\<exists>xs. s_wire s' = s_wire s @ xs \<and> (\<forall>e \<in> set xs.
     (q_via (fst e) = i \<longrightarrow> q_meth (fst e) = ''GET'')
     \<and> (\<forall>repo dg. q_op (fst e) = OpBlobPut repo dg \<longrightarrow> equal_fold dg (digestOf L (q_body (fst e))))
     \<and> (\<forall>repo ref. q_op (fst e) = OpManifestPut repo ref \<longrightarrow>
          digestOf L (q_body (fst e)) = ref
          \<or> ref = pr_ident dst \<and> pr_digest src \<in> {None, Some (digestOf L (q_body (fst e)))}))"
    (is "\<exists>xs. _ \<and> (\<forall>e \<in> set xs. ?ok e)")
proof -
  have get: "?ok e" if "mirror_get m e" for m e using that by (auto simp: mirror_get_def)
  have "adds ?ok s s'"
    using assms(1)
  proof (cases rule: mirror_cases)
    case (early e)
    then show ?thesis by (auto intro: adds_same_wire)
  next
    case (fetched e m s2)
    then have "adds ?ok s2 s'" using get by (blast intro: adds_mono)
    with fetched(2) show ?thesis by (simp add: adds_def)
  next
    case (walked src' dst' m raw mt s2 s3)
    have "mirror_inv L m s2 s'" by (rule mirror.walk_inv [OF walked(16,14)])
    then obtain xs where xs: "s_wire s' = s_wire s @ xs" "\<forall>e \<in> set xs. mirror_event L m e"
      using walked(9) by (auto simp: mirror_inv_def adds_def)
    have "adds (named_right L (mi_dst m) (mi_dstRepo m) (pr_ident dst) raw) s2 s'"
    proof (rule adds_trans)
      show "adds (named_right L (mi_dst m) (mi_dstRepo m) (pr_ident dst) raw) s2 s3"
        by (rule adds_mono [OF walked(13)]) (auto intro: named_right_quiet simp: mirror_get_quiet)
      show "adds (named_right L (mi_dst m) (mi_dstRepo m) (pr_ident dst) raw) s3 s'"
        using mirror.walk_adds [OF walked(16)] walked(2) assms(4) by simp
    qed
    then have named: "\<forall>e \<in> set xs. named_right L (mi_dst m) (mi_dstRepo m) (pr_ident dst) raw e"
      using xs(1) walked(9) by (auto simp: adds_def)
    have "?ok e" if "e \<in> set xs" for e
      using that xs(2) named walked(1,5,6,15) assms(2,3)
      by (fastforce simp: mirror_event_def named_right_def put_event_def)
    with xs(1) show ?thesis by (auto simp: adds_def)
  qed
  then show ?thesis by (auto simp: adds_def)
qed

theorem mirror_integrity_witness:
  "list_all (\<lambda>e. case q_op (fst e) of
        OpBlobPut repo dg \<Rightarrow> equal_fold dg (digestOf demo_lib (q_body (fst e))) | _ \<Rightarrow> True)
     (s_wire (snd (the demo_mirror)))"
proof -
  obtain s' where "mirror demo_lib script_env demo_names 5 0 1 ''pinned'' ''r.example/app:v1'' demo_mirror_opts
     (start_state demo_mirror_script (\<lambda>p. None)) = Some (Inr (), s')" "s' = snd (the demo_mirror)"
    by (rule demo_mirror_run)
  with mirror_integrity [OF this(1) _ demo_refs(2,1)] show ?thesis
    by (auto simp: list_all_iff split: op.split)
qed

text \<open>
  C5: \<open>Mirror\<close> keeps the order \<open>Push\<close> keeps: a manifest reaches the destination after every blob and
  every child manifest it names.
\<close>

theorem mirror_order:
  assumes "mirror L E N n i j srcRef dstRef opts s = Some (r, s')" and "parse_ref N False dstRef = Inr dst"
    and "c_id c = j" and "fresh_client j s"
  shows "justified (put_ready L c (pr_repo dst)) (s_wire s')"
  using assms(1)
proof (cases rule: mirror_cases)
  case (early e)
  with assms(3,4) show ?thesis using fresh_ready [of c s L "pr_repo dst"] by simp
next
  case (fetched e m s2)
  have "justified (put_ready L c (pr_repo dst)) (s_wire s2)"
    using fresh_ready [of c s L "pr_repo dst"] assms(3,4) fetched(2) by simp
  from ready_quiet_adds [OF this adds_mono [OF fetched(7) mirror_get_quiet]] show ?thesis .
next
  case (walked src dst' m raw mt s2 s3)
  have id: "c_id c = c_id (mi_dst m)" and repo: "pr_repo dst = mi_dstRepo m" using walked assms(2,3) by auto
  have "justified (put_ready L c (pr_repo dst)) (s_wire s2)"
    using fresh_ready [of c s L "pr_repo dst"] assms(3,4) walked(9) by simp
  from ready_quiet_adds [OF this adds_mono [OF walked(13) mirror_get_quiet]]
  have "justified (put_ready L (mi_dst m) (mi_dstRepo m)) (s_wire s3)"
    by (simp add: repo client_id_cong(1) [OF id])
  from mirror.walk_ready [OF walked(16) this] show ?thesis
    by (simp add: repo client_id_cong(1) [OF id])
qed

theorem mirror_order_witness:
  "justified (put_ready demo_lib (toy_client\<lparr>c_id := 1\<rparr>) ''app'') (s_wire (snd (the demo_mirror)))"
proof -
  obtain s' where "mirror demo_lib script_env demo_names 5 0 1 ''pinned'' ''r.example/app:v1'' demo_mirror_opts
     (start_state demo_mirror_script (\<lambda>p. None)) = Some (Inr (), s')" "s' = snd (the demo_mirror)"
    by (rule demo_mirror_run)
  with mirror_order [OF this(1) demo_refs(1), of "toy_client\<lparr>c_id := 1\<rparr>"] show ?thesis
    by (simp add: demo_ref_def toy_client_def)
qed

text \<open>
  C6: \<open>Mirror\<close> leaves no staging file behind: whatever happens, the files on disk afterwards are the
  files that were there before.
\<close>

theorem mirror_cleans_staging:
  assumes "mirror L E N n i j srcRef dstRef opts s = Some (r, s')"
  shows "s_disk s' = s_disk s"
  using assms
proof (cases rule: mirror_cases)
  case (walked src dst m raw mt s2 s3)
  have "mirror_inv L m s2 s'" by (rule mirror.walk_inv [OF walked(16,14)])
  with walked(10) show ?thesis by (simp add: mirror_inv_def)
qed (simp_all add: mirror_inv_def)

theorem mirror_cleans_staging_witness: "s_disk (snd (the demo_mirror)) = (\<lambda>p. None)"
proof -
  obtain s' where "mirror demo_lib script_env demo_names 5 0 1 ''pinned'' ''r.example/app:v1'' demo_mirror_opts
     (start_state demo_mirror_script (\<lambda>p. None)) = Some (Inr (), s')" "s' = snd (the demo_mirror)"
    by (rule demo_mirror_run)
  with mirror_cleans_staging [OF this(1)] show ?thesis by (simp add: start_state_def)
qed

text \<open>
  The mirror's traversal returns when the chains of digests under the root are bounded, and on
  success the destination has accepted the root's bytes under the requested reference.
\<close>

theorem pushTree_terminates:
  assumes "depth_le L n raw" and "n < k"
  shows "\<exists>r s'. pushTree L E m k raw mt ref s = Some (r, s')
    \<and> (r = Inr () \<longrightarrow> (\<exists>e \<in> set (s_wire s'). manifest_put (mi_dst m) (mi_dstRepo m) ref raw e))"
  using mirror.walk_total [OF assms] mirror.walk_Inr unfolding pushTree_walk by fastforce

theorem pushTree_terminates_witness:
  "\<exists>r s'. pushTree toy_lib script_env \<lparr>mi_src = toy_client, mi_dst = toy_client\<lparr>c_id := 1\<rparr>, mi_srcRepo = ''a'',
     mi_dstRepo = ''b'', mi_stagingDir = ''/s''\<rparr> 1 ''bad'' '''' ''v1'' (start_state [] (\<lambda>p. None)) = Some (r, s')"
proof -
  have "depth_le toy_lib 0 ''bad''" by (rule depth_le.leaf) (simp add: toy_defs)
  from pushTree_terminates [OF this zero_less_one] show ?thesis by blast
qed

section \<open>One blob\<close>

text \<open>
  C7: \<open>pushBlobFile\<close> sends only requests for this blob and this repository, each to the URL its kind
  prescribes and with credentials exactly when it does not go to a presigned storage URL; it leaves
  the files alone; and when it reports success the registry has confirmed the blob: by a HEAD, an
  accepted upload, a commit, or a session answer that says it exists.
\<close>

theorem pushBlobFile_spec:
  assumes "pushBlobFile L E c repo d path s = (r, s')"
  shows "\<exists>xs. s_wire s' = s_wire s @ xs
    \<and> (\<forall>e \<in> set xs. q_via (fst e) = c_id c \<and> blob_op repo (d_digest d) (q_op (fst e))
          \<and> (q_auth (fst e) = None \<longleftrightarrow> is_part (q_op (fst e)))
          \<and> (\<forall>u. url_of_op (c_base c) (q_op (fst e)) = Some u \<longrightarrow> q_url (fst e) = u)
          \<and> (\<forall>rp dg. q_op (fst e) = OpBlobPut rp dg \<longrightarrow>
               Some (q_body (fst e)) = s_disk s path \<and> q_len (fst e) = Some (d_size d)))
    \<and> s_disk s' = s_disk s
    \<and> (r = Inr () \<longrightarrow> has_blob L c repo (d_digest d) (s_wire s'))"
proof -
  have "adds (\<lambda>e. ev c (blob_op repo (d_digest d)) e \<and> carries d (s_disk s path) e) s s'"
    using pushBlobFile_trace [OF assms] pushBlobFile_carries [OF assms] by (intro adds_conj) simp_all
  then show ?thesis
    using pushBlobFile_trace [OF assms]
    by (fastforce simp: adds_def ev_def req_ok_def carries_def keeps_def)
qed

theorem pushBlobFile_spec_witness:
  "fst demo_blob = Inr () \<and> has_blob toy_lib toy_client ''app'' ''sha256:x'' (s_wire (snd demo_blob))"
proof -
  have "fst demo_blob = Inr ()" by code_simp
  with pushBlobFile_spec [OF demo_blob_run] show ?thesis by auto
qed

text \<open>
  C8: the monolithic upload opens at most three sessions, never sends anything again once the
  registry refused the blob (a 4xx other than 429), and on success its last request was the PUT of
  exactly the file's bytes, answered with 201.
\<close>

theorem pushBlobStandard_retries:
  assumes "pushBlobStandard L E c repo d path s = (r, s')"
  shows "\<exists>xs. s_wire s' = s_wire s @ xs
    \<and> length (filter (starts_upload repo) xs) \<le> 3
    \<and> (\<forall>k < length xs. refused (xs ! k) \<longrightarrow> Suc k = length xs)
    \<and> (r = Inr () \<longrightarrow> xs \<noteq> [] \<and>
         (\<exists>b. s_disk s path = Some b \<and> blob_put_ok c repo (d_digest d) b (last xs)))"
proof -
  obtain xs where xs: "s_wire s' = s_wire s @ xs"
      "retry_trace c repo (d_digest d) (s_disk s path) (Suc standardUploadRetries) r xs"
    using pushBlobStandard_trace [OF assms] by blast
  have "Suc k = length xs" if "k < length xs" "refused (xs ! k)" for k
  proof (rule ccontr)
    assume "Suc k \<noteq> length xs"
    with that have "xs ! k \<in> set (butlast xs)"
      by (metis Suc_lessI in_set_conv_nth length_butlast nth_butlast Suc_less_eq2 diff_Suc_1)
    with xs(2) that(2) show False by (auto simp: retry_trace_def)
  qed
  with xs show ?thesis by (auto simp: retry_trace_def standardUploadRetries_def)
qed

theorem pushBlobStandard_retries_witness:
  "length (s_wire (snd demo_refusal)) = 2 \<and> refused (s_wire (snd demo_refusal) ! 1)
   \<and> \<not> refused (s_wire (snd demo_refusal) ! 0) \<and> length (filter (starts_upload ''app'') (s_wire (snd demo_refusal))) \<le> 3"
proof -
  have "length (s_wire (snd demo_refusal)) = 2 \<and> refused (last (s_wire (snd demo_refusal)))" by code_simp
  then have "length (s_wire (snd demo_refusal)) = 2" "refused (s_wire (snd demo_refusal) ! 1)"
    by (simp, metis One_nat_def diff_Suc_1 last_conv_nth length_0_conv nat.distinct(1) numeral_2_eq_2)
  with pushBlobStandard_retries [OF demo_refusal_run] show ?thesis by (auto dest: spec [of _ 0])
qed

section \<open>The direct-upload extension\<close>

text \<open>
  C9: the extension is used only where it was advertised. In a push by a fresh client there is at
  most one discovery request, and every request of the extension (session, part, commit) comes
  after a discovery answer that advertises it.
\<close>

theorem push_extension_discipline:
  assumes "push L E N n i dir img opts s = Some (r, s')" and "c_id c = i" and "fresh_client i s"
  shows "length (filter (discovers c) (s_wire s')) \<le> 1 \<and> justified (after_discovery L c) (s_wire s')"
  using assms(1)
proof (cases rule: push_cases)
  case (early e)
  have "filter (discovers c) (s_wire s) = []"
    using assms(2,3) by (auto simp: fresh_client_def discovers_def filter_empty_conv)
  moreover have "justified (after_discovery L c) (s_wire s)"
    using assms(2,3) by (auto simp: justified_def after_discovery_def ext_event_def fresh_client_def)
  ultimately show ?thesis using early by simp
next
  case (walked ref p h raw mt)
  have id: "c_id c = c_id (pu_c p)" using walked(4) assms(2) by simp
  have "ext_inv L (pu_c p) (s\<lparr>s_heap := (s_heap s)(i := h)\<rparr>)"
    using walked(4,6,7) assms(3) by (intro fresh_ext_inv [where s = s]) simp_all
  from layout.walk_inv [OF walked(9) this] show ?thesis
    by (auto simp: ext_inv_def client_id_cong(4,5) [OF id] split: if_splits)
qed

theorem push_extension_discipline_witness:
  "length (filter (discovers toy_client) (s_wire (snd (the demo_push)))) \<le> 1"
proof -
  obtain s' where "push demo_lib script_env demo_names 5 0 ''/l'' ''r.example/app:v1'' demo_opts
     (start_state demo_script demo_disk) = Some (Inr (), s')" "s' = snd (the demo_push)"
    by (rule demo_push_run)
  with push_extension_discipline [OF this(1), of toy_client] show ?thesis by (simp add: toy_client_def)
qed

text \<open>
  C10: the parts of a successful direct upload tile the file. For a session of n URLs with a
  positive part size and a file of at most 2^62 bytes, whatever order the goroutines take effect
  in, exactly n requests went out, without credentials; the i-th URL got the i-th slice of the
  file; no offset overflowed; the slices in order are a prefix of the file, the whole file when n
  parts reach its end; and the parts are reported with the numbers 1 to n.
\<close>

theorem parts_tile_file:
  assumes "extUploadParts L E c session d content s = (Inr parts, s')"
    and "0 < sint (se_partSize session)" and "d_size d = of_nat (length content)"
    and "length content \<le> 2 ^ 62"
    and "mset (part_order E (length (se_urls session)) (s_world s)) = mset [0..<length (se_urls session)]"
  shows "\<exists>xs. s_wire s' = s_wire s @ xs \<and> length xs = length (se_urls session)
     \<and> (\<forall>i < length (se_urls session). \<exists>e \<in> set xs. q_op (fst e) = OpExtPart (Suc i)
           \<and> q_url (fst e) = se_urls session ! i \<and> q_auth (fst e) = None
           \<and> q_body (fst e) = part_bytes session content i
           \<and> i * nat (sint (se_partSize session)) < length content)
     \<and> concat (map (part_bytes session content) [0..<length (se_urls session)])
         = take (length (se_urls session) * nat (sint (se_partSize session))) content
     \<and> map p_number parts = [1..<Suc (length (se_urls session))]"
proof -
  let ?n = "length (se_urls session)"
  let ?order = "filter (\<lambda>i. i < ?n) (part_order E ?n (s_world s))"
  let ?init = "replicate ?n \<lparr>p_number = 0, p_etag = ''''\<rparr>"
  define p where "p = nat (sint (se_partSize session))"
  have p: "sint (se_partSize session) = int p" "0 < p" using assms(2) by (auto simp: p_def)
  have order: "set (part_order E ?n (s_world s)) = {0..<?n}" "length (part_order E ?n (s_world s)) = ?n"
    using mset_eq_setD [OF assms(5)] mset_eq_length [OF assms(5)] by simp_all
  then have ord: "?order = part_order E ?n (s_world s)" by (intro filter_True) auto
  have run: "run_parts L E c session d content ?order ?init None s = ((parts, None), s')"
    using assms(1) by (auto simp: extUploadParts_def Let_def split: prod.splits option.splits)
  note run = run_parts_success [OF run, unfolded ord]
  then obtain xs where xs: "s_wire s' = s_wire s @ xs"
      "list_all2 (part_sent session d content) (part_order E ?n (s_world s)) xs" by blast
  have inside: "i * p < length content" if "i < ?n" for i
    by (rule parts_inside [OF p assms(3,4) _ that]) (use run order in auto)
  have sent: "\<exists>e \<in> set xs. part_sent session d content i e" if "i < ?n" for i
  proof -
    from that order obtain k where "k < ?n" "part_order E ?n (s_world s) ! k = i"
      by (metis atLeastLessThan_iff in_set_conv_nth zero_le)
    with xs(2) order show ?thesis by (metis list_all2_conv_all_nth nth_mem)
  qed
  have bytes: "section_bytes content (part_offset session i) (part_length session d i)
      = part_bytes session content i" if "i < ?n" for i
    by (rule section_part_bytes [OF p(1) assms(3)]) (use assms(4) inside [OF that] in auto)
  have tile: "concat (map (part_bytes session content) [0..<?n]) = take (?n * p) content"
    using concat_slices [of p content ?n] unfolding part_bytes_def [abs_def] Let_def p_def .
  have "map p_number parts = map Suc [0..<?n]"
    by (rule nth_equalityI) (use run order in auto)
  then have nums: "map p_number parts = [1..<Suc ?n]" by (simp only: map_Suc_upt One_nat_def)
  have "length xs = ?n" using list_all2_lengthD [OF xs(2)] order by simp
  moreover have "\<exists>e \<in> set xs. q_op (fst e) = OpExtPart (Suc i)
           \<and> q_url (fst e) = se_urls session ! i \<and> q_auth (fst e) = None
           \<and> q_body (fst e) = part_bytes session content i \<and> i * p < length content" if "i < ?n" for i
    using sent [OF that] bytes [OF that] inside [OF that] by (auto simp: part_sent_def)
  ultimately show ?thesis using xs(1) tile nums unfolding p_def by blast
qed

theorem parts_tile_file_witness:
  "concat (map (part_bytes demo_session demo_file) [0..<3]) = take 12 demo_file
   \<and> map p_number (projr (fst demo_parts)) = [1, 2, 3]"
proof -
  obtain parts where parts: "fst demo_parts = Inr parts"
  proof -
    have "\<not> isl (fst demo_parts)" by code_simp
    with that show thesis by (cases "fst demo_parts") auto
  qed
  have "0 < sint (se_partSize demo_session)" "length (se_urls demo_session) = 3"
      "nat (sint (se_partSize demo_session)) = 4" "length demo_file = 10"
    by (simp_all add: demo_session_def demo_file_def)
  moreover have "d_size demo_desc = of_nat (length demo_file)" by (simp add: demo_desc_def demo_file_def)
  moreover have "mset (part_order script_env 3 w) = mset [0..<3]" for w by (simp add: script_env_def)
  ultimately show ?thesis
    using parts_tile_file [OF demo_parts_run [unfolded parts]] parts by (auto simp: upt_rec)
qed

text \<open>
  A direct upload takes at most two sessions, the second only because the URLs of the first
  expired, and then it is done or reports its error: it always returns.
\<close>

theorem direct_push_sessions:
  assumes "pushBlobExt L E c dp repo d path s = (r, s')"
  shows "\<exists>xs. s_wire s' = s_wire s @ xs \<and> length (filter starts_session xs) \<le> 2
    \<and> (r = Inr () \<longrightarrow> has_blob L c repo (d_digest d) (s_wire s'))"
proof (cases "s_disk s path")
  case None
  with assms show ?thesis by (auto simp: pushBlobExt_def)
next
  case (Some content)
  with assms have loop: "pushBlobExt_loop L E c dp repo d content 0 s = (r, s')"
    by (simp add: pushBlobExt_def)
  from pushBlobExt_loop_sessions [OF loop] pushBlobExt_loop_trace [OF loop] show ?thesis
    by (auto simp: extSessionRetries_def)
qed

theorem direct_push_sessions_witness:
  "length (s_wire (snd demo_expired)) = 4 \<and> length (filter starts_session (s_wire (snd demo_expired))) \<le> 2"
proof -
  have "length (s_wire (snd demo_expired)) = 4" by code_simp
  with direct_push_sessions [OF demo_expired_run] show ?thesis by auto
qed

text \<open>
  The latch. When \<open>tryDirectPush\<close> declines a blob that the extension would take, the extension
  is off; and once it is off after discovery, pushing any further blob sends no request of the
  extension and no discovery, and it stays off.
\<close>

theorem extension_latch:
  assumes "tryDirectPush L E c repo d path s = (Inr False, s1)" and "c_ext c = Some dp"
    and "wants (c_ext c) (d_size d)"
    and "pushBlobFile L E c repo2 d2 path2 s1 = (r, s2)"
  shows "\<exists>xs. s_wire s2 = s_wire s1 @ xs \<and> (\<forall>e \<in> set xs. \<not> ext_event c e \<and> \<not> discovers c e)
    \<and> \<not> cs_usable (s_heap s2 (c_id c))"
proof -
  have "cs_discovered (s_heap s1 (c_id c))" "\<not> cs_usable (s_heap s1 (c_id c))"
    using tryDirectPush_discovered [OF assms(1,2,3)] tryDirectPush_latches [OF assms(1,2,3)] by simp_all
  from pushBlobFile_off [OF assms(4) this] show ?thesis by (auto simp: adds_def)
qed

theorem extension_latch_witness:
  "fst demo_declined = Inr False \<and>
   \<not> cs_usable (s_heap (snd (pushBlobFile demo_ext_lib script_env toy_client ''app'' demo_desc ''/f''
       (snd demo_declined))) 0)"
proof -
  have no: "fst demo_declined = Inr False" by code_simp
  have "wants (c_ext toy_client) (d_size demo_desc)" by code_simp
  moreover have "c_ext toy_client = Some \<lparr>dp_threshold = 8, dp_partSize = 0\<rparr>" by (simp add: toy_client_def)
  ultimately have "\<not> cs_usable (s_heap (snd (pushBlobFile demo_ext_lib script_env toy_client ''app''
      demo_desc ''/f'' (snd demo_declined))) (c_id toy_client))"
    using extension_latch [OF demo_declined_run [unfolded no] _ _ prod.collapse [symmetric],
        of "\<lparr>dp_threshold = 8, dp_partSize = 0\<rparr>" "''app''" demo_desc "''/f''"] by blast
  with no show ?thesis by (simp add: toy_client_def)
qed

section \<open>Authenticated clients\<close>

text \<open>
  One client per scope. Once a client was handed out for a repository and an action, asking
  again, after any operations that keep the cache, returns the same client without a handshake and
  without touching the state, and losing the race to store a client returns the one stored first.
\<close>

theorem client_once:
  assumes "client L E c repo action s = (Inr cl, s1)" and "keeps s1 s2"
  shows "client L E c repo action s2 = (Inr cl, s2)
    \<and> (\<forall>b. client_store (scope_of L repo action) b (s_heap s2 (c_id c)) = (cl, s_heap s2 (c_id c)))"
proof -
  have "cs_clients (s_heap s2 (c_id c)) (scope_of L repo action) = Some cl"
    using client_cached [OF assms(1)] assms(2) unfolding keeps_def map_le_def by (metis domI)
  then show ?thesis by (simp add: client_def client_store_def Let_def)
qed

theorem client_once_witness:
  "\<exists>cl s1. client toy_lib script_env toy_client ''app'' PushScope (start_state [] (\<lambda>p. None)) = (Inr cl, s1)
     \<and> client toy_lib script_env toy_client ''app'' PushScope s1 = (Inr cl, s1)"
proof -
  let ?run = "client toy_lib script_env toy_client ''app'' PushScope (start_state [] (\<lambda>p. None))"
  have "\<not> isl (fst ?run)" by code_simp
  then obtain cl where "?run = (Inr cl, snd ?run)" by (metis isl_def prod.collapse sum.exhaust)
  with client_once [OF this keeps_refl] show ?thesis by blast
qed

end
