(* ===== verification/Proxy_Properties.thy ===== *)
theory Proxy_Properties
  imports Proxy_Paths Scripted_World
begin

text \<open>
  The properties of the registry proxy: its sessions under interleaved requests, what it takes for a
  blob to be reported created, the order of chunks, expiry, the errors it relays, and where its
  credentialed requests may go.
\<close>

section \<open>A proxy in the scripted world\<close>

definition demo_upstream :: regClient where
  "demo_upstream = \<lparr>c_id = 0, c_base = ''https://r.example'',
     c_ext = Some \<lparr>dp_threshold = DefaultExtThreshold, dp_partSize = 0\<rparr>\<rparr>"

definition demo_proxy :: Proxy where
  "demo_proxy = \<lparr>px_c = demo_upstream, px_prefix = ''team/'', px_stagingDir = ''/s''\<rparr>"

definition demo_random :: "nat \<Rightarrow> script \<Rightarrow> (string + bytes) \<times> script" where
  "demo_random n w = (Inr (replicate n (CHR 0x00)), w)"

definition demo_id :: string where
  "demo_id = hex_encode (replicate 16 (CHR 0x00))"

definition demo_pst :: "script \<Rightarrow> script pst" where
  "demo_pst w = \<lparr>px_st = start_state w (\<lambda>p. None), px_sessions = [], px_heap = Map.empty, px_next = 0\<rparr>"

definition demo_req :: "string \<Rightarrow> string \<Rightarrow> (string \<times> string) list \<Rightarrow> bytes \<Rightarrow> http_req" where
  "demo_req m p q b = \<lparr>hr_method = m, hr_path = p, hr_query = q, hr_hdrs = [], hr_body = b, hr_err = None\<rparr>"

text \<open>A session with the bytes \<open>ab\<close>, as two requests leave it.\<close>

definition demo_started :: "script pst" where
  "demo_started = snd (serveHTTP toy_lib script_env demo_random demo_proxy
     (demo_req ''POST'' ''/v2/app/blobs/uploads'' [] []) (demo_pst [ok 404, answer 202 [(''Location'', ''/u'')] [], ok 201]))"

definition demo_chunked :: "script pst" where
  "demo_chunked = snd (uploadContinue toy_lib script_env demo_proxy (demo_req ''PATCH'' '''' [] ''ab'') ''app''
     demo_id demo_started)"

lemma team_name: "rmatch proxyNameRe (trim_suffix ''team/'' ''/'')" "has_suffix ''team/'' ''/''"
  by code_simp+

lemma demo_new: "newProxy (\<lambda>h. Inr demo_ref) demo_names 0 ''r.example'' ''team/'' demo_opts
    (start_state w (\<lambda>p. None)) = Inr (demo_proxy, demo_pst w)"
  by (simp add: newProxy_def team_name make_client_def newRegClient_def demo_names_def demo_ref_def
      demo_opts_def demo_proxy_def demo_pst_def demo_upstream_def start_state_def fun_upd_idem)

lemma demo_pst_inv: "sessions_inv {} (demo_pst w)"
  by (simp add: demo_pst_def sessions_inv_def)

lemma demo_started_inv: "sessions_inv {} demo_started"
  unfolding demo_started_def
  by (rule serveHTTP_inv [OF demo_pst_inv prod.collapse [symmetric]])
    (simp add: new_names_def demo_pst_def)

lemma demo_chunked_inv: "sessions_inv {} demo_chunked"
  unfolding demo_chunked_def by (rule uploadContinue_inv [OF demo_started_inv])

text \<open>What the evaluation of the two states gives.\<close>

lemma demo_started_listed: "map_of (px_sessions demo_started) demo_id = Some 0"
  by code_simp

lemma demo_chunked_values:
  "(map_of (px_sessions demo_chunked) demo_id,
    map_option (\<lambda>u. (us_hash u, us_open u, us_locked u, us_lastUsed u, itoa (sint (us_size u)) @ ''-''))
      (px_heap demo_chunked 0)) = (Some 0, Some (''ab'', True, False, 0, ''2-''))"
  by code_simp

lemma demo_chunked_listed: "map_of (px_sessions demo_chunked) demo_id = Some 0"
  using demo_chunked_values by simp

lemma demo_chunked_session:
  obtains u where "px_heap demo_chunked 0 = Some u" "us_hash u = ''ab''" "us_open u" "\<not> us_locked u"
    "us_lastUsed u = 0" "itoa (sint (us_size u)) @ ''-'' = ''2-''"
  using demo_chunked_values that by auto

section \<open>Sessions\<close>

text \<open>
  C12: in every state the proxy can reach, however its requests interleave (a request may hold a
  session that another one finished or expired meanwhile), the file of every open session holds
  exactly the bytes that were hashed for it, as many as its size says; no two sessions write to the
  same file; ids and sessions correspond one to one, and every session that is still listed is open.
\<close>

theorem proxy_sessions_sound:
  assumes "newProxy reg N i host pre opts s = Inr (p, P0)"
    and "(proxy_step L E R p)\<^sup>*\<^sup>* (P0, []) (P, Q)"
  shows "(\<forall>k u. px_heap P k = Some u \<and> us_open u \<longrightarrow>
        s_disk (px_st P) (us_file u) = Some (us_hash u) \<and> us_size u = of_nat (length (us_hash u))
        \<and> (\<forall>j v. px_heap P j = Some v \<and> j \<noteq> k \<longrightarrow> us_file v \<noteq> us_file u))
     \<and> distinct (map fst (px_sessions P)) \<and> distinct (map snd (px_sessions P))
     \<and> (\<forall>(uid, k) \<in> set (px_sessions P). \<exists>u. px_heap P k = Some u \<and> us_open u)"
proof -
  have inv: "sessions_inv {} P"
    using proxy_reachable_inv [OF assms(2) newProxy_inv [OF assms(1)]] by (simp add: proxy_inv_def)
  then have d: "distinct (map fst (px_sessions P))"
      and inj: "\<And>a b j. (a, j) \<in> set (px_sessions P) \<Longrightarrow> (b, j) \<in> set (px_sessions P) \<Longrightarrow> a = b"
    unfolding sessions_inv_def by blast+
  have "distinct (px_sessions P)" using d by (simp add: distinct_map)
  then have "distinct (map snd (px_sessions P))"
    using inj by (auto simp: distinct_map inj_on_def)
  with inv d show ?thesis unfolding sessions_inv_def by (auto; metis)
qed

theorem proxy_sessions_sound_witness:
  "\<exists>u. px_heap demo_chunked 0 = Some u \<and> us_hash u = ''ab'' \<and> s_disk (px_st demo_chunked) (us_file u) = Some ''ab''"
proof -
  let ?P = "demo_pst [ok 404, answer 202 [(''Location'', ''/u'')] [], ok 201]"
  let ?q = "(demo_req ''PATCH'' '''' [] ''ab'', ''app'', demo_id, 0)"
  let ?step = "proxy_step toy_lib script_env demo_random demo_proxy"
  have "?step (?P, []) (demo_started, [])"
    unfolding demo_started_def
    by (rule proxy_step.serve [OF prod.collapse [symmetric]]) (simp add: new_names_def demo_pst_def)
  moreover note look = demo_started_listed
  have "?step (demo_started, []) (demo_started, [?q])" using look by (rule proxy_step.lookup)
  moreover have "?step (demo_started, [?q]) (demo_chunked, remove1 ?q [?q])"
    unfolding demo_chunked_def uploadContinue_def look option.case
    by (rule proxy_step.resume [OF _ prod.collapse [symmetric]]) simp
  ultimately have "?step\<^sup>*\<^sup>* (?P, []) (demo_chunked, [])"
    by (auto intro: converse_rtranclp_into_rtranclp)
  note sound = proxy_sessions_sound [OF demo_new this]
  obtain u where "px_heap demo_chunked 0 = Some u" "us_hash u = ''ab''" "us_open u"
    by (rule demo_chunked_session)
  with sound show ?thesis by auto
qed

section \<open>Created means created\<close>

text \<open>
  The proxy answers an upload request with 201 only for a PUT whose declared digest is the
  SHA-256 of all the bytes the session received, this body included (up to letter case); only after
  the upstream confirmed the blob under that digest; every upload it sent for it carried exactly
  those bytes and their number; and the session is over.
\<close>

theorem created_verified:
  assumes inv: "sessions_inv {} P" and look: "map_of (px_sessions P) uid = Some i"
    and u: "px_heap P i = Some u" and run: "uploadContinue L E p r repo uid P = (resp, P')"
    and "hp_status resp = 201"
  shows "hr_method r = ''PUT'' \<and> (let dg = header_get (hr_query r) ''digest''; content = us_hash u @ hr_body r in
    equal_fold dg (digestOf L content)
    \<and> resp = created repo ''blobs'' dg
    \<and> has_blob L (px_c p) (upstreamRepo p repo) dg (s_wire (px_st P'))
    \<and> (\<exists>xs. s_wire (px_st P') = s_wire (px_st P) @ xs \<and> (\<forall>e \<in> set xs. \<forall>rp d.
          q_op (fst e) = OpBlobPut rp d \<longrightarrow> q_body (fst e) = content \<and> q_len (fst e) = Some (of_nat (length content)))))
    \<and> map_of (px_sessions P') uid = None"
proof -
  obtain now P1 P2 where steps:
    "sessions_inv {i} P1" "settled i P1" "owns P1 uid i" "px_heap P1 i = Some (u\<lparr>us_locked := True, us_lastUsed := now\<rparr>)"
    "px_sessions P1 = px_sessions P" "s_wire (px_st P1) = s_wire (px_st P)"
    "sessionMethod L E p r repo uid i (u\<lparr>us_locked := True, us_lastUsed := now\<rparr>) P1 = (resp, P2)"
    "s_wire (px_st P') = s_wire (px_st P2)" "set (px_sessions P') \<subseteq> set (px_sessions P2)"
    by (rule uploadContinue_run [OF inv look u run]) blast
  let ?us = "u\<lparr>us_locked := True, us_lastUsed := now\<rparr>"
  have put: "hr_method r = ''PUT''" "sessionPut L E p r repo uid i ?us P1 = (resp, P2)"
    using steps(7) assms(5) by (auto simp: sessionMethod_def sessionPatch_def Let_def split: if_splits prod.splits sum.splits)
  have "us_open ?us \<longrightarrow> us_size ?us = of_nat (length (us_hash ?us))"
    using steps(2,4) by (simp add: settled_def)
  note c = sessionPut_created [OF put(2) assms(5) steps(4,1) this, unfolded Let_def]
  have "map_of (px_sessions P2) uid = None"
    using sessionPut_gone [OF put(2)] .
  then have "map_of (px_sessions P') uid = None"
    using steps(9) by (auto simp: map_of_eq_None_iff image_iff)
  with c put(1) steps(6,8) show ?thesis
    by (auto simp: Let_def adds_def carries_def)
qed

theorem created_verified_witness:
  "hp_status (fst (uploadContinue toy_lib script_env demo_proxy
       (demo_req ''PUT'' '''' [(''digest'', demo_digest 3)] ''c'') ''app'' demo_id demo_chunked)) = 201
   \<and> equal_fold (demo_digest 3) (digestOf toy_lib ''abc'')"
proof -
  let ?r = "demo_req ''PUT'' '''' [(''digest'', demo_digest 3)] ''c''"
  let ?run = "uploadContinue toy_lib script_env demo_proxy ?r ''app'' demo_id demo_chunked"
  have c: "hp_status (fst ?run) = 201" by code_simp
  obtain u where u: "px_heap demo_chunked 0 = Some u" "us_hash u = ''ab''"
    by (rule demo_chunked_session)
  from created_verified [OF demo_chunked_inv demo_chunked_listed u(1) prod.collapse [symmetric] c] u(2) c
  show ?thesis by (simp add: Let_def demo_req_def header_get_def)
qed

section \<open>Chunks\<close>

text \<open>A chunk in order: applied with 202, or the copy failed and the session is dropped.\<close>

lemma sessionPatch_in_order:
  assumes patch: "sessionPatch L E r repo uid i us P = (resp, P')" and heap: "px_heap P i = Some us"
    and order: "\<not> (header_get (hr_hdrs r) ''Content-Range'' \<noteq> ''''
      \<and> \<not> has_prefix (header_get (hr_hdrs r) ''Content-Range'') (itoa (sint (us_size us)) @ ''-''))"
  obtains (failed) P1 where "hp_status resp = 400" and "P' = drop_session uid i P1"
  | (applied) "hp_status resp = 202"
      and "px_heap P' i = Some (us\<lparr>us_hash := us_hash us @ hr_body r, us_size := us_size us + of_nat (length (hr_body r))\<rparr>)"
proof -
  obtain res P3 where copy: "session_copy E i r P = (res, P3)" by fastforce
  show ?thesis
  proof (cases res)
    case (Inl e)
    with patch copy order failed show ?thesis by (auto simp: sessionPatch_def Let_def)
  next
    case (Inr n)
    have st: "hp_status resp = 202" "P' = upd_session i (\<lambda>v. v\<lparr>us_size := us_size us + n\<rparr>) P3"
      using patch copy order Inr by (auto simp: sessionPatch_def Let_def)
    have "px_heap P3 i = Some (us\<lparr>us_hash := us_hash us @ hr_body r\<rparr>) \<and> n = of_nat (length (hr_body r))"
      using copy heap by (cases rule: session_copy_cases) (auto simp: Inr heap split: option.splits)
    with st applied show ?thesis by simp
  qed
qed

text \<open>
  A chunk is appended or rejected, never half applied. A PATCH whose \<open>Content-Range\<close> does not
  start at the session's size is answered 416 and leaves the session's bytes, size and file as they
  were; otherwise it is answered 202, and then the session and its file hold the old bytes followed
  by the chunk, or 400, and then the session is gone.
\<close>

theorem chunk_applied_or_rejected:
  assumes inv: "sessions_inv {} P" and look: "map_of (px_sessions P) uid = Some i"
    and u: "px_heap P i = Some u" and run: "uploadContinue L E p r repo uid P = (resp, P')"
    and "hr_method r = ''PATCH''"
  shows "let cr = header_get (hr_hdrs r) ''Content-Range'' in
    (hp_status resp = 416 \<longleftrightarrow> cr \<noteq> '''' \<and> \<not> has_prefix cr (itoa (sint (us_size u)) @ ''-''))
    \<and> hp_status resp \<in> {202, 400, 416}
    \<and> (hp_status resp = 416 \<longrightarrow> (\<exists>t. px_heap P' i = Some (u\<lparr>us_lastUsed := t\<rparr>)
          \<and> s_disk (px_st P') (us_file u) = Some (us_hash u)))
    \<and> (hp_status resp = 202 \<longrightarrow> (\<exists>t. px_heap P' i = Some (u\<lparr>us_lastUsed := t,
             us_hash := us_hash u @ hr_body r, us_size := us_size u + of_nat (length (hr_body r))\<rparr>)
          \<and> s_disk (px_st P') (us_file u) = Some (us_hash u @ hr_body r)))
    \<and> (hp_status resp = 400 \<longrightarrow> map_of (px_sessions P') uid = None)"
proof -
  obtain now P1 P2 where steps:
    "sessions_inv {i} P1" "px_heap P1 i = Some (u\<lparr>us_locked := True, us_lastUsed := now\<rparr>)"
    "sessionMethod L E p r repo uid i (u\<lparr>us_locked := True, us_lastUsed := now\<rparr>) P1 = (resp, P2)"
    "set (px_sessions P') \<subseteq> set (px_sessions P2)"
    "\<And>v. px_heap P2 i = Some v \<Longrightarrow> px_heap P' i = Some (v\<lparr>us_locked := False\<rparr>)" "sessions_inv {} P'"
    by (rule uploadContinue_run [OF inv look u run]) blast
  let ?us = "u\<lparr>us_locked := True, us_lastUsed := now\<rparr>"
  let ?cr = "header_get (hr_hdrs r) ''Content-Range''"
  have "\<exists>v. px_heap P i = Some v \<and> us_open v" "us_locked u \<longleftrightarrow> i \<in> {}"
    using inv u map_of_SomeD [OF look] unfolding sessions_inv_def by blast+
  then have open_u: "us_open u" "\<not> us_locked u" using u by simp_all
  have disk: "s_disk (px_st P') (us_file v) = Some (us_hash v)" if "px_heap P' i = Some v" "us_open v" for v
    using steps(6) that unfolding sessions_inv_def by blast
  have patch: "sessionPatch L E r repo uid i ?us P1 = (resp, P2)"
    using steps(3) assms(5) by (simp add: sessionMethod_def)
  show ?thesis
  proof (cases "?cr \<noteq> '''' \<and> \<not> has_prefix ?cr (itoa (sint (us_size u)) @ ''-'')")
    case True
    then have "hp_status resp = 416" "P2 = P1" using patch by (auto simp: sessionPatch_def Let_def)
    moreover from this steps(2,5) have "px_heap P' i = Some (u\<lparr>us_lastUsed := now\<rparr>)"
      using open_u(2) by simp
    ultimately show ?thesis using True disk [of "u\<lparr>us_lastUsed := now\<rparr>"] open_u(1) by (auto simp: Let_def)
  next
    case in_order: False
    then have order: "\<not> (?cr \<noteq> '''' \<and> \<not> has_prefix ?cr (itoa (sint (us_size ?us)) @ ''-''))" by simp
    from patch steps(2) order show ?thesis
    proof (cases rule: sessionPatch_in_order)
      case (failed P3)
      from this steps(4) have "map_of (px_sessions P') uid = None"
        by (auto simp: map_of_eq_None_iff set_delete)
      with failed in_order show ?thesis by (auto simp: Let_def)
    next
      case applied
      from steps(5) [OF applied(2)] have P': "px_heap P' i = Some (u\<lparr>us_lastUsed := now,
          us_hash := us_hash u @ hr_body r, us_size := us_size u + of_nat (length (hr_body r))\<rparr>)"
        using open_u(2) by (cases u) simp
      with disk [OF P'] open_u(1) applied(1) in_order show ?thesis by (auto simp: Let_def)
    qed
  qed
qed

theorem chunk_applied_or_rejected_witness:
  "hp_status (fst (uploadContinue toy_lib script_env demo_proxy
      ((demo_req ''PATCH'' '''' [] ''c'')\<lparr>hr_hdrs := [(''Content-Range'', ''5-5'')]\<rparr>) ''app'' demo_id demo_chunked)) = 416"
proof -
  let ?r = "(demo_req ''PATCH'' '''' [] ''c'')\<lparr>hr_hdrs := [(''Content-Range'', ''5-5'')]\<rparr>"
  obtain u where u: "px_heap demo_chunked 0 = Some u" "itoa (sint (us_size u)) @ ''-'' = ''2-''"
    by (rule demo_chunked_session)
  then have "\<not> has_prefix ''5-5'' (itoa (sint (us_size u)) @ ''-'')" by (simp only: u(2)) (simp add: has_prefix_def)
  with u chunk_applied_or_rejected [OF demo_chunked_inv demo_chunked_listed u(1) prod.collapse [symmetric], of ?r]
  show ?thesis by (simp add: Let_def demo_req_def header_get_def)
qed

section \<open>Expiry\<close>

text \<open>
  C14: the sweep ends exactly the sessions that were idle for more than an hour and that no request
  is working on. If throughout the sweep the clock is more than an hour past a session's last use
  and the session is not locked, it is closed and no longer listed; if the clock is not, or the
  session is locked, it stays listed and unchanged.
\<close>

theorem sweep_exact:
  assumes "sessions_inv X P" and "(uid, i) \<in> set (px_sessions P)" and "px_heap P i = Some u"
  shows "(\<not> us_locked u \<and> (\<forall>w. fst (clock E w) - us_lastUsed u > sessionMaxIdle) \<longrightarrow>
        map_of (px_sessions (expireIdleSessions E P)) uid = None
        \<and> px_heap (expireIdleSessions E P) i = Some (u\<lparr>us_open := False\<rparr>))
     \<and> (us_locked u \<or> (\<forall>w. fst (clock E w) - us_lastUsed u \<le> sessionMaxIdle) \<longrightarrow>
        map_of (px_sessions (expireIdleSessions E P)) uid = Some i
        \<and> px_heap (expireIdleSessions E P) i = Some u)"
proof -
  have d: "distinct (map fst (px_sessions (expireIdleSessions E P)))"
    using expireIdleSessions_inv [OF assms(1), of E] by (simp add: sessions_inv_def)
  have "map_of (px_sessions (expireIdleSessions E P)) uid = None"
    if "\<not> us_locked u" "\<forall>w. fst (clock E w) - us_lastUsed u > sessionMaxIdle"
    using sweep_removes [OF assms that(1)] that(2) by (fastforce simp: map_of_eq_None_iff)
  moreover have "px_heap (expireIdleSessions E P) i = Some (u\<lparr>us_open := False\<rparr>)"
    if "\<not> us_locked u" "\<forall>w. fst (clock E w) - us_lastUsed u > sessionMaxIdle"
    using sweep_removes [OF assms that(1)] that(2) by fastforce
  ultimately show ?thesis using sweep_keeps [OF assms] d by auto
qed

theorem sweep_exact_witness:
  "map_of (px_sessions (expireIdleSessions (script_env\<lparr>clock := (\<lambda>w. (sessionMaxIdle + 1, w))\<rparr>) demo_chunked)) demo_id = None
   \<and> map_of (px_sessions (expireIdleSessions script_env demo_chunked)) demo_id = Some 0"
proof -
  note mem = map_of_SomeD [OF demo_chunked_listed]
  obtain u where u: "px_heap demo_chunked 0 = Some u" "\<not> us_locked u" "us_lastUsed u = 0"
    by (rule demo_chunked_session)
  from sweep_exact [OF demo_chunked_inv mem u(1), of "script_env\<lparr>clock := (\<lambda>w. (sessionMaxIdle + 1, w))\<rparr>"]
    sweep_exact [OF demo_chunked_inv mem u(1), of script_env] u
  show ?thesis by (simp add: script_env_def sessionMaxIdle_def)
qed

text \<open>
  A started upload can be continued. When \<open>uploadStart\<close> answers 202, the id it hands out is listed
  with an open, empty session of its own, and, made from 16 random bytes, it passes the grammar
  through which the router lets upload ids.
\<close>

theorem upload_start_continues:
  assumes "sessions_inv {} P" and "uploadStart L E R p r repo P = (resp, P')" and "hp_status resp = 202"
    and "\<forall>w b w'. R 16 w = (Inr b, w') \<longrightarrow> length b = 16"
  shows "\<exists>uid i u. header_get (hp_hdrs resp) ''Docker-Upload-Uuid'' = uid
    \<and> header_get (hp_hdrs resp) ''Location'' = ''/v2/'' @ repo @ ''/blobs/uploads/'' @ uid
    \<and> rmatch proxyUploadIDRe uid \<and> map_of (px_sessions P') uid = Some i
    \<and> px_heap P i = None \<and> px_heap P' i = Some u \<and> us_open u \<and> us_hash u = [] \<and> us_size u = 0"
  using assms(2)
proof (cases rule: uploadStart_cases)
  case (opened s1 name b now)
  let ?i = "px_next P"
  let ?P1 = "P\<lparr>px_st := s1, px_heap := (px_heap P)(?i \<mapsto>
                \<lparr>us_file = name, us_open = True, us_locked = False, us_size = 0, us_hash = [],
                 us_lastUsed = now\<rparr>), px_next := Suc ?i\<rparr>"
  have "\<forall>x \<in> set (px_sessions ?P1). snd x \<noteq> ?i"
    using sessions_inv_fresh(2) [OF assms(1) refl] by force
  with expireIdleSessions_untouched [of ?P1 ?i E]
  have "px_heap (expireIdleSessions E ?P1) ?i = px_heap ?P1 ?i" by blast
  then have P': "map_of (px_sessions P') (hex_encode b) = Some ?i" "px_heap P' ?i = px_heap ?P1 ?i"
    by (simp_all add: opened(3) Let_def update_conv)
  obtain w b' w' where rd: "R 16 w = (Inr b', w')" "header_get (hp_hdrs resp) ''Docker-Upload-Uuid'' = hex_encode b'"
    using uploadStart_random [OF assms(2,3)] by blast
  have "header_get (hp_hdrs resp) ''Docker-Upload-Uuid'' = hex_encode b"
    using opened(4) by (simp add: header_get_def)
  with rd(2) have "length b' = length b"
    using length_hex_encode [of b] length_hex_encode [of b'] by simp
  with assms(4) rd(1) have "length b = 16" by metis
  then have "rmatch proxyUploadIDRe (hex_encode b)" by (rule hex_encode_id)
  with P' sessions_inv_fresh(1) [OF assms(1) refl] opened(4) show ?thesis
    by (auto simp: header_get_def)
qed (use assms(3) in simp_all)

theorem upload_start_continues_witness:
  "map_of (px_sessions demo_started) demo_id = Some 0 \<and> rmatch proxyUploadIDRe demo_id"
proof -
  let ?P = "demo_pst [ok 404, answer 202 [(''Location'', ''/u'')] [], ok 201]"
  let ?run = "uploadStart toy_lib script_env demo_random demo_proxy
     (demo_req ''POST'' ''/v2/app/blobs/uploads'' [] []) ''app'' ?P"
  have run: "hp_status (fst ?run) = 202 \<and> header_get (hp_hdrs (fst ?run)) ''Docker-Upload-Uuid'' = demo_id"
    by code_simp
  note st = conjunct1 [OF run] and look = conjunct2 [OF run] and listed = demo_started_listed
  have rnd: "\<forall>w b w'. demo_random 16 w = (Inr b, w') \<longrightarrow> length b = 16"
    by (auto simp: demo_random_def)
  from upload_start_continues [OF demo_pst_inv prod.collapse [symmetric] st rnd] listed
  show ?thesis by (simp only: look) blast
qed

section \<open>Where credentialed requests go\<close>



text \<open>
  The \<open>mount\<close> parameter of an upload is the exception: whatever it holds, the first request of the
  upload is a HEAD with the push credentials of the repository to the upstream URL that ends in it,
  without any check.
\<close>

theorem mount_goes_upstream_unchecked:
  assumes "uploadStart L E R p r repo P = (resp, P')"
    and "header_get (hr_query r) ''mount'' = m" and "m \<noteq> ''''"
    and "url_err L (c_base (px_c p) @ ''/v2/'' @ upstreamRepo p repo @ ''/blobs/'' @ m) = None"
    and "client L E (px_c p) (upstreamRepo p repo) PushScope (px_st P) = (Inr cl, s1)"
  shows "\<exists>q a xs. s_wire (px_st P') = s_wire s1 @ (q, a) # xs \<and> q_meth q = ''HEAD''
    \<and> q_auth q = Some cl
    \<and> q_url q = c_base (px_c p) @ ''/v2/'' @ upstreamRepo p repo @ ''/blobs/'' @ m"
proof -
  let ?d = "c_base (px_c p) @ ''/v2/'' @ upstreamRepo p repo @ ''/blobs/'' @ m"
  obtain e s2 where head: "blobExists L E (px_c p) (upstreamRepo p repo) m PushScope (px_st P) = (e, s2)"
    by fastforce
  have wire: "\<exists>q a. s_wire s2 = s_wire s1 @ [(q, a)] \<and> q_meth q = ''HEAD'' \<and> q_auth q = Some cl
      \<and> q_url q = ?d"
    using head assms(4,5)
    by (auto simp: blobExists_def newRequest_def do_req_def send_def split: prod.splits sum.splits if_splits)
  have "s_wire (px_st P') = s_wire s2"
    by (rule uploadStart_wire [OF assms(1)]) (use assms(2,3) head in auto)
  with wire show ?thesis by auto
qed

theorem mount_goes_upstream_unchecked_witness:
  "\<exists>q a. (q, a) \<in> set (s_wire (px_st (snd (uploadStart toy_lib script_env demo_random demo_proxy
      (demo_req ''POST'' '''' [(''mount'', ''../../../../admin'')] []) ''app'' (demo_pst [ok 200])))))
    \<and> q_url q = ''https://r.example/v2/team/app/blobs/../../../../admin'' \<and> q_auth q = Some (Client (scope_of toy_lib ''team/app'' PushScope) 7)"
proof -
  let ?r = "demo_req ''POST'' '''' [(''mount'', ''../../../../admin'')] []"
  let ?cl = "client toy_lib script_env demo_upstream ''team/app'' PushScope (px_st (demo_pst [ok 200]))"
  have "fst ?cl = Inr (Client (scope_of toy_lib ''team/app'' PushScope) 7)" by code_simp
  then have cl: "?cl = (Inr (Client (scope_of toy_lib ''team/app'' PushScope) 7), snd ?cl)" by (simp add: prod_eq_iff)
  have up: "upstreamRepo demo_proxy ''app'' = ''team/app''" "px_c demo_proxy = demo_upstream"
      "c_base demo_upstream = ''https://r.example''"
    by (simp_all add: upstreamRepo_def demo_proxy_def demo_upstream_def)
  have cl': "client toy_lib script_env (px_c demo_proxy) (upstreamRepo demo_proxy ''app'') PushScope
      (px_st (demo_pst [ok 200])) = (Inr (Client (scope_of toy_lib ''team/app'' PushScope) 7), snd ?cl)"
    using cl by (simp only: up)
  have m: "header_get (hr_query ?r) ''mount'' = ''../../../../admin''"
    by (simp add: demo_req_def header_get_def)
  have "url_err toy_lib u = None" for u by (simp add: toy_lib_def)
  from mount_goes_upstream_unchecked [OF prod.collapse [symmetric] m _ this cl', of demo_random]
  show ?thesis unfolding up(2,3) up(1) by (fastforce simp: up)
qed

section \<open>Errors\<close>

text \<open>
  What the proxy makes of a failed upstream operation depends on the deepest cause only, however it was
  wrapped.
\<close>

lemma upstreamError_relayed:
  "hp_status (upstreamError L e) = (case as_status e of
      Some n \<Rightarrow> if n \<in> {401, 403, 404, 429} then n else 502 | None \<Rightarrow> 502)"
  by (auto simp: upstreamError_def proxyError_def split: option.split)

text \<open>What the answer of the upstream to a manifest becomes for the client of the proxy.\<close>

definition relayed_status :: "string + response \<Rightarrow> nat" where
  "relayed_status a =
     (case a of
        Inl m \<Rightarrow> 502
      | Inr res \<Rightarrow>
          (if 200 \<le> r_status res \<and> r_status res \<le> 299 then 201
           else if r_status res \<in> {401, 403, 404, 429} then r_status res
           else 502))"

text \<open>A request of the client either stops at the credentials or is one exchange.\<close>

lemma do_req_relay:
  assumes "do_req L E c repo action req s = (x, s')"
  obtains (denied) e where "x = Inl e" "as_status e = None" "s_wire s' = s_wire s"
  | (refused) cl m where "x = Inl (Msg m)" "s_wire s' = s_wire s @ [(req\<lparr>q_auth := Some cl\<rparr>, Inl m)]"
  | (answered) cl res where "x = Inr res" "s_wire s' = s_wire s @ [(req\<lparr>q_auth := Some cl\<rparr>, Inr res)]"
proof -
  obtain c1 s1 where c: "client L E c repo action s = (c1, s1)" by fastforce
  show ?thesis
  proof (cases c1)
    case (Inl e)
    then have "x = Inl e \<and> s' = s1" using assms c by (simp add: do_req_def)
    moreover have "as_status e = None"
      using c Inl by (auto simp: client_def Let_def split: option.splits sum.splits prod.splits)
    ultimately show ?thesis using client_wire [OF c] by (intro denied) simp_all
  next
    case (Inr cl)
    then have "send E (req\<lparr>q_auth := Some cl\<rparr>) s1 = (x, s')" using assms c by (simp add: do_req_def)
    then show ?thesis using client_wire [OF c] refused [of _ cl] answered [of _ cl]
      by (auto simp: send_def split: prod.splits sum.splits)
  qed
qed

lemma putManifest_relay:
  assumes "putManifest L E c repo raw mt ref s = (x, s')"
  obtains (unsent) e where "x = Inl e" "as_status e = None" "s_wire s' = s_wire s"
  | (sent) q a where "s_wire s' = s_wire s @ [(q, a)]" "q_op q = OpManifestPut repo ref" "q_body q = raw"
      "relayed_status a = (case x of Inl e \<Rightarrow> hp_status (upstreamError L e) | Inr _ \<Rightarrow> 201)"
proof (cases "newRequest L c (OpManifestPut repo ref) ''PUT'' (c_base c @ ''/v2/'' @ repo @ ''/manifests/'' @ ref) raw")
  case (Inl e)
  then have "as_status e = None" by (auto simp: newRequest_def split: option.splits)
  with assms Inl show ?thesis by (intro unsent) (auto simp: putManifest_def)
next
  case (Inr req)
  obtain y t where d: "do_req L E c repo PushScope (req\<lparr>q_hdrs := [(''Content-Type'', mt)]\<rparr>) s = (y, t)" by fastforce
  note [simp] = newRequest_fields [OF Inr]
  from d show ?thesis
  proof (cases rule: do_req_relay)
    case (denied e)
    with assms Inr d show ?thesis
      by (intro unsent [of "Wrap (''manifest put '' @ ref) e"]) (auto simp: putManifest_def)
  next
    case (refused cl m)
    with assms Inr d show ?thesis
      by (intro sent [of "req\<lparr>q_hdrs := [(''Content-Type'', mt)], q_auth := Some cl\<rparr>" "Inl m"])
        (auto simp: putManifest_def relayed_status_def upstreamError_relayed)
  next
    case (answered cl res)
    with assms Inr d show ?thesis
      by (intro sent [of "req\<lparr>q_hdrs := [(''Content-Type'', mt)], q_auth := Some cl\<rparr>" "Inr res"])
        (auto simp: putManifest_def relayed_status_def upstreamError_relayed statusError_def split: if_splits)
  qed
qed

text \<open>
  C16: the answer to a manifest says what became of it upstream. Either nothing was sent, and the
  client is told so with a status of the proxy (400 for a body that cannot be read, 413 for one over
  the limit, 502 when the upstream cannot be reached), or its bytes were sent unchanged in a single
  request and the status tells the answer: 201 exactly for the statuses 200 to 299, the deliberate
  refusals 401, 403, 404 and 429 as they are, and 502 for every other answer and for none. So the
  client never takes an upstream failure for a success or for its own mistake.
\<close>

theorem upstream_errors_relayed:
  assumes "manifestPut L E p r repo ref P = (resp, P')"
  shows "s_wire (px_st P') = s_wire (px_st P) \<and> hp_status resp \<in> {400, 413, 502}
    \<or> (\<exists>q a. s_wire (px_st P') = s_wire (px_st P) @ [(q, a)]
        \<and> q_op q = OpManifestPut (upstreamRepo p repo) ref \<and> q_body q = hr_body r
        \<and> hp_status resp = relayed_status a)"
proof -
  obtain raw err where read: "read_limited (manifestLimit + 1) (hr_body r) (hr_err r) = (raw, err)" by fastforce
  show ?thesis
  proof (cases "err = None \<and> int (length raw) \<le> manifestLimit")
    case False
    with assms read show ?thesis by (auto simp: manifestPut_def proxyError_def split: option.splits)
  next
    case True
    have raw: "raw = hr_body r"
      using read True by (auto simp: read_limited_def split: if_splits)
    obtain x s where put: "putManifest L E (px_c p) (upstreamRepo p repo) raw
        (header_get (hr_hdrs r) ''Content-Type'') ref (px_st P) = (x, s)" by fastforce
    with assms read True have out: "px_st P' = s"
        "hp_status resp = (case x of Inl e \<Rightarrow> hp_status (upstreamError L e) | Inr _ \<Rightarrow> 201)"
      by (auto simp: manifestPut_def created_def split: sum.splits)
    from put show ?thesis
      by (cases rule: putManifest_relay) (auto simp: out raw upstreamError_relayed)
  qed
qed

theorem upstream_errors_relayed_witness:
  "let (resp, P) = manifestPut toy_lib script_env demo_proxy (demo_req ''PUT'' '''' [] ''m'') ''app'' ''v1''
       (demo_pst [ok 403])
   in hp_status resp = 403 \<and> (\<exists>q a. s_wire (px_st P) = [(q, a)] \<and> relayed_status a = 403)"
proof -
  let ?x = "manifestPut toy_lib script_env demo_proxy (demo_req ''PUT'' '''' [] ''m'') ''app'' ''v1'' (demo_pst [ok 403])"
  have st: "hp_status (fst ?x) = 403" by code_simp
  obtain resp P where x: "?x = (resp, P)" by fastforce
  have "s_wire (px_st (demo_pst w)) = []" for w by (simp add: demo_pst_def start_state_def)
  with upstream_errors_relayed [OF x] st x show ?thesis by auto
qed

end
