(* ===== verification/Upload_Store.thy ===== *)
theory Upload_Store
  imports Proxy_Properties
begin

text \<open>
  What the registry proxy promises of its uploads, as a machine on a map from upload ids to the bytes
  received: no files, sessions, locks or hashes. The sessions of Oci_Proxy refine it: every request that is
  served in a reachable state is a step of this machine.
\<close>

section \<open>The abstract machine\<close>

type_synonym store = "string \<rightharpoonup> bytes"

text \<open>What a request asks of the store; requests that do not pass the router ask nothing.\<close>

datatype upload_call = Begin | Continue string

definition upload_call_of :: "http_req \<Rightarrow> upload_call option" where
  "upload_call_of r =
     (let segments = fields_func (\<lambda>c. c = CHR ''/'') (hr_path r); rest = tl segments; n = length rest in
      if segments = [] \<or> hd segments \<noteq> ''v2'' then None
      else if n \<ge> 3 \<and> rest ! (n - 2) = ''blobs'' \<and> rest ! (n - 1) = ''uploads''
      then (if rmatch proxyNameRe (str_join (take (n - 2) rest) ''/'') \<and> hr_method r = ''POST'' then Some Begin else None)
      else if n \<ge> 4 \<and> rest ! (n - 3) = ''blobs'' \<and> rest ! (n - 2) = ''uploads''
      then (if rmatch proxyNameRe (str_join (take (n - 3) rest) ''/'') \<and> rmatch proxyUploadIDRe (rest ! (n - 1))
            then Some (Continue (rest ! (n - 1))) else None)
      else None)"

text \<open>Uploads other than \<open>uid\<close> stay or expire.\<close>

definition others_kept :: "string \<Rightarrow> store \<Rightarrow> store \<Rightarrow> bool" where
  "others_kept uid s s' \<longleftrightarrow> (\<forall>v. v \<noteq> uid \<longrightarrow> s' v = None \<or> s' v = s v)"

text \<open>A request for the upload \<open>uid\<close>, by its method and the status of its answer.\<close>

inductive continue_step :: "lib \<Rightarrow> http_req \<Rightarrow> string \<Rightarrow> nat \<Rightarrow> store \<Rightarrow> store \<Rightarrow> bool" for L r uid where
  unknown: "s uid = None \<Longrightarrow> continue_step L r uid 404 s s"
| appended: "hr_method r = ''PATCH'' \<Longrightarrow> s uid = Some b \<Longrightarrow> s' uid = Some (b @ hr_body r) \<Longrightarrow> others_kept uid s s' \<Longrightarrow>
    continue_step L r uid 202 s s'"
| kept: "(hr_method r, n) \<in> {(''PATCH'', 416), (''GET'', 204)}
      \<or> hr_method r \<notin> {''PATCH'', ''PUT'', ''GET'', ''DELETE''} \<and> n = 405 \<Longrightarrow>
    s uid \<noteq> None \<Longrightarrow> s' uid = s uid \<Longrightarrow> others_kept uid s s' \<Longrightarrow> continue_step L r uid n s s'"
| completed: "hr_method r = ''PUT'' \<Longrightarrow> s uid = Some b \<Longrightarrow>
    equal_fold (header_get (hr_query r) ''digest'') (digestOf L (b @ hr_body r)) \<Longrightarrow>
    s' uid = None \<Longrightarrow> others_kept uid s s' \<Longrightarrow> continue_step L r uid 201 s s'"
| ended: "(hr_method r, n) \<in> {(''PATCH'', 400), (''DELETE'', 204)} \<or> hr_method r = ''PUT'' \<and> n \<noteq> 201 \<Longrightarrow>
    s uid \<noteq> None \<Longrightarrow> s' uid = None \<Longrightarrow> others_kept uid s s' \<Longrightarrow> continue_step L r uid n s s'"

inductive upload_step :: "lib \<Rightarrow> http_req \<Rightarrow> http_resp \<Rightarrow> store \<Rightarrow> store \<Rightarrow> bool" for L r resp where
  outside: "upload_call_of r = None \<Longrightarrow> upload_step L r resp s s"
| not_begun: "upload_call_of r = Some Begin \<Longrightarrow> hp_status resp \<noteq> 202 \<Longrightarrow> upload_step L r resp s s"
| begun: "upload_call_of r = Some Begin \<Longrightarrow> hp_status resp = 202 \<Longrightarrow>
    uid = header_get (hp_hdrs resp) ''Docker-Upload-Uuid'' \<Longrightarrow> s' uid = Some [] \<Longrightarrow> others_kept uid s s' \<Longrightarrow>
    upload_step L r resp s s'"
| continued: "upload_call_of r = Some (Continue uid) \<Longrightarrow> continue_step L r uid (hp_status resp) s s' \<Longrightarrow>
    upload_step L r resp s s'"

section \<open>The store that the sessions stand for\<close>

definition uploads :: "'w pst \<Rightarrow> store" where
  "uploads P uid =
     Option.bind (map_of (px_sessions P) uid) (\<lambda>i.
     Option.bind (px_heap P i) (\<lambda>u. s_disk (px_st P) (us_file u)))"

lemma uploads_listed:
  assumes "sessions_inv {} P" and "map_of (px_sessions P) uid = Some i" and "px_heap P i = Some u"
  shows "uploads P uid = Some (us_hash u)"
proof -
  have "us_open u" using assms map_of_SomeD [OF assms(2)] unfolding sessions_inv_def by fastforce
  then have "s_disk (px_st P) (us_file u) = Some (us_hash u)" using assms(1,3) unfolding sessions_inv_def by blast
  with assms(2,3) show ?thesis by (simp add: uploads_def)
qed

lemma uploads_unlisted: "map_of (px_sessions P) uid = None \<Longrightarrow> uploads P uid = None"
  by (simp add: uploads_def)

lemma uploads_same:
  assumes "px_heap P' = px_heap P" and "px_sessions P' = px_sessions P" and "s_disk (px_st P') = s_disk (px_st P)"
  shows "uploads P' = uploads P"
  using assms by (simp add: uploads_def fun_eq_iff)

lemma listed_subset:
  assumes "sessions_inv {} P" and "set (px_sessions P') \<subseteq> set (px_sessions P)"
    and "map_of (px_sessions P') v = Some j"
  shows "map_of (px_sessions P) v = Some j"
  using assms map_of_SomeD [OF assms(3)] unfolding sessions_inv_def by (auto intro: map_of_is_SomeI)

text \<open>An upload whose session is not \<open>i\<close> is as before when only \<open>i\<close> was worked on, or gone.\<close>

lemma uploads_elsewhere:
  assumes inv: "sessions_inv {} P" "sessions_inv {} P'" and sub: "set (px_sessions P') \<subseteq> set (px_sessions P)"
    and heap: "\<And>j w. j \<noteq> i \<Longrightarrow> px_heap P' j = Some w \<Longrightarrow> \<exists>u. px_heap P j = Some u \<and> us_hash w = us_hash u"
    and "map_of (px_sessions P') v \<noteq> Some i"
  shows "uploads P' v = None \<or> uploads P' v = uploads P v"
proof (cases "map_of (px_sessions P') v")
  case None
  then show ?thesis by (simp add: uploads_unlisted)
next
  case (Some j)
  then obtain w where w: "px_heap P' j = Some w" using sessions_inv_mapped [OF inv(2)] by blast
  moreover have "j \<noteq> i" using assms(5) Some by auto
  ultimately obtain u where "px_heap P j = Some u" "us_hash w = us_hash u" using heap by blast
  then show ?thesis
    using uploads_listed [OF inv(2) Some w] uploads_listed [OF inv(1) listed_subset [OF inv(1) sub Some]] by simp
qed

section \<open>One request on a session\<close>

lemma sessionMethod_others:
  assumes "sessionMethod L E p r repo uid i us P = (resp, P')" and "j \<noteq> i"
  shows "px_heap P' j = px_heap P j \<and> set (px_sessions P') \<subseteq> set (px_sessions P)"
proof -
  have copy: "px_heap P2 j = px_heap P1 j" if "session_copy E i r P1 = (res, P2)" for P1 P2 :: "'a pst" and res
    using that assms(2) by (auto simp: session_copy_def Let_def split: option.splits if_splits)
  have close: "px_heap P2 j = px_heap P1 j" if "session_close E i P1 = (e, P2)" for P1 P2 :: "'a pst" and e
    using that assms(2) by (auto simp: session_close_def split: option.splits if_splits)
  have "px_heap P' j = px_heap P j" if "sessionPatch L E r repo uid i us P = (resp, P')"
    using that assms(2) copy
    by (auto simp: sessionPatch_def Let_def discard_heap split: if_splits prod.splits sum.splits)
  moreover have "px_heap P' j = px_heap P j" if "sessionPut L E p r repo uid i us P = (resp, P')"
    using that assms(2)
    by (auto simp: sessionPut_def Let_def discard_heap split: if_splits prod.splits sum.splits option.splits
        dest!: copy close)
  ultimately show ?thesis
    using assms sessionPatch_frame [of L E r repo uid i us P resp P'] sessionPut_frame [of L E p r repo uid i us P resp P']
    by (auto simp: sessionMethod_def discard_heap set_delete split: if_splits)
qed

text \<open>The state around the method, and what becomes of the store when the lock is released.\<close>

lemma sessionOp_effect:
  assumes inv: "sessions_inv {} P" and own: "owns P uid i" and u: "px_heap P i = Some u"
    and run: "sessionOp L E p r repo uid i P = (resp, P')"
  obtains now P1 P2 where
    "sessions_inv {i} P1" and "settled i P1" and "px_heap P1 i = Some (u\<lparr>us_locked := True, us_lastUsed := now\<rparr>)"
    and "px_sessions P1 = px_sessions P"
    and "sessionMethod L E p r repo uid i (u\<lparr>us_locked := True, us_lastUsed := now\<rparr>) P1 = (resp, P2)"
    and "\<And>v. map_of (px_sessions P') v \<noteq> Some i \<Longrightarrow> uploads P' v = None \<or> uploads P' v = uploads P v"
    and "map_of (px_sessions P2) uid = None \<Longrightarrow> uploads P' uid = None"
    and "\<And>w. px_sessions P2 = px_sessions P \<Longrightarrow> px_heap P2 i = Some w \<Longrightarrow> map_of (px_sessions P) uid = Some i \<Longrightarrow>
      uploads P' uid = Some (us_hash w)"
proof -
  obtain now w where clock: "clock E (s_world (px_st P)) = (now, w)" by fastforce
  let ?P1 = "upd_session i (\<lambda>u. u\<lparr>us_locked := True, us_lastUsed := now\<rparr>) (on_st (\<lambda>s. s\<lparr>s_world := w\<rparr>) P)"
  let ?us = "u\<lparr>us_locked := True, us_lastUsed := now\<rparr>"
  have inv0: "sessions_inv {} (on_st (\<lambda>s. s\<lparr>s_world := w\<rparr>) P)" using inv by (rule sessions_inv_same) simp_all
  have inv1: "sessions_inv {i} ?P1" using sessions_inv_lock [OF inv0] u by simp
  have set1: "settled i ?P1" using sessions_inv_settled [OF inv0, of i] u by (simp add: settled_def)
  have own1: "owns ?P1 uid i" using own by (simp add: owns_def)
  have us: "px_heap ?P1 i = Some ?us" using u by simp
  obtain resp2 P2 where m: "sessionMethod L E p r repo uid i ?us ?P1 = (resp2, P2)" by fastforce
  note P2 = sessionMethod_inv [OF m us inv1 set1 own1]
  have out: "resp = resp2" "P' = upd_session i (\<lambda>u. u\<lparr>us_locked := False\<rparr>) (expireIdleSessions E P2)"
    using run clock u m by (auto simp: sessionOp_def Let_def)
  have inv': "sessions_inv {} P'" using sessionOp_inv [OF inv own] run by (metis snd_conv)
  have sub2: "set (px_sessions P2) \<subseteq> set (px_sessions P)"
    using sessionMethod_others [OF m, of "Suc i"] by simp
  have sub: "set (px_sessions P') \<subseteq> set (px_sessions P2)"
    using expireIdleSessions_sessions [of E P2] out by simp
  have heap: "\<exists>u. px_heap P j = Some u \<and> us_hash w = us_hash u" if "j \<noteq> i" "px_heap P' j = Some w" for j w
  proof -
    have "px_heap P' j = px_heap (expireIdleSessions E P2) j" using that(1) out by simp
    moreover obtain b where "px_heap (expireIdleSessions E P2) j = map_option (\<lambda>u. u\<lparr>us_open := us_open u \<and> b\<rparr>) (px_heap P2 j)"
      using expireIdleSessions_heap by blast
    moreover have "px_heap P2 j = px_heap P j" using sessionMethod_others [OF m that(1)] that(1) by simp
    ultimately show ?thesis using that(2) by (cases "px_heap P j") auto
  qed
  have elsewhere: "uploads P' v = None \<or> uploads P' v = uploads P v" if "map_of (px_sessions P') v \<noteq> Some i" for v
    by (rule uploads_elsewhere [OF inv inv' _ heap that]) (use sub sub2 in auto)
  have gone: "uploads P' uid = None" if "map_of (px_sessions P2) uid = None"
  proof -
    have "map_of (px_sessions P') uid = None" using that sub by (auto simp: map_of_eq_None_iff)
    then show ?thesis by (rule uploads_unlisted)
  qed
  have stays: "uploads P' uid = Some (us_hash w)"
    if "px_sessions P2 = px_sessions P" "px_heap P2 i = Some w" "map_of (px_sessions P) uid = Some i" for w
  proof -
    have "us_locked w" using P2 that(2) unfolding sessions_inv_def by blast
    with sweep_keeps [OF conjunct1 [OF P2], of uid i w E] that map_of_SomeD [OF that(3)]
    have "(uid, i) \<in> set (px_sessions (expireIdleSessions E P2))" "px_heap (expireIdleSessions E P2) i = Some w"
      by simp_all
    then have "(uid, i) \<in> set (px_sessions P')" "px_heap P' i = Some (w\<lparr>us_locked := False\<rparr>)" using out by simp_all
    moreover from this(1) inv' have "map_of (px_sessions P') uid = Some i"
      unfolding sessions_inv_def by (auto intro: map_of_is_SomeI)
    ultimately show ?thesis using uploads_listed [OF inv'] by fastforce
  qed
  show thesis
    by (rule that [OF inv1 set1 us _ m [folded out(1)] elsewhere gone stays]) simp
qed

text \<open>A request for a session that is listed is a step of the machine.\<close>

lemma sessionMethod_step:
  assumes m: "sessionMethod L E p r repo uid i us P1 = (resp, P2)" and us: "px_heap P1 i = Some us"
    and inv1: "sessions_inv {i} P1" and settled1: "settled i P1"
    and s: "s uid = Some (us_hash us)" and others: "others_kept uid s s'"
    and gone: "map_of (px_sessions P2) uid = None \<Longrightarrow> s' uid = None"
    and stays: "\<And>w. px_sessions P2 = px_sessions P1 \<Longrightarrow> px_heap P2 i = Some w \<Longrightarrow> s' uid = Some (us_hash w)"
  shows "continue_step L r uid (hp_status resp) s s'"
proof -
  have same: "s' uid = s uid" if "P2 = P1" using stays [of us] that us s by simp
  consider (patch) "hr_method r = ''PATCH''" | (put) "hr_method r = ''PUT''" | (get) "hr_method r = ''GET''"
    | (delete) "hr_method r = ''DELETE''" | (bad) "hr_method r \<notin> {''PATCH'', ''PUT'', ''GET'', ''DELETE''}"
    by blast
  then show ?thesis
  proof cases
    case patch
    with m have run: "sessionPatch L E r repo uid i us P1 = (resp, P2)" by (simp add: sessionMethod_def)
    let ?cr = "header_get (hr_hdrs r) ''Content-Range''"
    show ?thesis
    proof (cases "?cr \<noteq> '''' \<and> \<not> has_prefix ?cr (itoa (sint (us_size us)) @ ''-'')")
      case True
      then have "hp_status resp = 416" "P2 = P1" using run by (auto simp: sessionPatch_def Let_def)
      with patch same s others show ?thesis by (intro kept) simp_all
    next
      case False
      from run us False show ?thesis
      proof (cases rule: sessionPatch_in_order)
        case (failed P3)
        then have "map_of (px_sessions P2) uid = None" by (auto simp: map_of_eq_None_iff set_delete)
        with gone have "s' uid = None" by simp
        with failed(1) patch s others show ?thesis by (intro ended) simp_all
      next
        case applied
        obtain res P3 where copy: "session_copy E i r P1 = (res, P3)" by fastforce
        have "px_sessions P2 = px_sessions P1"
          using run applied(1) session_copy_frame [OF copy] copy
          by (cases res) (auto simp: sessionPatch_def Let_def split: if_splits)
        from stays [OF this applied(2)] have "s' uid = Some (us_hash us @ hr_body r)" by simp
        with applied(1) patch s others show ?thesis using appended by simp
      qed
    qed
  next
    case put
    with m have run: "sessionPut L E p r repo uid i us P1 = (resp, P2)" by (simp add: sessionMethod_def)
    note end' = gone [OF sessionPut_gone [OF run]]
    show ?thesis
    proof (cases "hp_status resp = 201")
      case True
      have "us_open us \<longrightarrow> us_size us = of_nat (length (us_hash us))"
        using settled1 us by (simp add: settled_def)
      from sessionPut_created [OF run True us inv1 this] put s end' others True
      show ?thesis using completed [of r s uid "us_hash us" L s'] by (simp add: Let_def)
    next
      case False
      with put s end' others show ?thesis by (intro ended) simp_all
    qed
  next
    case get
    with m have "hp_status resp = 204" "P2 = P1" by (auto simp: sessionMethod_def)
    with get same s others show ?thesis by (intro kept) simp_all
  next
    case delete
    with m have "hp_status resp = 204" "P2 = drop_session uid i P1" by (auto simp: sessionMethod_def)
    moreover from this have "map_of (px_sessions P2) uid = None" by (auto simp: map_of_eq_None_iff set_delete)
    ultimately show ?thesis using delete s others gone by (intro ended) simp_all
  next
    case bad
    with m have "hp_status resp = 405" "P2 = P1" by (auto simp: sessionMethod_def)
    with bad same s others show ?thesis by (intro kept) simp_all
  qed
qed

lemma uploadContinue_step:
  assumes inv: "sessions_inv {} P" and run: "uploadContinue L E p r repo uid P = (resp, P')"
  shows "continue_step L r uid (hp_status resp) (uploads P) (uploads P')"
proof (cases "map_of (px_sessions P) uid")
  case None
  then have "hp_status resp = 404" "P' = P" using run by (auto simp: uploadContinue_def)
  with uploads_unlisted [OF None] show ?thesis using unknown by simp
next
  case (Some i)
  obtain u where u: "px_heap P i = Some u" using sessions_inv_mapped [OF inv Some] by blast
  have op: "sessionOp L E p r repo uid i P = (resp, P')" using run Some by (simp add: uploadContinue_def)
  note own = owns_lookup [OF inv Some]
  show ?thesis
  proof (rule sessionOp_effect [OF inv own u op])
    fix now P1 P2
    let ?us = "u\<lparr>us_locked := True, us_lastUsed := now\<rparr>"
    assume P1: "sessions_inv {i} P1" "settled i P1" "px_heap P1 i = Some ?us" "px_sessions P1 = px_sessions P"
      and m: "sessionMethod L E p r repo uid i ?us P1 = (resp, P2)"
      and elsewhere: "\<And>v. map_of (px_sessions P') v \<noteq> Some i \<Longrightarrow> uploads P' v = None \<or> uploads P' v = uploads P v"
      and gone: "map_of (px_sessions P2) uid = None \<Longrightarrow> uploads P' uid = None"
      and stays: "\<And>w. px_sessions P2 = px_sessions P \<Longrightarrow> px_heap P2 i = Some w \<Longrightarrow> map_of (px_sessions P) uid = Some i \<Longrightarrow>
        uploads P' uid = Some (us_hash w)"
    have "map_of (px_sessions P') v \<noteq> Some i" if "v \<noteq> uid" for v
    proof
      assume "map_of (px_sessions P') v = Some i"
      then have "(v, i) \<in> set (px_sessions P)"
        using sessionOp_grows [of P L E p r repo uid i] op sessions_inv_fresh(1) [OF inv refl] u
        by (force dest: map_of_SomeD simp: grows_def)
      with own that show False unfolding owns_def by blast
    qed
    with elsewhere have "others_kept uid (uploads P) (uploads P')" unfolding others_kept_def by blast
    with uploads_listed [OF inv Some u] gone stays Some P1(4)
    show ?thesis by (intro sessionMethod_step [OF m P1(3,1,2)]) simp_all
  qed
qed

text \<open>A request for an upload opens no session, so it uses no new file.\<close>

lemma sessionOp_heap:
  assumes "sessionOp L E p r repo uid i P = (resp, P')" and "px_heap P j = None"
  shows "px_heap P' j = None"
proof -
  obtain now w where clock: "clock E (s_world (px_st P)) = (now, w)" by fastforce
  let ?P1 = "upd_session i (\<lambda>u. u\<lparr>us_locked := True, us_lastUsed := now\<rparr>) (on_st (\<lambda>s. s\<lparr>s_world := w\<rparr>) P)"
  show ?thesis
  proof (cases "px_heap P i")
    case None
    with assms clock show ?thesis by (auto simp: sessionOp_def Let_def)
  next
    case (Some u)
    obtain resp2 P2 where m: "sessionMethod L E p r repo uid i (u\<lparr>us_locked := True, us_lastUsed := now\<rparr>) ?P1 = (resp2, P2)"
      by fastforce
    have "j \<noteq> i" using Some assms(2) by auto
    then have "px_heap P2 j = None" using sessionMethod_others [OF m] assms(2) by simp
    with assms(1) clock Some m \<open>j \<noteq> i\<close> show ?thesis
      using expireIdleSessions_frame [of E P2] by (auto simp: sessionOp_def Let_def)
  qed
qed

lemma uploadContinue_names: "uploadContinue L E p r repo uid P = (resp, P') \<Longrightarrow> new_names P P'"
  using sessionOp_heap [of L E p r repo uid _ P resp P']
  by (auto simp: uploadContinue_def new_names_def split: option.splits)

text \<open>A request that looked its session up before another one ended it changes no upload; some may expire.\<close>

lemma stale_request:
  assumes inv: "sessions_inv {} P" and own: "owns P uid i" and u: "px_heap P i = Some u"
    and "map_of (px_sessions P) uid \<noteq> Some i" and op: "sessionOp L E p r repo uid i P = (resp, P')"
  shows "uploads P' \<subseteq>\<^sub>m uploads P"
proof (rule sessionOp_effect [OF inv own u op])
  assume elsewhere: "\<And>v. map_of (px_sessions P') v \<noteq> Some i \<Longrightarrow> uploads P' v = None \<or> uploads P' v = uploads P v"
  have "map_of (px_sessions P') v \<noteq> Some i" for v
  proof
    assume "map_of (px_sessions P') v = Some i"
    then have "(v, i) \<in> set (px_sessions P)"
      using sessionOp_grows [of P L E p r repo uid i] op sessions_inv_fresh(1) [OF inv refl] u
      by (force dest: map_of_SomeD simp: grows_def)
    moreover from this own have "v = uid" unfolding owns_def by blast
    ultimately have "map_of (px_sessions P) uid = Some i"
      using inv unfolding sessions_inv_def by (auto intro: map_of_is_SomeI)
    with assms(4) show False by simp
  qed
  with elsewhere show ?thesis unfolding map_le_def dom_def by (metis (mono_tags) mem_Collect_eq)
qed

section \<open>Every request\<close>

lemma serve_begin:
  assumes "upload_call_of r = Some Begin"
  shows "\<exists>repo. serveHTTP L E R p r P = uploadStart L E R p r repo P"
proof -
  define segs where "segs = fields_func (\<lambda>c. c = CHR ''/'') (hr_path r)"
  define rest where "rest = tl segs"
  define n where "n = length rest"
  note defs = segs_def [symmetric] rest_def [symmetric] n_def [symmetric]
  have "segs \<noteq> []" "hd segs = ''v2''" "n \<ge> 3" "rest ! (n - 2) = ''blobs''" "rest ! (n - 1) = ''uploads''"
    "rmatch proxyNameRe (str_join (take (n - 2) rest) ''/'')" "hr_method r = ''POST''"
    using assms unfolding upload_call_of_def Let_def defs by (simp_all split: if_splits)
  then show ?thesis
    unfolding serveHTTP_def Let_def defs by (simp add: repoOr400_def) blast
qed

lemma serve_continue:
  assumes "upload_call_of r = Some (Continue uid)"
  shows "\<exists>repo. serveHTTP L E R p r P = uploadContinue L E p r repo uid P"
proof -
  define segs where "segs = fields_func (\<lambda>c. c = CHR ''/'') (hr_path r)"
  define rest where "rest = tl segs"
  define n where "n = length rest"
  note defs = segs_def [symmetric] rest_def [symmetric] n_def [symmetric]
  have "segs \<noteq> []" "hd segs = ''v2''" "n \<ge> 4" "rest ! (n - 3) = ''blobs''" "rest ! (n - 2) = ''uploads''"
    "rmatch proxyNameRe (str_join (take (n - 3) rest) ''/'')" "rmatch proxyUploadIDRe uid" "uid = rest ! (n - 1)"
    using assms unfolding upload_call_of_def Let_def defs by (simp_all split: if_splits)
  then show ?thesis
    unfolding serveHTTP_def Let_def defs by (simp add: repoOr400_def pathPartOr400_def) blast
qed

lemma serve_outside:
  assumes "upload_call_of r = None" and "serveHTTP L E R p r P = (resp, P')"
  shows "px_heap P' = px_heap P \<and> px_sessions P' = px_sessions P \<and> s_disk (px_st P') = s_disk (px_st P)"
  using assms
  by (auto simp: upload_call_of_def serveHTTP_def repoOr400_def pathPartOr400_def Let_def
      split: if_splits dest: forward_frame manifestPut_frame)

lemma uploadStart_step:
  assumes inv: "sessions_inv {} P" and run: "uploadStart L E R p r repo P = (resp, P')" and names: "new_names P P'"
    and call: "upload_call_of r = Some Begin"
  shows "upload_step L r resp (uploads P) (uploads P')"
  using run
proof (cases rule: uploadStart_cases)
  case (answered s1)
  then have "uploads P' = uploads P" by (intro uploads_same) simp_all
  with answered call show ?thesis by (simp add: not_begun)
next
  case (unread s1 name)
  have inv': "sessions_inv {} P'" by (rule uploadStart_inv [OF inv run names])
  have "uploads P' v = uploads P v" for v
  proof (cases "map_of (px_sessions P) v")
    case None
    with unread show ?thesis by (simp add: uploads_unlisted)
  next
    case (Some i)
    then obtain u where "px_heap P i = Some u" using sessions_inv_mapped [OF inv] by blast
    with Some unread show ?thesis using uploads_listed [OF inv Some] uploads_listed [OF inv', of v i u] by simp
  qed
  then have "uploads P' = uploads P" by blast
  with unread(4) call show ?thesis by (simp add: not_begun)
next
  case (opened s1 name b now)
  let ?i = "px_next P"
  let ?u = "\<lparr>us_file = name, us_open = True, us_locked = False, us_size = 0, us_hash = [], us_lastUsed = now\<rparr>"
  let ?P1 = "P\<lparr>px_st := s1, px_heap := (px_heap P)(?i \<mapsto> ?u), px_next := Suc ?i\<rparr>"
  have P': "P' = (expireIdleSessions E ?P1)\<lparr>px_sessions :=
      AList.update (hex_encode b) ?i (px_sessions (expireIdleSessions E ?P1))\<rparr>"
    using opened(3) by (simp add: Let_def)
  have uid: "header_get (hp_hdrs resp) ''Docker-Upload-Uuid'' = hex_encode b" "hp_status resp = 202"
    using opened(4) by (simp_all add: header_get_def)
  have inv': "sessions_inv {} P'" by (rule uploadStart_inv [OF inv run names])
  have look: "map_of (px_sessions P') (hex_encode b) = Some ?i" by (simp add: P' update_conv)
  have "\<forall>x \<in> set (px_sessions ?P1). snd x \<noteq> ?i" using sessions_inv_fresh(2) [OF inv refl] by force
  with expireIdleSessions_untouched [of ?P1 ?i E] have "px_heap P' ?i = Some ?u" by (simp add: P')
  with uploads_listed [OF inv' look] have empty: "uploads P' (hex_encode b) = Some []" by simp
  have "uploads P' v = None \<or> uploads P' v = uploads P v" if "v \<noteq> hex_encode b" for v
  proof (cases "map_of (px_sessions P') v")
    case None
    then show ?thesis by (simp add: uploads_unlisted)
  next
    case (Some j)
    then have "(v, j) \<in> set (px_sessions (expireIdleSessions E ?P1))"
      using that by (auto simp: P' update_conv dest: map_of_SomeD)
    then have old: "(v, j) \<in> set (px_sessions P)" using expireIdleSessions_sessions [of E ?P1] by auto
    with inv have lookv: "map_of (px_sessions P) v = Some j"
      unfolding sessions_inv_def by (auto intro: map_of_is_SomeI)
    obtain w where w: "px_heap P j = Some w" using sessions_inv_mapped [OF inv lookv] by blast
    have "j \<noteq> ?i" using old sessions_inv_fresh(2) [OF inv refl] by auto
    then obtain c where "px_heap P' j = Some (w\<lparr>us_open := us_open w \<and> c\<rparr>)"
      using expireIdleSessions_heap [of E ?P1 j] w by (auto simp: P')
    from uploads_listed [OF inv' Some this] uploads_listed [OF inv lookv w] show ?thesis by simp
  qed
  then have "others_kept (hex_encode b) (uploads P) (uploads P')" unfolding others_kept_def by blast
  with empty uid call show ?thesis by (intro begun) simp_all
qed

lemma serveHTTP_step:
  assumes inv: "sessions_inv {} P" and "serveHTTP L E R p r P = (resp, P')" and "new_names P P'"
  shows "upload_step L r resp (uploads P) (uploads P')"
proof (cases "upload_call_of r")
  case None
  with serve_outside [OF None assms(2)] show ?thesis
    using uploads_same [of P' P] by (simp add: outside)
next
  case (Some call)
  show ?thesis
  proof (cases call)
    case Begin
    with Some serve_begin [of r L E R p P] assms(2) uploadStart_step [OF inv _ assms(3)] show ?thesis by metis
  next
    case (Continue uid)
    with Some have c: "upload_call_of r = Some (Continue uid)" by simp
    with serve_continue [OF c, of L E R p P] assms(2) uploadContinue_step [OF inv] show ?thesis
      by (metis continued)
  qed
qed

text \<open>
  C11: the proxy implements the abstract uploads. It starts with none, and whatever requests came before and
  however they interleaved, a request that is served changes the map of uploads as the abstract machine says:
  a POST that is answered 202 begins an empty upload under the id it hands out; a PATCH that is answered 202
  appends its body and, answered 416, changes nothing; a PUT ends its upload and is answered 201 only if the
  declared digest is that of all the bytes; DELETE ends it; every other request changes no upload. The
  other uploads stay as they are or expire.
\<close>

theorem proxy_refines_uploads:
  assumes "newProxy reg N i host pre opts s = Inr (p, P0)" and "(proxy_step L E R p)\<^sup>*\<^sup>* (P0, []) (P, Q)"
    and "serveHTTP L E R p r P = (resp, P')" and "new_names P P'"
  shows "uploads P0 = Map.empty \<and> upload_step L r resp (uploads P) (uploads P')"
proof
  have "px_sessions P0 = []"
    using assms(1) by (auto simp: newProxy_def split: if_splits sum.splits prod.splits)
  then show "uploads P0 = Map.empty" by (simp add: uploads_def fun_eq_iff)
  have "sessions_inv {} P"
    using proxy_reachable_inv [OF assms(2) newProxy_inv [OF assms(1)]] by (simp add: proxy_inv_def)
  then show "upload_step L r resp (uploads P) (uploads P')" using assms(3,4) by (rule serveHTTP_step)
qed

text \<open>The upload of the example: begun, and a chunk appended by a served request.\<close>

theorem proxy_refines_uploads_witness:
  "upload_step toy_lib (demo_req ''PATCH'' (''/v2/app/blobs/uploads/'' @ demo_id) [] ''ab'')
     (fst (serveHTTP toy_lib script_env demo_random demo_proxy
        (demo_req ''PATCH'' (''/v2/app/blobs/uploads/'' @ demo_id) [] ''ab'') demo_started))
     (uploads demo_started)
     (uploads (snd (serveHTTP toy_lib script_env demo_random demo_proxy
        (demo_req ''PATCH'' (''/v2/app/blobs/uploads/'' @ demo_id) [] ''ab'') demo_started)))
   \<and> uploads demo_started demo_id = Some []
   \<and> uploads (snd (serveHTTP toy_lib script_env demo_random demo_proxy
        (demo_req ''PATCH'' (''/v2/app/blobs/uploads/'' @ demo_id) [] ''ab'') demo_started)) demo_id = Some ''ab''"
proof -
  let ?P = "demo_pst [ok 404, answer 202 [(''Location'', ''/u'')] [], ok 201]"
  let ?r = "demo_req ''PATCH'' (''/v2/app/blobs/uploads/'' @ demo_id) [] ''ab''"
  let ?run = "serveHTTP toy_lib script_env demo_random demo_proxy ?r demo_started"
  have "proxy_step toy_lib script_env demo_random demo_proxy (?P, []) (demo_started, [])"
    unfolding demo_started_def
    by (rule proxy_step.serve [OF prod.collapse [symmetric]]) (simp add: new_names_def demo_pst_def)
  then have reach: "(proxy_step toy_lib script_env demo_random demo_proxy)\<^sup>*\<^sup>* (?P, []) (demo_started, [])" by blast
  have "upload_call_of ?r = Some (Continue demo_id)" by code_simp
  from serve_continue [OF this, of toy_lib script_env demo_random demo_proxy demo_started]
  obtain repo where "?run = uploadContinue toy_lib script_env demo_proxy ?r repo demo_id demo_started" by blast
  then have names: "new_names demo_started (snd ?run)"
    using uploadContinue_names [OF prod.collapse [symmetric]] by simp
  from proxy_refines_uploads [OF demo_new reach prod.collapse [symmetric] names]
  have "upload_step toy_lib ?r (fst ?run) (uploads demo_started) (uploads (snd ?run))" by simp
  moreover have "uploads demo_started demo_id = Some []" by code_simp
  moreover have "uploads (snd ?run) demo_id = Some ''ab''" by code_simp
  ultimately show ?thesis by simp
qed

section \<open>What a completed upload consists of\<close>

inductive_cases upload_stepE: "upload_step L r resp s s'"
inductive_cases continue_stepE: "continue_step L r uid n s s'"

text \<open>
  The uploads according to the requests and their answers alone: an id is begun by the answer to a POST, grows
  by the bodies of the PATCHes that were answered 202, and is over after a PUT, a DELETE or a failed PATCH.
\<close>

definition history_step :: "http_req \<times> http_resp \<Rightarrow> store \<Rightarrow> store" where
  "history_step e h =
     (case e of (r, resp) \<Rightarrow>
       (case upload_call_of r of
          None \<Rightarrow> h
        | Some Begin \<Rightarrow>
            (if hp_status resp = 202 then h(header_get (hp_hdrs resp) ''Docker-Upload-Uuid'' \<mapsto> []) else h)
        | Some (Continue uid) \<Rightarrow>
            (if hr_method r = ''PATCH'' \<and> hp_status resp = 202
             then h(uid := map_option (\<lambda>b. b @ hr_body r) (h uid))
             else if hr_method r \<in> {''PUT'', ''DELETE''} \<or> hr_method r = ''PATCH'' \<and> hp_status resp = 400
             then h(uid := None)
             else h)))"

definition upload_history :: "(http_req \<times> http_resp) list \<Rightarrow> store" where
  "upload_history trace = fold history_step trace Map.empty"

text \<open>Requests served one after the other, with their answers.\<close>

inductive served ::
  "lib \<Rightarrow> 'w env \<Rightarrow> (nat \<Rightarrow> 'w \<Rightarrow> (string + bytes) \<times> 'w) \<Rightarrow> Proxy \<Rightarrow> 'w pst \<Rightarrow> (http_req \<times> http_resp) list \<Rightarrow>
   'w pst \<Rightarrow> bool" for L E R p P0 where
  none: "served L E R p P0 [] P0"
| more: "served L E R p P0 trace P \<Longrightarrow> serveHTTP L E R p r P = (resp, P') \<Longrightarrow> new_names P P' \<Longrightarrow>
    served L E R p P0 (trace @ [(r, resp)]) P'"

lemma others_kept_le: "others_kept uid s s' \<Longrightarrow> s \<subseteq>\<^sub>m h \<Longrightarrow> v \<noteq> uid \<Longrightarrow> s' v = Some b \<Longrightarrow> h v = Some b"
  unfolding others_kept_def map_le_def by (metis domI option.distinct(1))

lemma continue_history:
  assumes "continue_step L r uid (hp_status resp) s s'" and "upload_call_of r = Some (Continue uid)" and "s \<subseteq>\<^sub>m h"
    and "s' v = Some b"
  shows "history_step (r, resp) h v = Some b"
proof -
  have le: "h w = Some c" if "s w = Some c" for w c using assms(3) that by (metis domI map_le_def)
  from assms(1) show ?thesis
    by (rule continue_stepE)
      (use assms(2,4) le others_kept_le [OF _ assms(3)] in \<open>cases "v = uid"; auto simp: history_step_def split: if_splits\<close>)+
qed

lemma step_history:
  assumes "upload_step L r resp s s'" and "s \<subseteq>\<^sub>m h"
  shows "s' \<subseteq>\<^sub>m history_step (r, resp) h"
proof -
  have "history_step (r, resp) h v = Some b" if "s' v = Some b" for v b
    using assms(1)
  proof (rule upload_stepE)
    fix uid
    assume "upload_call_of r = Some (Continue uid)" "continue_step L r uid (hp_status resp) s s'"
    with continue_history assms(2) that show ?thesis by blast
  next
    let ?uid = "header_get (hp_hdrs resp) ''Docker-Upload-Uuid''"
    assume b: "upload_call_of r = Some Begin" "hp_status resp = 202" "s' ?uid = Some []" "others_kept ?uid s s'"
    show ?thesis
    proof (cases "v = ?uid")
      case True
      with b that show ?thesis by (simp add: history_step_def)
    next
      case False
      with b others_kept_le [OF b(4) assms(2) False that] show ?thesis by (simp add: history_step_def)
    qed
  qed (use assms(2) that in \<open>auto simp: history_step_def map_le_def dom_def\<close>)
  then show ?thesis unfolding map_le_def by auto
qed

lemma served_steps:
  assumes "served L E R p P0 trace P"
  shows "(proxy_step L E R p)\<^sup>*\<^sup>* (P0, []) (P, [])"
  using assms by (induction rule: served.induct) (auto intro: rtranclp.rtrancl_into_rtrancl proxy_step.serve)

lemma served_history:
  assumes "served L E R p P0 trace P" and "newProxy reg N i host pre opts s = Inr (p, P0)"
  shows "sessions_inv {} P \<and> uploads P \<subseteq>\<^sub>m upload_history trace"
  using assms(1)
proof (induction rule: served.induct)
  case none
  have "px_sessions P0 = []"
    using assms(2) by (auto simp: newProxy_def split: if_splits sum.splits prod.splits)
  then have "uploads P0 = Map.empty" by (simp add: uploads_def fun_eq_iff)
  with newProxy_inv [OF assms(2)] show ?case by (simp add: proxy_inv_def)
next
  case (more trace P r resp P')
  then have "upload_step L r resp (uploads P) (uploads P')" using serveHTTP_step by blast
  with more have "uploads P' \<subseteq>\<^sub>m history_step (r, resp) (upload_history trace)" using step_history by blast
  with more serveHTTP_inv show ?case by (auto simp: upload_history_def)
qed


definition demo_post :: http_req where
  "demo_post = demo_req ''POST'' ''/v2/app/blobs/uploads'' [] []"

definition demo_patch :: http_req where
  "demo_patch = demo_req ''PATCH'' (''/v2/app/blobs/uploads/'' @ demo_id) [] ''ab''"

definition demo_put :: http_req where
  "demo_put = demo_req ''PUT'' (''/v2/app/blobs/uploads/'' @ demo_id) [(''digest'', demo_digest 3)] ''c''"

definition demo_serve :: "http_req \<Rightarrow> script pst \<Rightarrow> http_resp \<times> script pst" where
  "demo_serve r P = serveHTTP toy_lib script_env demo_random demo_proxy r P"

definition demo_world :: "script pst" where
  "demo_world = demo_pst [ok 404, answer 202 [(''Location'', ''/u'')] [], ok 201]"

lemma demo_statuses:
  "let (a, P1) = demo_serve demo_post demo_world; (b, P2) = demo_serve demo_patch P1; (c, P3) = demo_serve demo_put P2
   in hp_status a = 202 \<and> header_get (hp_hdrs a) ''Docker-Upload-Uuid'' = demo_id \<and> hp_status b = 202 \<and> hp_status c = 201"
  by code_simp

lemma demo_calls:
  "upload_call_of demo_post = Some Begin" "upload_call_of demo_patch = Some (Continue demo_id)"
  "upload_call_of demo_put = Some (Continue demo_id)"
  by code_simp+


end
