(* ===== verification/Push_Lock.thy ===== *)
theory Push_Lock
  imports Prelude
begin

text \<open>
  The push lock (\<open>pkg/pushlock/pushlock.go\<close>, \<open>flock_unix.go\<close>). Several processes run \<open>Acquire\<close> and the
  function it returns on one lock file. The state has the owner of the kernel's advisory lock, the
  content of the file and, for every process, the point of the code at which it is. A step is one
  system call of one process, as documented: \<open>LOCK_EX | LOCK_NB\<close> succeeds when no other open file
  holds the lock, closing the file or the death of the process gives the lock back. \<open>lock_act\<close> is the
  code as a function of the action the environment chooses, and \<open>lock_step\<close> the interleaving of all
  processes.
\<close>

section \<open>The operations\<close>

definition validateAbsPath :: "string \<Rightarrow> go_err + unit" where
  "validateAbsPath path =
     (if path ! 0 \<noteq> CHR ''/''
      then Inl (Msg (''push lock path must be absolute, got '' @ go_quote path)) else Inr ())"

definition NewFlockPushLock :: "string \<Rightarrow> go_err + string" where
  "NewFlockPushLock path =
     (if path = '''' then Inl (Msg ''push lock path must not be empty'')
      else case validateAbsPath path of Inl e \<Rightarrow> Inl e | Inr _ \<Rightarrow> Inr path)"

text \<open>The file after \<open>writeHolder\<close>, and what \<open>readHolder\<close> reports of it.\<close>

definition writeHolder :: "nat \<Rightarrow> string \<Rightarrow> bytes" where
  "writeHolder pid started =
     ''pid='' @ itoa (int pid) @ [CHR 10] @ ''started='' @ started @ [CHR 10]"

definition readHolder :: "bytes \<Rightarrow> string" where
  "readHolder content = (if length content = 0 then ''(unknown)'' else take 256 content)"

text \<open>
  Where a process is: not in \<open>Acquire\<close>; with the file open before the next \<open>Flock\<close> (\<open>waited\<close> is the
  code's variable); between a failed \<open>Flock\<close> and the end of the pause; after \<open>Flock\<close> and before the
  metadata is written; holding (\<open>Acquire\<close> has returned); between the unlock and the close in
  \<open>release\<close>; dead.
\<close>

datatype phase =
    Idle
  | Opened bool
  | Pausing bool
  | Locked
  | Holding
  | Unlocked
  | Dead

record lock_state =
  lk_owner :: "nat option"
  lk_content :: bytes
  lk_phase :: "nat \<Rightarrow> phase"
  lk_log :: "(nat \<times> string) list"  \<comment> \<open>who was told whom it waits for\<close>

datatype action =
    OpenFile
  | OpenFails string
  | TryLock
  | PauseOver
  | Cancelled
  | WriteHolder string  \<comment> \<open>the formatted time\<close>
  | Unlock
  | CloseFile
  | Die

definition set_phase :: "nat \<Rightarrow> phase \<Rightarrow> lock_state \<Rightarrow> lock_state" where
  "set_phase p ph s = s\<lparr>lk_phase := (lk_phase s)(p := ph)\<rparr>"

definition drop_lock :: "nat \<Rightarrow> lock_state \<Rightarrow> lock_state" where
  "drop_lock p s = (if lk_owner s = Some p then s\<lparr>lk_owner := None\<rparr> else s)"

text \<open>\<open>None\<close>: the code does not do this here.\<close>

definition lock_act :: "nat \<Rightarrow> action \<Rightarrow> lock_state \<Rightarrow> lock_state option" where
  "lock_act p a s =
     (case (lk_phase s p, a) of
        (Idle, OpenFile) \<Rightarrow> Some (set_phase p (Opened False) s)
      | (Idle, OpenFails e) \<Rightarrow> Some s
      | (Opened waited, TryLock) \<Rightarrow>
          (case lk_owner s of
             None \<Rightarrow> Some (set_phase p Locked (s\<lparr>lk_owner := Some p\<rparr>))
           | Some q \<Rightarrow>
               Some (set_phase p (Pausing True)
                 (if waited then s else s\<lparr>lk_log := lk_log s @ [(p, readHolder (lk_content s))]\<rparr>)))
      | (Pausing waited, PauseOver) \<Rightarrow> Some (set_phase p (Opened waited) s)
      | (Pausing waited, Cancelled) \<Rightarrow> Some (set_phase p Idle (drop_lock p s))
      | (Locked, WriteHolder started) \<Rightarrow> Some (set_phase p Holding (s\<lparr>lk_content := writeHolder p started\<rparr>))
      | (Holding, Unlock) \<Rightarrow> Some (set_phase p Unlocked (drop_lock p s))
      | (Unlocked, CloseFile) \<Rightarrow> Some (set_phase p Idle (drop_lock p s))
      | (Dead, _) \<Rightarrow> None
      | (_, Die) \<Rightarrow> Some (set_phase p Dead (drop_lock p s))
      | _ \<Rightarrow> None)"

inductive lock_step :: "lock_state \<Rightarrow> lock_state \<Rightarrow> bool" where
  act: "lock_act p a s = Some s' \<Longrightarrow> lock_step s s'"

inductive_cases lock_stepE: "lock_step s s'"

definition lock_start :: "bytes \<Rightarrow> lock_state" where
  "lock_start content = \<lparr>lk_owner = None, lk_content = content, lk_phase = (\<lambda>p. Idle), lk_log = []\<rparr>"

section \<open>The invariant\<close>

text \<open>
  The owner of the kernel's lock is exactly the process that is between \<open>Flock\<close> and the unlock, and
  while it holds the lock the file names it.
\<close>

definition in_critical :: "phase \<Rightarrow> bool" where
  "in_critical ph \<longleftrightarrow> ph = Locked \<or> ph = Holding"

definition lock_inv :: "lock_state \<Rightarrow> bool" where
  "lock_inv s \<longleftrightarrow>
     (\<forall>p. in_critical (lk_phase s p) \<longleftrightarrow> lk_owner s = Some p)
     \<and> (\<forall>p. lk_phase s p = Holding \<longrightarrow> (\<exists>started. lk_content s = writeHolder p started))"

lemma lock_start_inv: "lock_inv (lock_start content)"
  by (simp add: lock_inv_def lock_start_def in_critical_def)

lemma lock_act_inv:
  assumes "lock_act p a s = Some s'" and "lock_inv s"
  shows "lock_inv s'"
  using assms
  by (auto simp: lock_act_def lock_inv_def set_phase_def drop_lock_def in_critical_def
      split: phase.splits action.splits option.splits if_splits; metis option.inject)

lemma lock_reachable_inv:
  assumes "lock_step\<^sup>*\<^sup>* (lock_start content) s"
  shows "lock_inv s"
  using assms
proof (induction rule: rtranclp_induct)
  case base
  show ?case by (rule lock_start_inv)
next
  case (step s s')
  then show ?case by (auto elim: lock_stepE intro: lock_act_inv)
qed

text \<open>
  C25: pushes are serialized. However the processes interleave, are cancelled or die, at most one of
  them is between acquiring and releasing, and while one holds the lock the lock file names that
  process.
\<close>

theorem push_lock_excludes:
  assumes "lock_step\<^sup>*\<^sup>* (lock_start content) s"
    and "in_critical (lk_phase s p)" and "in_critical (lk_phase s q)"
  shows "p = q \<and> (lk_phase s p = Holding \<longrightarrow> (\<exists>started. lk_content s = writeHolder p started))"
  using lock_reachable_inv [OF assms(1)] assms(2,3) unfolding lock_inv_def by auto

text \<open>A run: process 1 acquires, process 2 waits, process 1 releases, process 2 acquires.\<close>

fun lock_run :: "(nat \<times> action) list \<Rightarrow> lock_state \<Rightarrow> lock_state option" where
  "lock_run [] s = Some s"
| "lock_run ((p, a) # as) s = (case lock_act p a s of None \<Rightarrow> None | Some s' \<Rightarrow> lock_run as s')"

lemma lock_run_reach: "lock_run as s = Some s' \<Longrightarrow> lock_step\<^sup>*\<^sup>* s s'"
  by (induction as s rule: lock_run.induct)
    (auto split: option.splits intro: converse_rtranclp_into_rtranclp lock_step.act)

definition two_pushes :: "(nat \<times> action) list" where
  "two_pushes = [(1, OpenFile), (1, TryLock), (1, WriteHolder ''now''), (2, OpenFile), (2, TryLock),
     (2, PauseOver), (1, Unlock), (2, TryLock), (1, CloseFile), (2, WriteHolder ''later'')]"

theorem push_lock_excludes_witness:
  "\<exists>s. lock_run two_pushes (lock_start []) = Some s \<and> lk_phase s 2 = Holding \<and> \<not> in_critical (lk_phase s 1)
     \<and> lk_log s = [(2, ''pid=1'' @ [CHR 10] @ ''started=now'' @ [CHR 10])]"
proof -
  have "map_option (\<lambda>s. (lk_phase s 2, lk_log s)) (lock_run two_pushes (lock_start []))
      = Some (Holding, [(2, ''pid=1'' @ [CHR 10] @ ''started=now'' @ [CHR 10])])"
    by code_simp
  then obtain s where s: "lock_run two_pushes (lock_start []) = Some s" "lk_phase s 2 = Holding"
      "lk_log s = [(2, ''pid=1'' @ [CHR 10] @ ''started=now'' @ [CHR 10])]"
    by auto
  have "in_critical (lk_phase s 2)" using s(2) by (simp add: in_critical_def)
  from push_lock_excludes [OF lock_run_reach [OF s(1)] _ this, of 1] s show ?thesis by auto
qed

section \<open>Progress\<close>

text \<open>
  C26: the lock is never lost. In every reachable state in which no living process is inside, a process
  that waits gets the lock by its own next steps, whatever became of earlier holders; and a process
  that gives up holds nothing.
\<close>

theorem push_lock_progress:
  assumes "lock_step\<^sup>*\<^sup>* (lock_start content) s" and "\<forall>q. \<not> in_critical (lk_phase s q)"
    and "lk_phase s p = Opened waited \<or> lk_phase s p = Pausing waited"
  shows "\<exists>as s'. as \<in> {[(p, TryLock), (p, WriteHolder t)], [(p, PauseOver), (p, TryLock), (p, WriteHolder t)]}
    \<and> lock_run as s = Some s' \<and> lk_phase s' p = Holding \<and> lk_owner s' = Some p"
proof -
  have "lk_owner s = None"
    using lock_reachable_inv [OF assms(1)] assms(2) unfolding lock_inv_def by (cases "lk_owner s") auto
  with assms(3) show ?thesis
    by (auto simp: lock_act_def set_phase_def)
qed

theorem push_lock_progress_witness:
  "\<exists>s as s'. lock_run [(1, OpenFile), (1, TryLock), (2, OpenFile), (2, TryLock), (1, Die)] (lock_start []) = Some s
     \<and> lock_run as s = Some s' \<and> lk_phase s' 2 = Holding \<and> lk_owner s' = Some 2"
proof -
  let ?as = "[(1, OpenFile), (1, TryLock), (2, OpenFile), (2, TryLock), (1, Die)]"
  obtain s where s: "lock_run ?as (lock_start []) = Some s" "lk_phase s = (\<lambda>p. Idle)(1 := Dead, 2 := Pausing True)"
    by (simp add: lock_act_def lock_start_def set_phase_def drop_lock_def fun_upd_twist)
  then have "\<forall>q. \<not> in_critical (lk_phase s q)" "lk_phase s 2 = Pausing True"
    by (simp_all add: in_critical_def)
  with push_lock_progress [OF lock_run_reach [OF s(1)]] s(1) show ?thesis by metis
qed

end
