(* ===== verification/Env_Options.thy ===== *)
theory Env_Options
  imports Go_Path Push_Lock
begin

text \<open>
  Options from the environment (\<open>pkg/env/env.go\<close>). \<open>lookup\<close> is \<open>os.LookupEnv\<close>. A \<open>*bool\<close> is an
  option.
\<close>

text \<open>\<open>strconv.ParseBool\<close>\<close>

definition parse_bool :: "string \<Rightarrow> bool option" where
  "parse_bool s =
     (if s \<in> {''1'', ''t'', ''T'', ''TRUE'', ''true'', ''True''} then Some True
      else if s \<in> {''0'', ''f'', ''F'', ''FALSE'', ''false'', ''False''} then Some False
      else None)"

definition PushOption :: "(string \<Rightarrow> string option) \<Rightarrow> go_err + bool option" where
  "PushOption lookup =
     (case lookup ''CONTAIN_PUSH'' of
        None \<Rightarrow> Inr None
      | Some v \<Rightarrow>
          (case parse_bool v of
             None \<Rightarrow> Inl (Wrap (''invalid CONTAIN_PUSH value '' @ go_quote v)
                       (Msg (''strconv.ParseBool: parsing '' @ go_quote v @ '': invalid syntax'')))
           | Some b \<Rightarrow> Inr (Some b)))"

definition OCIOutput :: "(string \<Rightarrow> string option) \<Rightarrow> go_err + string option" where
  "OCIOutput lookup =
     (case lookup ''CONTAIN_OCI_OUTPUT'' of
        None \<Rightarrow> Inr None
      | Some v \<Rightarrow>
          (if v = '''' then Inr None
           else if is_abs v
           then Inl (Msg (''CONTAIN_OCI_OUTPUT must be a relative path, got '' @ go_quote v))
           else
            let cleaned = path_clean v in
            if cleaned = ''..'' \<or> has_prefix cleaned ''../''
            then Inl (Msg (''CONTAIN_OCI_OUTPUT must not escape the working directory, got '' @ go_quote v))
            else Inr (Some v)))"

definition PushLockPath :: "(string \<Rightarrow> string option) \<Rightarrow> go_err + string" where
  "PushLockPath lookup =
     (case lookup ''CONTAIN_PUSH_LOCK_PATH'' of
        None \<Rightarrow> Inr ''''
      | Some v \<Rightarrow>
          (if v = '''' then Inr ''''
           else if \<not> is_abs v
           then Inl (Msg (''CONTAIN_PUSH_LOCK_PATH must be absolute, got '' @ go_quote v))
           else Inr v))"

definition TurboHash :: "(string \<Rightarrow> string option) \<Rightarrow> string" where
  "TurboHash lookup = (case lookup ''TURBO_HASH'' of None \<Rightarrow> '''' | Some v \<Rightarrow> v)"

section \<open>The output path stays inside\<close>

lemma relative_clean_names:
  assumes "\<not> is_abs v" and "v \<noteq> ''''" and "path_clean v \<noteq> ''..''" and "\<not> has_prefix (path_clean v) ''../''"
  shows "list_all plain_seg (clean_segs False (split_on (CHR ''/'') v))"
proof -
  obtain k names where segs: "clean_segs False (split_on (CHR ''/'') v) = replicate k ''..'' @ names"
      "list_all plain_seg names"
    by (rule clean_segs_shape)
  have k0: "k = 0"
  proof (rule ccontr)
    assume "k \<noteq> 0"
    then obtain m where m: "k = Suc m" by (cases k) auto
    let ?rest = "replicate m ''..'' @ names"
    have out: "path_clean v = str_join (''..'' # ?rest) ''/''"
      using assms(1) segs m by (cases ?rest) (auto simp: path_clean_def Let_def)
    show False
    proof (cases ?rest)
      case Nil
      with out assms(3) show False by simp
    next
      case (Cons a as)
      then have "path_clean v = ''../'' @ str_join ?rest ''/''" using out by simp
      with assms(4) show False by (simp add: has_prefix_def)
    qed
  qed
  with segs show ?thesis by simp
qed

text \<open>
  Joined to an absolute directory, the segments of the two are joined: cleaning the result removes
  nothing of the directory.
\<close>

lemma foldl_clean_relative:
  assumes "foldl (clean_step False) [] segs = rev names" and "list_all plain_seg names"
    and "\<forall>s \<in> set segs. CHR ''/'' \<notin> set s"
  shows "foldl (clean_step r) st segs = rev names @ st"
proof -
  have "foldl (clean_step r) st segs = names' @ st"
    if "foldl (clean_step False) [] segs = names'" "list_all plain_seg names'"
      "\<forall>s \<in> set segs. CHR ''/'' \<notin> set s" for segs names'
    using that
  proof (induction segs arbitrary: names' rule: rev_induct)
    case (snoc x segs)
    define acc where "acc = foldl (clean_step False) [] segs"
    have last: "names' = clean_step False acc x" using snoc.prems(1) by (simp add: acc_def)
    have plain: "list_all plain_seg acc"
    proof (cases "x = '''' \<or> x = ''.''")
      case True
      with last snoc.prems(2) show ?thesis by (simp add: clean_step_def)
    next
      case False
      show ?thesis
      proof (cases "x = ''..''")
        case True
        have "clean_stack False (rev (clean_segs False segs))"
          by (rule clean_segs_stack) (use snoc.prems(3) in simp)
        then obtain ns k where acc: "acc = ns @ replicate k ''..''" "list_all plain_seg ns"
          by (auto simp: clean_stack_def clean_segs_def acc_def)
        have no: "\<not> plain_seg ''..''" by (simp add: plain_seg_def)
        show ?thesis
        proof (cases ns)
          case Nil
          then show ?thesis using last snoc.prems(2) True acc no by (cases k) (auto simp: clean_step_def)
        next
          case (Cons n ns')
          then have "n \<noteq> ''..''" using acc(2) by (simp add: plain_seg_def)
          then have "names' = ns' @ replicate k ''..''" using last True acc Cons by (simp add: clean_step_def)
          then have "k = 0" using snoc.prems(2) no by (cases k) auto
          with acc show ?thesis by simp
        qed
      next
        case False2: False
        with last snoc.prems(2) False show ?thesis by (simp add: clean_step_def)
      qed
    qed
    have IH: "foldl (clean_step r) st segs = acc @ st" by (rule snoc.IH) (use plain snoc.prems(3) in \<open>simp_all add: acc_def\<close>)
    have "clean_step r (acc @ st) x = names' @ st"
    proof (cases "x = ''..''")
      case True
      show ?thesis
      proof (cases acc)
        case Nil
        with last snoc.prems(2) True show ?thesis by (simp add: clean_step_def plain_seg_def)
      next
        case (Cons a as)
        then have "a \<noteq> ''..''" using plain by (simp add: plain_seg_def)
        with last True Cons show ?thesis by (simp add: clean_step_def)
      qed
    next
      case False
      with last show ?thesis by (simp add: clean_step_def)
    qed
    then show ?case by (simp add: IH)
  qed simp
  from this [OF assms(1) _ assms(3)] assms(2) show ?thesis by simp
qed

text \<open>
  C27: an output path that is accepted from the environment stays inside the working directory: the
  cleaned path of the two joined is the working directory's, followed by plain names, with no \<open>..\<close>
  left to climb out.
\<close>

theorem oci_output_inside:
  assumes "OCIOutput lookup = Inr (Some v)" and "is_abs cwd"
  shows "\<exists>names. list_all plain_seg names
    \<and> clean_segs True (split_on (CHR ''/'') (cwd @ ''/'' @ v)) = clean_segs True (split_on (CHR ''/'') cwd) @ names"
proof -
  have v: "v \<noteq> ''''" "\<not> is_abs v" "path_clean v \<noteq> ''..''" "\<not> has_prefix (path_clean v) ''../''"
    using assms(1) by (auto simp: OCIOutput_def Let_def split: option.splits if_splits)
  let ?names = "clean_segs False (split_on (CHR ''/'') v)"
  have names: "list_all plain_seg ?names" by (rule relative_clean_names) (use v in auto)
  have "foldl (clean_step False) [] (split_on (CHR ''/'') v) = rev ?names"
    by (simp add: clean_segs_def)
  moreover have "\<forall>s \<in> set (split_on (CHR ''/'') v). CHR ''/'' \<notin> set s" using split_on_not_mem by blast
  ultimately have app: "foldl (clean_step True) st (split_on (CHR ''/'') v) = rev ?names @ st" for st
    by (intro foldl_clean_relative names)
  have "clean_segs True (split_on (CHR ''/'') (cwd @ CHR ''/'' # v))
      = clean_segs True (split_on (CHR ''/'') cwd) @ ?names"
    by (simp add: clean_segs_def [of True] split_on_append_sep app)
  with names show ?thesis by auto
qed

definition output_env :: "string \<Rightarrow> string \<Rightarrow> string option" where
  "output_env v k = (if k = ''CONTAIN_OCI_OUTPUT'' then Some v else None)"

theorem oci_output_inside_witness:
  "OCIOutput (output_env ''a/../out/x'') = Inr (Some ''a/../out/x'')
   \<and> (\<exists>names. list_all plain_seg names
    \<and> clean_segs True (split_on (CHR ''/'') (''/work'' @ ''/'' @ ''a/../out/x''))
        = clean_segs True (split_on (CHR ''/'') ''/work'') @ names)"
proof -
  have ok: "OCIOutput (output_env ''a/../out/x'') = Inr (Some ''a/../out/x'')" by code_simp
  have "is_abs ''/work''" by (simp add: is_abs_def has_prefix_def)
  from oci_output_inside [OF ok this] ok show ?thesis by blast
qed

text \<open>A lock path from the environment is one that \<open>NewFlockPushLock\<close> takes.\<close>

lemma lock_path_accepted:
  assumes "PushLockPath lookup = Inr p" and "p \<noteq> ''''"
  shows "NewFlockPushLock p = Inr p"
  using assms
  by (auto simp: PushLockPath_def NewFlockPushLock_def validateAbsPath_def is_abs_def has_prefix_iff
      split: option.splits if_splits)

end
