(* ===== verification/Platforms.thy ===== *)
theory Platforms
  imports Prelude
begin

text \<open>
  Platforms: \<open>pkg/platform/platform.go\<close>, \<open>pkg/multiarch/match.go\<close>, \<open>pkg/pushed/platforms.go\<close> and the
  constants of \<open>pkg/pushed/annotations.go\<close>. \<open>Platform\<close>, \<open>Descriptor\<close> and \<open>Hash\<close> are the types of
  go-containerregistry; its methods \<open>Equals\<close>, \<open>String\<close> and \<open>ParsePlatform\<close>, and containerd's
  \<open>platforms.Normalize\<close>, are not under \<open>src/\<close> and are fields of \<open>platform_lib\<close>.
\<close>

section \<open>Types\<close>

record Platform =
  pf_os :: string
  pf_arch :: string
  pf_osVersion :: string
  pf_osFeatures :: "string list"
  pf_variant :: string
  pf_features :: "string list"

definition zero_platform :: Platform where
  "zero_platform = \<lparr>pf_os = '''', pf_arch = '''', pf_osVersion = '''', pf_osFeatures = [],
     pf_variant = '''', pf_features = []\<rparr>"

record Hash =
  hs_algorithm :: string
  hs_hex :: string

definition zero_hash :: Hash where
  "zero_hash = \<lparr>hs_algorithm = '''', hs_hex = ''''\<rparr>"

record v1_descriptor =
  vd_mediaType :: string
  vd_size :: i64
  vd_digest :: Hash
  vd_platform :: "Platform option"
  vd_annotations :: "(string \<times> string) list option"  \<comment> \<open>\<open>None\<close> is the nil map\<close>

record platform_lib =
  pl_normalize :: "string \<times> string \<times> string \<Rightarrow> string \<times> string \<times> string"
    \<comment> \<open>containerd: OS, architecture and variant\<close>
  pl_equals :: "Platform \<Rightarrow> Platform \<Rightarrow> bool"
  pl_string :: "Platform \<Rightarrow> string"
  pl_parse :: "string \<Rightarrow> string + Platform"

definition OCIManifestSchema1 :: string where
  "OCIManifestSchema1 = ''application/vnd.oci.image.manifest.v1+json''"

definition OCIImageIndex :: string where
  "OCIImageIndex = ''application/vnd.oci.image.index.v1+json''"

definition DockerManifestList :: string where
  "DockerManifestList = ''application/vnd.docker.distribution.manifest.list.v2+json''"

section \<open>Comparison (platform.go)\<close>

definition Normalize :: "platform_lib \<Rightarrow> Platform \<Rightarrow> Platform" where
  "Normalize PL p =
     (case pl_normalize PL (pf_os p, pf_arch p, pf_variant p) of (os, arch, variant) \<Rightarrow>
        p\<lparr>pf_os := (if pf_os p \<noteq> '''' then os else pf_os p), pf_arch := arch, pf_variant := variant\<rparr>)"

definition Equal :: "platform_lib \<Rightarrow> Platform \<Rightarrow> Platform \<Rightarrow> bool" where
  "Equal PL a b \<longleftrightarrow> pl_equals PL (Normalize PL a) (Normalize PL b)"

definition platform_String :: "platform_lib \<Rightarrow> Platform option \<Rightarrow> string" where
  "platform_String PL p = (case p of None \<Rightarrow> ''<none>'' | Some q \<Rightarrow> pl_string PL q)"

text \<open>\<open>Equals\<close> compares field by field, so it is an equivalence.\<close>

definition equals_equivalence :: "platform_lib \<Rightarrow> bool" where
  "equals_equivalence PL \<longleftrightarrow> (\<forall>a. pl_equals PL a a)
     \<and> (\<forall>a b. pl_equals PL a b \<longrightarrow> pl_equals PL b a)
     \<and> (\<forall>a b c. pl_equals PL a b \<longrightarrow> pl_equals PL b c \<longrightarrow> pl_equals PL a c)"

lemma Equal_sym: "equals_equivalence PL \<Longrightarrow> Equal PL a b = Equal PL b a"
  unfolding equals_equivalence_def Equal_def by blast

lemma Equal_trans: "equals_equivalence PL \<Longrightarrow> Equal PL a b \<Longrightarrow> Equal PL b c \<Longrightarrow> Equal PL a c"
  unfolding equals_equivalence_def Equal_def by blast

section \<open>Selection from the base index (match.go)\<close>

fun parse_all :: "platform_lib \<Rightarrow> string list \<Rightarrow> go_err + Platform list" where
  "parse_all PL [] = Inr []"
| "parse_all PL (c # cs) =
     (case pl_parse PL c of
        Inl e \<Rightarrow> Inl (Msg e)
      | Inr p \<Rightarrow> (case parse_all PL cs of Inl e \<Rightarrow> Inl e | Inr ps \<Rightarrow> Inr (p # ps)))"

definition ParseConfigPlatforms :: "platform_lib \<Rightarrow> string list \<Rightarrow> go_err + Platform list" where
  "ParseConfigPlatforms PL configPlatforms = parse_all PL configPlatforms"

definition UnmatchedPlatforms ::
  "platform_lib \<Rightarrow> string list \<Rightarrow> Platform list \<Rightarrow> go_err + string list" where
  "UnmatchedPlatforms PL configPlatforms matched =
     (if configPlatforms = [] then Inr []
      else case ParseConfigPlatforms PL configPlatforms of
        Inl e \<Rightarrow> Inl e
      | Inr wanted \<Rightarrow>
          Inr (map fst (filter (\<lambda>(c, w). \<not> list_ex (\<lambda>m. Equal PL m w) matched) (zip configPlatforms wanted))))"

definition MatchPlatformsForAppend ::
  "platform_lib \<Rightarrow> string list \<Rightarrow> go_err + (v1_descriptor \<Rightarrow> bool)" where
  "MatchPlatformsForAppend PL configPlatforms =
     (if configPlatforms = [] then Inr (\<lambda>desc. True)
      else case ParseConfigPlatforms PL configPlatforms of
        Inl e \<Rightarrow> Inl e
      | Inr wanted \<Rightarrow>
          Inr (\<lambda>desc. case vd_platform desc of
                 None \<Rightarrow> False
               | Some p \<Rightarrow> list_ex (\<lambda>w. Equal PL p w) wanted))"

lemma parse_all_length: "parse_all PL cs = Inr ps \<Longrightarrow> length ps = length cs"
  by (induction cs arbitrary: ps) (auto split: sum.splits)

lemma parse_all_nth: "parse_all PL cs = Inr ps \<Longrightarrow> i < length cs \<Longrightarrow> pl_parse PL (cs ! i) = Inr (ps ! i)"
  by (induction cs arbitrary: ps i) (auto split: sum.splits simp: nth_Cons')

lemma parse_all_mem:
  "parse_all PL cs = Inr ps \<Longrightarrow> w \<in> set ps \<longleftrightarrow> (\<exists>c \<in> set cs. pl_parse PL c = Inr w)"
  by (induction cs arbitrary: ps) (auto split: sum.splits)

text \<open>A platform of the config, as what it parses to.\<close>

definition wants_platform :: "platform_lib \<Rightarrow> string list \<Rightarrow> Platform \<Rightarrow> bool" where
  "wants_platform PL cs p \<longleftrightarrow> list_ex (\<lambda>c. case pl_parse PL c of Inl e \<Rightarrow> False | Inr w \<Rightarrow> Equal PL p w) cs"

lemma wants_platform_iff:
  "wants_platform PL cs p \<longleftrightarrow> (\<exists>c \<in> set cs. \<exists>w. pl_parse PL c = Inr w \<and> Equal PL p w)"
  unfolding wants_platform_def list_ex_iff by (rule bex_cong [OF refl]) (auto split: sum.split)

lemma MatchPlatforms_iff:
  assumes "MatchPlatformsForAppend PL cs = Inr m"
  shows "m d \<longleftrightarrow> cs = [] \<or> (\<exists>p. vd_platform d = Some p \<and> wants_platform PL cs p)"
  using assms parse_all_mem
  by (auto simp: MatchPlatformsForAppend_def ParseConfigPlatforms_def wants_platform_iff list_ex_iff
      split: if_splits sum.splits option.splits; fastforce)

lemma zip_parse: "parse_all PL cs = Inr ps \<Longrightarrow> (c, w) \<in> set (zip cs ps) \<Longrightarrow> c \<in> set cs \<and> pl_parse PL c = Inr w"
  by (induction cs arbitrary: ps) (auto split: sum.splits)

lemma zip_parse_ex: "parse_all PL cs = Inr ps \<Longrightarrow> c \<in> set cs \<Longrightarrow> \<exists>w. (c, w) \<in> set (zip cs ps)"
  by (induction cs arbitrary: ps) (fastforce split: sum.splits)+

lemma UnmatchedPlatforms_iff:
  assumes "UnmatchedPlatforms PL cs matched = Inr un"
  shows "c \<in> set un \<longleftrightarrow> c \<in> set cs \<and> (\<exists>w. pl_parse PL c = Inr w \<and> (\<forall>m \<in> set matched. \<not> Equal PL m w))"
proof (cases "cs = []")
  case True
  with assms show ?thesis by (simp add: UnmatchedPlatforms_def)
next
  case False
  with assms obtain ps where ps: "parse_all PL cs = Inr ps"
      "un = map fst (filter (\<lambda>(c, w). \<not> list_ex (\<lambda>m. Equal PL m w) matched) (zip cs ps))"
    by (auto simp: UnmatchedPlatforms_def ParseConfigPlatforms_def split: sum.splits)
  have "c \<in> set un \<longleftrightarrow> (\<exists>w. (c, w) \<in> set (zip cs ps) \<and> (\<forall>m \<in> set matched. \<not> Equal PL m w))"
    by (force simp: ps(2) list_ex_iff)
  then show ?thesis using zip_parse [OF ps(1)] zip_parse_ex [OF ps(1)] by (metis sum.inject(2))
qed

section \<open>Platforms of a result (pushed/platforms.go)\<close>

definition ReferenceTypeAnnotation :: string where
  "ReferenceTypeAnnotation = ''vnd.docker.reference.type''"

definition ReferenceTypeAttestation :: string where
  "ReferenceTypeAttestation = ''attestation-manifest''"

definition AttestationPlatform :: string where
  "AttestationPlatform = ''unknown/unknown''"

definition map_get :: "(string \<times> string) list \<Rightarrow> string \<Rightarrow> string" where
  "map_get m k = (case map_of m k of Some v \<Rightarrow> v | None \<Rightarrow> '''')"

text \<open>The condition that both \<open>index.go\<close> and \<open>platforms.go\<close> write out.\<close>

definition is_attestation :: "platform_lib \<Rightarrow> Platform \<Rightarrow> v1_descriptor \<Rightarrow> bool" where
  "is_attestation PL p d \<longleftrightarrow>
     (case vd_annotations d of
        None \<Rightarrow> False
      | Some a \<Rightarrow> pl_string PL p = AttestationPlatform \<and> map_get a ReferenceTypeAnnotation = ReferenceTypeAttestation)"

definition toPlatforms :: "platform_lib \<Rightarrow> Platform list \<Rightarrow> string list option" where
  "toPlatforms PL ps = (if ps = [] then None else Some (map (pl_string PL) ps))"

fun platformsFromIndexManifest :: "platform_lib \<Rightarrow> v1_descriptor list \<Rightarrow> Platform list" where
  "platformsFromIndexManifest PL [] = []"
| "platformsFromIndexManifest PL (d # ds) =
     (case vd_platform d of
        None \<Rightarrow> platformsFromIndexManifest PL ds
      | Some p \<Rightarrow>
          (if vd_mediaType d \<noteq> OCIManifestSchema1 then platformsFromIndexManifest PL ds
           else if is_attestation PL p d then platformsFromIndexManifest PL ds
           else p # platformsFromIndexManifest PL ds))"

definition parsePlatformString :: "string \<Rightarrow> Platform" where
  "parsePlatformString s =
     (let parts = split_on (CHR ''/'') s; p = zero_platform;
          p = (if length parts > 0 then p\<lparr>pf_os := parts ! 0\<rparr> else p);
          p = (if length parts > 1 then p\<lparr>pf_arch := parts ! 1\<rparr> else p)
      in if length parts > 2 then p\<lparr>pf_variant := parts ! 2\<rparr> else p)"

definition platformsFromStrings :: "string list \<Rightarrow> Platform list" where
  "platformsFromStrings names = map parsePlatformString names"

text \<open>
  The documented form of a platform's string, for platforms that have an OS and an architecture
  and no OS version.
\<close>

definition string_plain :: "platform_lib \<Rightarrow> bool" where
  "string_plain PL \<longleftrightarrow>
     (\<forall>p. pf_os p \<noteq> '''' \<and> pf_arch p \<noteq> '''' \<and> pf_osVersion p = '''' \<longrightarrow>
        pl_string PL p = pf_os p @ ''/'' @ pf_arch p @ (if pf_variant p = '''' then '''' else ''/'' @ pf_variant p))"

definition plain_platform :: "Platform \<Rightarrow> bool" where
  "plain_platform p \<longleftrightarrow> pf_os p \<noteq> '''' \<and> pf_arch p \<noteq> '''' \<and> pf_osVersion p = ''''
     \<and> pf_osFeatures p = [] \<and> pf_features p = []
     \<and> CHR ''/'' \<notin> set (pf_os p) \<and> CHR ''/'' \<notin> set (pf_arch p) \<and> CHR ''/'' \<notin> set (pf_variant p)"

lemma parsePlatformString_plain:
  assumes "string_plain PL" and "plain_platform p"
  shows "parsePlatformString (pl_string PL p) = p"
proof -
  have s: "pl_string PL p = pf_os p @ CHR ''/'' # pf_arch p
      @ (if pf_variant p = '''' then '''' else CHR ''/'' # pf_variant p)"
    using assms by (simp add: string_plain_def plain_platform_def)
  have "split_on (CHR ''/'') (pl_string PL p)
      = pf_os p # pf_arch p # (if pf_variant p = '''' then [] else [pf_variant p])"
    using assms(2) by (simp add: s plain_platform_def split_on_append_sep split_on_no_sep)
  then show ?thesis
    using assms(2) by (cases p) (auto simp: parsePlatformString_def zero_platform_def plain_platform_def Let_def)
qed

end
