(* ===== verification/Schema_Layers.thy ===== *)
theory Schema_Layers
  imports Platforms
begin

text \<open>
  The configuration and its validation (\<open>pkg/schema/v1/config.go\<close>, \<open>localfile.go\<close>). The map
  \<open>PathPerPlatform\<close> is an association list; that the order of its entries does not matter is a
  property below, because the code sorts the keys before it ranges over them.
\<close>

section \<open>The configuration (config.go)\<close>

record LayerAttributes =
  la_uid :: "16 word"
  la_gid :: "16 word"
  la_fileMode :: "32 word"
  la_dirMode :: "32 word"

record LocalFile =
  lf_path :: string
  lf_pathPerPlatform :: "(string \<times> string) list"
  lf_containerPath :: string
  lf_maxSize :: string

record LocalDir =
  ld_path :: string
  ld_containerPath :: string
  ld_ignore :: "string list"
  ld_maxFiles :: int
  ld_maxSize :: string

record Layer =
  ly_attributes :: LayerAttributes
  ly_localDir :: LocalDir
  ly_localFile :: LocalFile

record Env =
  en_name :: string
  en_value :: string

record ContainConfigSync =
  sy_podSelector :: string
  sy_namespace :: string
  sy_getAttemptsMax :: int
  sy_getAttemptsWait :: int  \<comment> \<open>nanoseconds\<close>

record ContainConfigStatus =
  st_template :: bool
  st_md5 :: string
  st_sha256 :: string
  st_overridesBase :: bool

record ContainConfig =
  cf_status :: ContainConfigStatus
  cf_base :: string
  cf_tag :: string
  cf_platforms :: "string list"
  cf_layers :: "Layer list"
  cf_env :: "Env list"
  cf_workingDir :: string
  cf_entrypoint :: "string list"
  cf_args :: "string list"
  cf_sync :: ContainConfigSync

section \<open>Source of a layer (localfile.go)\<close>

text \<open>The loop over the sorted keys.\<close>

fun resolve_keys :: "platform_lib \<Rightarrow> (string \<times> string) list \<Rightarrow> Platform \<Rightarrow> string list \<Rightarrow> string option" where
  "resolve_keys PL m p [] = None"
| "resolve_keys PL m p (k # ks) =
     (case pl_parse PL k of
        Inl e \<Rightarrow> resolve_keys PL m p ks
      | Inr kp \<Rightarrow>
          (if Equal PL kp p \<and> map_get m k \<noteq> '''' then Some (map_get m k) else resolve_keys PL m p ks))"

definition ResolveLocalFilePath :: "platform_lib \<Rightarrow> LocalFile \<Rightarrow> Platform \<Rightarrow> string" where
  "ResolveLocalFilePath PL lf p =
     (let m = lf_pathPerPlatform lf;
          exact = map_get m (pf_os p @ ''/'' @ pf_arch p @ ''/'' @ pf_variant p);
          coarse = map_get m (pf_os p @ ''/'' @ pf_arch p)
      in if m \<noteq> [] then
           (if pf_variant p \<noteq> '''' \<and> exact \<noteq> '''' then exact
            else case resolve_keys PL m p (sort (map fst m)) of
              Some path \<Rightarrow> path
            | None \<Rightarrow> if coarse \<noteq> '''' then coarse else lf_path lf)
         else lf_path lf)"

definition isValidPlatformKey :: "string \<Rightarrow> bool" where
  "isValidPlatformKey key =
     (if contains_any key [CHR '' '', CHR 0x09, CHR 0x0A] then False
      else
       let parts = split_on (CHR ''/'') key in
       if length parts \<noteq> 2 \<and> length parts \<noteq> 3 then False
       else list_all (\<lambda>p. p \<noteq> '''') parts)"

definition hasLocalFile :: "Layer \<Rightarrow> bool" where
  "hasLocalFile layer \<longleftrightarrow> lf_path (ly_localFile layer) \<noteq> '''' \<or> length (lf_pathPerPlatform (ly_localFile layer)) > 0"

definition hasLocalDir :: "Layer \<Rightarrow> bool" where
  "hasLocalDir layer \<longleftrightarrow> ld_path (ly_localDir layer) \<noteq> ''''"

definition layer_at :: "nat \<Rightarrow> string" where
  "layer_at i = ''layers['' @ itoa (int i) @ '']''"

text \<open>The errors of layer \<open>i\<close>.\<close>

definition validate_layer :: "platform_lib \<Rightarrow> Platform list \<Rightarrow> nat \<Rightarrow> Layer \<Rightarrow> string list" where
  "validate_layer PL platforms i layer =
     (if hasLocalFile layer \<and> hasLocalDir layer
      then [layer_at i @ '': each layer item must have exactly one type, got localFile and localDir'']
      else if \<not> hasLocalFile layer \<and> \<not> hasLocalDir layer
      then [layer_at i @ '': no layer builder config found (set localFile.path, localFile.pathPerPlatform, or localDir.path)'']
      else if \<not> hasLocalFile layer then []
      else
       map (\<lambda>key. layer_at i @ ''.localFile.pathPerPlatform: invalid key '' @ go_quote key
              @ '' (expected '' @ go_quote ''<os>/<arch>'' @ '' or '' @ go_quote ''<os>/<arch>/<variant>'' @ '')'')
         (filter (\<lambda>key. \<not> isValidPlatformKey key) (sort (map fst (lf_pathPerPlatform (ly_localFile layer)))))
       @ map (\<lambda>p. layer_at i @ ''.localFile: no path for platform '' @ pl_string PL p
              @ '' (add pathPerPlatform['' @ go_quote (pf_os p @ ''/'' @ pf_arch p)
              @ ''] or a top-level path fallback)'')
         (filter (\<lambda>p. ResolveLocalFilePath PL (ly_localFile layer) p = '''') platforms))"

definition ValidateLayers :: "platform_lib \<Rightarrow> ContainConfig \<Rightarrow> Platform list \<Rightarrow> go_err + unit" where
  "ValidateLayers PL config platforms =
     (let errs = concat (map (\<lambda>(i, layer). validate_layer PL platforms i layer) (enumerate 0 (cf_layers config)))
      in if length errs > 0 then Inl (Msg (str_join errs ''; '')) else Inr ())"

section \<open>Resolution\<close>

lemma resolve_keys_Some:
  "resolve_keys PL m p ks = Some path \<Longrightarrow>
     path \<noteq> '''' \<and> (\<exists>k \<in> set ks. \<exists>kp. pl_parse PL k = Inr kp \<and> Equal PL kp p \<and> map_get m k = path)"
  by (induction ks) (auto split: sum.splits if_splits)

lemma resolve_keys_None:
  "resolve_keys PL m p ks = None \<longleftrightarrow>
     (\<forall>k \<in> set ks. \<forall>kp. pl_parse PL k = Inr kp \<longrightarrow> Equal PL kp p \<longrightarrow> map_get m k = '''')"
  by (induction ks) (auto split: sum.split)

lemma map_get_mem: "map_get m k \<noteq> '''' \<Longrightarrow> (k, map_get m k) \<in> set m"
  by (auto simp: map_get_def split: option.splits dest: map_of_SomeD)

lemma map_get_map_of: "map_of m = map_of m' \<Longrightarrow> map_get m = map_get m'"
  by (simp add: map_get_def fun_eq_iff)

text \<open>
  A key that serves a platform: it has a path and denotes the platform once normalized.
\<close>

definition serves :: "platform_lib \<Rightarrow> (string \<times> string) list \<Rightarrow> Platform \<Rightarrow> string \<Rightarrow> bool" where
  "serves PL m p k \<longleftrightarrow> map_get m k \<noteq> '''' \<and> (\<exists>kp. pl_parse PL k = Inr kp \<and> Equal PL kp p)"

text \<open>
  Which file serves a platform is a function of what the config says, not of how a Go map happens
  to be ordered; and a platform is left without a file only if nothing in the config serves it: no
  fallback path, no key equal to it once normalized, no key for its OS and architecture.
\<close>

theorem resolve_deterministic:
  assumes "distinct (map fst (lf_pathPerPlatform lf))" and "distinct (map fst m')"
    and "map_of m' = map_of (lf_pathPerPlatform lf)"
  shows "ResolveLocalFilePath PL (lf\<lparr>lf_pathPerPlatform := m'\<rparr>) p = ResolveLocalFilePath PL lf p
    \<and> (ResolveLocalFilePath PL lf p = '''' \<longleftrightarrow>
         lf_path lf = '''' \<and> \<not> (\<exists>k. serves PL (lf_pathPerPlatform lf) p k)
         \<and> map_get (lf_pathPerPlatform lf) (pf_os p @ ''/'' @ pf_arch p) = ''''
         \<and> (pf_variant p = '''' \<or>
            map_get (lf_pathPerPlatform lf) (pf_os p @ ''/'' @ pf_arch p @ ''/'' @ pf_variant p) = ''''))"
proof -
  let ?m = "lf_pathPerPlatform lf"
  have "set m' = set ?m" using assms map_of_inject_set by blast
  then have "set (map fst m') = set (map fst ?m)" "m' = [] \<longleftrightarrow> ?m = []" by auto
  then have keys: "sort (map fst m') = sort (map fst ?m)" "m' = [] \<longleftrightarrow> ?m = []"
    using assms(1,2) by (simp_all add: sorted_distinct_set_unique)
  have rk: "resolve_keys PL m' p ks = resolve_keys PL ?m p ks" for ks
    by (induction ks) (simp_all add: map_get_map_of [OF assms(3)] split: sum.split)
  have order: "ResolveLocalFilePath PL (lf\<lparr>lf_pathPerPlatform := m'\<rparr>) p = ResolveLocalFilePath PL lf p"
    by (simp add: ResolveLocalFilePath_def Let_def keys rk map_get_map_of [OF assms(3)] cong: option.case_cong)
  have none: "resolve_keys PL ?m p (sort (map fst ?m)) = None \<longleftrightarrow> \<not> (\<exists>k. serves PL ?m p k)"
    unfolding resolve_keys_None serves_def
    using map_get_mem by (force simp: image_iff)
  have empty: "map_get [] k = ''''" for k by (simp add: map_get_def)
  have "ResolveLocalFilePath PL lf p = '''' \<longleftrightarrow>
         lf_path lf = '''' \<and> \<not> (\<exists>k. serves PL ?m p k)
         \<and> map_get ?m (pf_os p @ ''/'' @ pf_arch p) = ''''
         \<and> (pf_variant p = '''' \<or> map_get ?m (pf_os p @ ''/'' @ pf_arch p @ ''/'' @ pf_variant p) = '''')"
  proof (cases "resolve_keys PL ?m p (sort (map fst ?m))")
    case None
    with none show ?thesis
      by (cases "?m = []") (auto simp: ResolveLocalFilePath_def Let_def empty serves_def)
  next
    case (Some path)
    with none resolve_keys_Some [OF Some] show ?thesis
      by (cases "?m = []") (auto simp: ResolveLocalFilePath_def Let_def)
  qed
  with order show ?thesis by blast
qed

section \<open>A library of platforms for the witnesses\<close>

text \<open>
  An instance of the third-party operations that behaves as documented on what the witnesses use:
  the variant v8 of arm64 is dropped, strings are \<open>os/arch[/variant]\<close>.
\<close>

definition toy_string :: "Platform \<Rightarrow> string" where
  "toy_string p = pf_os p @ ''/'' @ pf_arch p @ (if pf_variant p = '''' then '''' else ''/'' @ pf_variant p)"

definition toy_platforms :: platform_lib where
  "toy_platforms =
     \<lparr>pl_normalize = (\<lambda>(os, arch, variant). (os, arch, if arch = ''arm64'' \<and> variant = ''v8'' then '''' else variant)),
      pl_equals = (=),
      pl_string = toy_string,
      pl_parse = (\<lambda>s. if CHR ''/'' \<in> set s then Inr (parsePlatformString s) else Inl ''no slash'')\<rparr>"

definition plat :: "string \<Rightarrow> string \<Rightarrow> string \<Rightarrow> Platform" where
  "plat os arch variant = zero_platform\<lparr>pf_os := os, pf_arch := arch, pf_variant := variant\<rparr>"

lemma toy_platforms_laws: "equals_equivalence toy_platforms" "string_plain toy_platforms"
  by (auto simp: equals_equivalence_def string_plain_def toy_platforms_def toy_string_def)

theorem resolve_deterministic_witness:
  "ResolveLocalFilePath toy_platforms
     \<lparr>lf_path = '''', lf_pathPerPlatform = [(''linux/arm64/v8'', ''a''), (''linux/amd64'', ''b'')],
      lf_containerPath = ''/r'', lf_maxSize = ''''\<rparr> (plat ''linux'' ''arm64'' '''') = ''a''
   \<and> ResolveLocalFilePath toy_platforms
     \<lparr>lf_path = '''', lf_pathPerPlatform = [(''linux/amd64'', ''b''), (''linux/arm64/v8'', ''a'')],
      lf_containerPath = ''/r'', lf_maxSize = ''''\<rparr> (plat ''linux'' ''arm64'' '''') = ''a''"
proof -
  let ?lf = "\<lparr>lf_path = '''', lf_pathPerPlatform = [(''linux/arm64/v8'', ''a''), (''linux/amd64'', ''b'')],
      lf_containerPath = ''/r'', lf_maxSize = ''''\<rparr>"
  let ?m = "[(''linux/amd64'', ''b''), (''linux/arm64/v8'', ''a'')]"
  have a: "ResolveLocalFilePath toy_platforms ?lf (plat ''linux'' ''arm64'' '''') = ''a''" by code_simp
  have "map_of ?m = map_of (lf_pathPerPlatform ?lf)" by (simp add: fun_eq_iff)
  from resolve_deterministic [OF _ _ this, of toy_platforms "plat ''linux'' ''arm64'' ''''"] a
  show ?thesis by simp
qed

section \<open>Validation\<close>

text \<open>What the documentation of the config asks of a layer.\<close>

definition layer_ok :: "platform_lib \<Rightarrow> Platform list \<Rightarrow> Layer \<Rightarrow> bool" where
  "layer_ok PL platforms layer \<longleftrightarrow>
     hasLocalFile layer \<noteq> hasLocalDir layer
     \<and> (hasLocalFile layer \<longrightarrow>
          (\<forall>k \<in> set (map fst (lf_pathPerPlatform (ly_localFile layer))). isValidPlatformKey k)
          \<and> (\<forall>p \<in> set platforms. ResolveLocalFilePath PL (ly_localFile layer) p \<noteq> ''''))"

lemma validate_layer_ok: "validate_layer PL platforms i layer = [] \<longleftrightarrow> layer_ok PL platforms layer"
  by (auto simp: validate_layer_def layer_ok_def filter_empty_conv)

lemma ValidateLayers_ok:
  "ValidateLayers PL config platforms =
     (if \<forall>layer \<in> set (cf_layers config). layer_ok PL platforms layer then Inr ()
      else Inl (Msg (str_join (concat (map (\<lambda>(i, layer). validate_layer PL platforms i layer)
             (enumerate 0 (cf_layers config)))) ''; '')))"
proof -
  let ?errs = "concat (map (\<lambda>(i, layer). validate_layer PL platforms i layer) (enumerate 0 (cf_layers config)))"
  have "?errs = [] \<longleftrightarrow> (\<forall>(i, layer) \<in> set (enumerate 0 (cf_layers config)). layer_ok PL platforms layer)"
    by (auto simp: validate_layer_ok)
  also have "\<dots> \<longleftrightarrow> (\<forall>layer \<in> set (map snd (enumerate 0 (cf_layers config))). layer_ok PL platforms layer)"
    by (auto simp del: map_snd_enumerate)
  also have "\<dots> \<longleftrightarrow> (\<forall>layer \<in> set (cf_layers config). layer_ok PL platforms layer)"
    by simp
  finally show ?thesis by (simp add: ValidateLayers_def Let_def)
qed


definition plain_layer :: "LocalFile \<Rightarrow> string \<Rightarrow> Layer" where
  "plain_layer lf dir = \<lparr>ly_attributes = \<lparr>la_uid = 0, la_gid = 0, la_fileMode = 0, la_dirMode = 0\<rparr>,
     ly_localDir = \<lparr>ld_path = dir, ld_containerPath = '''', ld_ignore = [], ld_maxFiles = 0, ld_maxSize = ''''\<rparr>,
     ly_localFile = lf\<rparr>"

definition plain_config :: "string list \<Rightarrow> Layer list \<Rightarrow> ContainConfig" where
  "plain_config platforms layers =
     \<lparr>cf_status = \<lparr>st_template = False, st_md5 = '''', st_sha256 = '''', st_overridesBase = False\<rparr>,
      cf_base = ''r.example/base@sha256:b'', cf_tag = ''r.example/app:v1'', cf_platforms = platforms,
      cf_layers = layers, cf_env = [], cf_workingDir = '''', cf_entrypoint = [], cf_args = [],
      cf_sync = \<lparr>sy_podSelector = '''', sy_namespace = '''', sy_getAttemptsMax = 0, sy_getAttemptsWait = 0\<rparr>\<rparr>"


end
