(* ===== verification/Build_Config.thy ===== *)
theory Build_Config
  imports Env_Options Schema_Layers
begin

text \<open>
  What a build runs on, from its flags, environment and config file: \<open>pkg/schema/versions.go\<close>,
  \<open>templates.go\<close>, \<open>pkg/appender/workdir.go\<close> and the parts of \<open>cmd/contain/build.go\<close> before and after
  the build itself. \<open>lookup\<close> is \<open>os.LookupEnv\<close>; the YAML decoder, the templates of skaffold and the
  digests are parameters. Relative paths are taken from the current directory, which the build changes.
\<close>

section \<open>Flags and host\<close>

text \<open>The flags of \<open>newBuildCmd\<close>; \<open>bf_changed\<close> is \<open>cmd.Flags().Changed\<close>.\<close>

record build_flags =
  bf_version :: bool
  bf_config :: string
  bf_base :: string
  bf_runSelector :: string
  bf_runNamespace :: string
  bf_watch :: bool
  bf_fileOutput :: string
  bf_metadataFile :: string
  bf_platformsEnv :: bool
  bf_tarball :: string
  bf_output :: string
  bf_format :: string
  bf_push :: bool
  bf_pushLock :: string
  bf_sbomIn :: string
  bf_sbomOut :: string
  bf_changed :: "string \<Rightarrow> bool"

definition newBuildCmd :: build_flags where
  "newBuildCmd =
     \<lparr>bf_version = False, bf_config = ''contain.yaml'', bf_base = '''', bf_runSelector = '''', bf_runNamespace = '''',
      bf_watch = False, bf_fileOutput = '''', bf_metadataFile = '''', bf_platformsEnv = False, bf_tarball = '''',
      bf_output = '''', bf_format = ''oci'', bf_push = True, bf_pushLock = '''', bf_sbomIn = '''', bf_sbomOut = '''',
      bf_changed = (\<lambda>n. False)\<rparr>"

record host =
  ho_lookup :: "string \<Rightarrow> string option"
  ho_stat :: "string \<Rightarrow> string + bool"      \<comment> \<open>\<open>os.Stat\<close> and its \<open>IsDir\<close>\<close>
  ho_chdir :: "string \<Rightarrow> string option"
  ho_read :: "string \<Rightarrow> string + bytes"
  ho_stdin :: "string + bytes"
  ho_yaml :: "bytes \<Rightarrow> (bool \<times> string) + ContainConfig"  \<comment> \<open>an error and whether it is \<open>io.EOF\<close>\<close>
  ho_templates :: "ContainConfig \<Rightarrow> string + ContainConfig"
  ho_sha256 :: "bytes \<Rightarrow> string"
  ho_md5 :: "bytes \<Rightarrow> string"

definition getenv :: "host \<Rightarrow> string \<Rightarrow> string" where
  "getenv H name = (case ho_lookup H name of None \<Rightarrow> '''' | Some v \<Rightarrow> v)"

section \<open>Working directory (workdir.go)\<close>

record Chdir =
  cd_pwd :: string
  cd_restored :: bool

text \<open>Each gives the current directory afterwards.\<close>

definition NewChdir :: "host \<Rightarrow> string \<Rightarrow> string \<Rightarrow> stop + Chdir \<times> string" where
  "NewChdir H dir cwd =
     (if \<not> is_abs dir then Inl (Exit ''should be absolute'')
      else (case ho_chdir H dir of
              Some e \<Rightarrow> Inl (Exit ''change cwd'')
            | None \<Rightarrow> Inr (\<lparr>cd_pwd = cwd, cd_restored = False\<rparr>, dir)))"

definition Cleanup :: "host \<Rightarrow> Chdir \<Rightarrow> string \<Rightarrow> stop + Chdir \<times> string" where
  "Cleanup H c cwd =
     (if cd_restored c then Inr (c, cwd)
      else (case ho_chdir H (cd_pwd c) of
              Some e \<Rightarrow> Inl (Exit ''restore cwd'')
            | None \<Rightarrow> Inr (c\<lparr>cd_restored := True\<rparr>, cd_pwd c)))"

text \<open>The context path of the command line.\<close>

definition enter_context :: "host \<Rightarrow> string list \<Rightarrow> string \<Rightarrow> stop + Chdir option \<times> string" where
  "enter_context H args cwd =
     (let workdir = (case args of [a] \<Rightarrow> a | _ \<Rightarrow> '''') in
      if workdir \<noteq> '''' \<and> workdir \<noteq> ''.'' \<and> workdir \<noteq> ''./'' then
       (case ho_stat H (path_abs cwd workdir) of
          Inl e \<Rightarrow> Inl (Exit ''context path not found'')
        | Inr isDir \<Rightarrow>
            (if \<not> isDir then Inl (Exit ''context path not a directory'')
             else case NewChdir H (path_abs cwd workdir) cwd of
               Inl e \<Rightarrow> Inl e
             | Inr (c, cwd') \<Rightarrow> Inr (Some c, cwd')))
      else Inr (None, cwd))"

section \<open>Config file (versions.go) and templates (templates.go)\<close>

definition ReadConfiguration :: "host \<Rightarrow> string \<Rightarrow> string \<Rightarrow> go_err + bytes" where
  "ReadConfiguration H cwd filePath =
     (if filePath = '''' then Inl (Msg ''filename not specified'')
      else if filePath = ''-'' then (case ho_stdin H of Inl e \<Rightarrow> Inl (Msg e) | Inr b \<Rightarrow> Inr b)
      else
       (let filePath = (if \<not> is_abs filePath then path_join [cwd, filePath] else filePath) in
        case ho_read H filePath of Inl e \<Rightarrow> Inl (Msg e) | Inr contents \<Rightarrow> Inr contents))"

definition parseConfig :: "host \<Rightarrow> bytes \<Rightarrow> go_err + ContainConfig" where
  "parseConfig H buf =
     (case ho_yaml H buf of
        Inl (True, e) \<Rightarrow> Inl (Wrap ''config EOF'' (Msg e))
      | Inl (False, e) \<Rightarrow> Inl (Wrap ''unable to parse config'' (Msg e))
      | Inr config \<Rightarrow>
          Inr (config\<lparr>cf_status := (cf_status config)\<lparr>st_sha256 := ho_sha256 H buf, st_md5 := ho_md5 H buf\<rparr>\<rparr>))"

definition Parse :: "host \<Rightarrow> bytes \<Rightarrow> go_err + ContainConfig" where
  "Parse H buf =
     (case parseConfig H buf of
        Inl e \<Rightarrow> Inl e
      | Inr config \<Rightarrow>
          (case ho_templates H config of
             Inl e \<Rightarrow> Inl (Wrap ''apply templates'' (Msg (e @ [CHR 0x0A] @ buf)))
           | Inr config' \<Rightarrow> Inr config'))"

definition ParseConfig :: "host \<Rightarrow> string \<Rightarrow> string \<Rightarrow> go_err + ContainConfig" where
  "ParseConfig H cwd filename =
     (case ReadConfiguration H cwd filename of
        Inl e \<Rightarrow> Inl (Wrap ''read contain config'' e)
      | Inr buf \<Rightarrow> Parse H buf)"

definition TagFromEnv :: "host \<Rightarrow> string" where
  "TagFromEnv H = (case ho_lookup H ''IMAGE'' of Some img \<Rightarrow> img | None \<Rightarrow> '''')"

definition IgnoreDefault :: "string list" where
  "IgnoreDefault = [''*Dockerfile'', ''*.dockerignore'', ''contain.yaml'']"

definition TemplateApp :: "host \<Rightarrow> string \<Rightarrow> ContainConfig" where
  "TemplateApp H base =
     \<lparr>cf_status = \<lparr>st_template = True, st_md5 = '''', st_sha256 = '''', st_overridesBase = False\<rparr>,
      cf_base = base, cf_tag = TagFromEnv H, cf_platforms = [],
      cf_layers =
       [\<lparr>ly_attributes = \<lparr>la_uid = 0, la_gid = 0, la_fileMode = 0, la_dirMode = 0\<rparr>,
         ly_localDir = \<lparr>ld_path = ''.'', ld_containerPath = ''/app'', ld_ignore = IgnoreDefault,
                        ld_maxFiles = 100, ld_maxSize = ''104857600''\<rparr>,
         ly_localFile = \<lparr>lf_path = '''', lf_pathPerPlatform = [], lf_containerPath = '''', lf_maxSize = ''''\<rparr>\<rparr>],
      cf_env = [], cf_workingDir = '''', cf_entrypoint = [], cf_args = [],
      cf_sync = \<lparr>sy_podSelector = '''', sy_namespace = '''', sy_getAttemptsMax = 0, sy_getAttemptsWait = 0\<rparr>\<rparr>"

definition TemplateSync :: "string \<Rightarrow> string \<Rightarrow> ContainConfigSync" where
  "TemplateSync runNamespace runSelector =
     \<lparr>sy_podSelector = runSelector, sy_namespace = runNamespace, sy_getAttemptsMax = 20,
      sy_getAttemptsWait = 3 * 10 ^ 9\<rparr>"

section \<open>The config of a build (build.go)\<close>

definition flag_base :: "host \<Rightarrow> build_flags \<Rightarrow> string" where
  "flag_base H f =
     (if bf_base f = '''' \<and> getenv H ''CONTAIN_BASE'' \<noteq> '''' then getenv H ''CONTAIN_BASE'' else bf_base f)"

definition base_config :: "host \<Rightarrow> build_flags \<Rightarrow> string \<Rightarrow> stop + ContainConfig" where
  "base_config H f cwd =
     (let base = flag_base H f in
      case ParseConfig H cwd (bf_config f) of
        Inl e \<Rightarrow>
          (if base = '''' then Inl (Err (Wrap ''start requires config or base + env'' e))
           else Inr (TemplateApp H base))
      | Inr config \<Rightarrow>
          (if base \<noteq> '''' then
             Inr ((if cf_base config \<noteq> ''''
                   then config\<lparr>cf_status := (cf_status config)\<lparr>st_overridesBase := True\<rparr>\<rparr>
                   else config)\<lparr>cf_base := base\<rparr>)
           else Inr config))"

definition with_tag :: "host \<Rightarrow> build_flags \<Rightarrow> ContainConfig \<Rightarrow> stop + ContainConfig" where
  "with_tag H f config =
     (if cf_tag config = '''' then
       (case ho_lookup H ''IMAGE'' of
          Some img \<Rightarrow> Inr (config\<lparr>cf_tag := img\<rparr>)
        | None \<Rightarrow>
           (case (ho_lookup H ''IMAGE_REPO'', ho_lookup H ''IMAGE_TAG'') of
              (Some repo, Some rtag) \<Rightarrow> Inr (config\<lparr>cf_tag := repo @ '':'' @ rtag\<rparr>)
            | _ \<Rightarrow>
               (if bf_runSelector f = ''''
                then Inl (Exit ''config tag must be set, or env IMAGE, or envs IMAGE_REPO and IMAGE_TAG'')
                else Inr config)))
      else Inr config)"

definition with_platforms :: "host \<Rightarrow> build_flags \<Rightarrow> ContainConfig \<Rightarrow> stop + ContainConfig" where
  "with_platforms H f config =
     (case ho_lookup H ''PLATFORMS'' of
        Some platforms \<Rightarrow>
          (if length (cf_platforms config) = 0
           then Inr (config\<lparr>cf_platforms := split_on (CHR '','') platforms\<rparr>) else Inr config)
      | None \<Rightarrow>
          (if bf_platformsEnv f then Inl (Exit ''PLATFORMS env required but not found'') else Inr config))"

definition build_config :: "host \<Rightarrow> build_flags \<Rightarrow> string \<Rightarrow> stop + ContainConfig" where
  "build_config H f cwd =
     (case base_config H f cwd of
        Inl e \<Rightarrow> Inl e
      | Inr config \<Rightarrow>
          (case with_tag H f config of
             Inl e \<Rightarrow> Inl e
           | Inr config \<Rightarrow> with_platforms H f config))"

section \<open>What is written where\<close>

text \<open>\<open>effectiveOutput\<close>, \<open>effectiveFormat\<close> and \<open>pushFlag\<close>.\<close>

definition choose_output :: "host \<Rightarrow> build_flags \<Rightarrow> go_err + string \<times> string \<times> bool" where
  "choose_output H f =
     (let tarball = bf_tarball f \<noteq> '''' \<and> bf_output f = '''';
          out = (if tarball then bf_tarball f else bf_output f);
          format = (if tarball then ''tarball'' else bf_format f)
      in case PushOption (ho_lookup H) of
           Inl e \<Rightarrow> Inl e
         | Inr pushEnv \<Rightarrow>
          (let push = (case pushEnv of None \<Rightarrow> bf_push f
                       | Some b \<Rightarrow> if bf_changed f ''push'' then bf_push f else b)
           in case OCIOutput (ho_lookup H) of
                Inl e \<Rightarrow> Inl e
              | Inr None \<Rightarrow> Inr (out, format, push)
              | Inr (Some path) \<Rightarrow>
                  (if bf_tarball f \<noteq> '''' \<or> bf_output f \<noteq> '''' \<or> bf_changed f ''format''
                   then Inl (Msg ''CONTAIN_OCI_OUTPUT cannot be combined with --tarball, --output, or --format'')
                   else Inr (path, ''oci'', push))))"

text \<open>The file of the push lock, if there is one.\<close>

definition choose_lock :: "host \<Rightarrow> build_flags \<Rightarrow> go_err + string option" where
  "choose_lock H f =
     (if bf_changed f ''push-lock'' then
       (if bf_pushLock f = '''' \<or> bf_pushLock f = ''/dev/null'' then Inr None
        else case NewFlockPushLock (bf_pushLock f) of Inl e \<Rightarrow> Inl e | Inr p \<Rightarrow> Inr (Some p))
      else
       (case PushLockPath (ho_lookup H) of
          Inl e \<Rightarrow> Inl e
        | Inr envPath \<Rightarrow>
            (if envPath \<noteq> ''''
             then (case NewFlockPushLock envPath of Inl e \<Rightarrow> Inl e | Inr p \<Rightarrow> Inr (Some p))
             else Inr None)))"

text \<open>The path of the output that the result names; \<open>cwd\<close> is the directory in which it is computed.\<close>

definition resolveOutputPath :: "string \<Rightarrow> string \<Rightarrow> string \<Rightarrow> string" where
  "resolveOutputPath cwd outputPath fileOutputPath =
     (if fileOutputPath = '''' \<or> is_abs outputPath then outputPath
      else
       (let fileOutputDir = path_dir fileOutputPath;
            absOutput = path_abs cwd outputPath;
            absFileOutputDir = path_abs cwd fileOutputDir
        in case path_rel absFileOutputDir absOutput of
             None \<Rightarrow> outputPath
           | Some rel \<Rightarrow> rel))"

section \<open>Absolute paths as lists of names\<close>

definition slashed :: "string list \<Rightarrow> string" where
  "slashed names = CHR ''/'' # str_join names ''/''"

lemma is_abs_slashed [simp]: "is_abs (slashed names)"
  by (simp add: slashed_def is_abs_def has_prefix_def)

lemma split_slashed:
  "list_all plain_seg names \<Longrightarrow> split_on (CHR ''/'') (slashed names) = '''' # (if names = [] then [''''] else names)"
  using split_on_append_sep [of "CHR ''/''" "[]"] split_on_join [of names "CHR ''/''"]
  by (auto simp: slashed_def list_all_iff plain_seg_def)

lemma clean_slashed: "list_all plain_seg names \<Longrightarrow> path_clean (slashed names) = slashed names"
  by (simp add: path_clean_def Let_def split_slashed clean_segs_def clean_step_def foldl_clean_plain)
    (simp add: slashed_def)

lemma segs_slashed: "list_all plain_seg names \<Longrightarrow> path_segs (slashed names) = names"
  by (auto simp: path_segs_def split_slashed list_all_iff plain_seg_def filter_id_conv)

lemma slashed_not_dot [simp]: "slashed names \<noteq> ''.''"
  by (simp add: slashed_def)

lemma slashed_inj:
  "list_all plain_seg as \<Longrightarrow> list_all plain_seg bs \<Longrightarrow> slashed as = slashed bs \<longleftrightarrow> as = bs"
  using segs_slashed by metis

lemma clean_abs:
  assumes "is_abs p"
  obtains names where "list_all plain_seg names" and "path_clean p = slashed names"
proof (rule clean_segs_shape [of True p])
  fix k names
  assume "clean_segs True (split_on (CHR ''/'') p) = replicate k ''..'' @ names" "list_all plain_seg names" "True \<Longrightarrow> k = 0"
  with assms that show ?thesis by (simp add: path_clean_def slashed_def)
qed

lemma path_abs_slashed:
  assumes "is_abs cwd"
  obtains names where "list_all plain_seg names" and "path_abs cwd p = slashed names"
proof -
  let ?q = "if is_abs p then p else cwd @ CHR ''/'' # p"
  have "is_abs ?q" "cwd \<noteq> ''''" using assms by (cases cwd; simp add: is_abs_def has_prefix_def)+
  then have "is_abs ?q" "path_abs cwd p = path_clean ?q" by (simp_all add: path_abs_def path_join_def)
  with that show ?thesis using clean_abs by metis
qed

section \<open>The recorded output path\<close>

lemma strip_common_split: "strip_common as bs = (a, b) \<Longrightarrow> \<exists>c. as = c @ a \<and> bs = c @ b"
proof (induction as bs rule: strip_common.induct)
  case (1 x as y bs)
  then show ?case by (cases "x = y") (auto intro: exI [of _ "x # _"])
qed auto

lemma clean_up:
  "list_all plain_seg names \<Longrightarrow>
   foldl (clean_step True) (rev names @ st) (replicate (length names) ''..'') = st"
proof (induction names rule: rev_induct)
  case (snoc x names)
  then have "x \<noteq> ''..''" by (simp add: plain_seg_def)
  with snoc show ?case by (simp add: clean_step_def)
qed simp

text \<open>Following \<open>Rel\<close> from its base gives its target.\<close>

lemma follow_rel:
  assumes B: "list_all plain_seg B" and T: "list_all plain_seg T"
    and rel: "path_rel (slashed B) (slashed T) = Some rel"
  shows "\<not> is_abs rel" and "path_abs (slashed B) rel = slashed T"
proof -
  obtain segs where segs: "rel = str_join segs ''/''" "segs \<noteq> []" "\<And>x. x \<in> set segs \<Longrightarrow> CHR ''/'' \<notin> set x \<and> x \<noteq> ''''"
    and fold: "foldl (clean_step True) (rev B) segs = rev T"
  proof (cases "B = T")
    case True
    with rel B T have "rel = ''.''" by (simp add: path_rel_def clean_slashed)
    with that [of "[''.'']"] True show ?thesis by (simp add: clean_step_def)
  next
    case False
    obtain b t where bt: "strip_common B T = (b, t)" by fastforce
    then obtain C where C: "B = C @ b" "T = C @ t" using strip_common_split by blast
    have plain: "list_all plain_seg b" "list_all plain_seg t" using B T C by simp_all
    have "rel = str_join (replicate (length b) ''..'' @ t) ''/''"
      using rel B T False bt by (auto simp: path_rel_def clean_slashed segs_slashed slashed_inj split: if_splits)
    moreover have "replicate (length b) ''..'' @ t \<noteq> []" using C False by auto
    moreover have "foldl (clean_step True) (rev B) (replicate (length b) ''..'' @ t) = rev T"
      using C plain clean_up [OF plain(1), of "rev C"] by (simp add: foldl_clean_plain)
    ultimately show ?thesis using that plain(2) by (fastforce simp: list_all_iff plain_seg_def)
  qed
  have split: "split_on (CHR ''/'') rel = segs" using segs by (simp add: split_on_join)
  have "hd segs \<noteq> ''''" "CHR ''/'' \<notin> set (hd segs)" using segs by simp_all
  then show not_abs: "\<not> is_abs rel"
    using segs(1,2) by (cases segs; cases "hd segs"; cases "tl segs") (auto simp: is_abs_def has_prefix_def)
  have ne: "slashed B \<noteq> ''''" by (simp add: slashed_def)
  have "path_abs (slashed B) rel = path_clean (slashed B @ CHR ''/'' # rel)"
    using not_abs ne by (simp add: path_abs_def path_join_def)
  also have "\<dots> = slashed T"
  proof -
    have "is_abs (slashed B @ CHR ''/'' # rel)" by (simp add: slashed_def is_abs_def has_prefix_def)
    moreover have "clean_segs True (split_on (CHR ''/'') (slashed B @ CHR ''/'' # rel)) = T"
      using B fold split by (auto simp: split_on_append_sep split_slashed clean_segs_def clean_step_def foldl_clean_plain)
    ultimately show ?thesis by (simp add: path_clean_def slashed_def)
  qed
  finally show "path_abs (slashed B) rel = slashed T" .
qed

lemma rel_exists:
  assumes "list_all plain_seg B" and "list_all plain_seg T"
  shows "\<exists>rel. path_rel (slashed B) (slashed T) = Some rel"
proof -
  obtain b t where bt: "strip_common B T = (b, t)" by fastforce
  then have "set b \<subseteq> set B" using strip_common_split by fastforce
  with assms(1) have "b \<noteq> [] \<Longrightarrow> hd b \<noteq> ''..''" by (cases b) (auto simp: list_all_iff plain_seg_def)
  with bt assms show ?thesis by (cases "b = []") (auto simp: path_rel_def clean_slashed segs_slashed Let_def)
qed



text \<open>
  With a context path the output is relative to the context, and so is the path that is computed; the
  file output is opened later, after the return to the first directory.
\<close>

lemma output_path_with_context:
  "path_abs (path_abs ''/home'' (path_dir ''builds.json'')) (resolveOutputPath ''/home/app'' ''image'' ''builds.json'')
     = ''/home/image''"
  "path_abs ''/home/app'' ''image'' = ''/home/app/image''"
  by code_simp+

section \<open>Which lock\<close>

lemma NewFlockPushLock_Inr: "NewFlockPushLock p = Inr q \<longleftrightarrow> q = p \<and> is_abs p"
  by (cases p) (auto simp: NewFlockPushLock_def validateAbsPath_def is_abs_def has_prefix_def)

text \<open>The lock file is absolute, and it is the one of the flag whenever the flag was given.\<close>

lemma choose_lock_file:
  assumes "choose_lock H f = Inr (Some p)"
  shows "is_abs p" and "bf_changed f ''push-lock'' \<Longrightarrow> p = bf_pushLock f \<and> p \<noteq> ''/dev/null''"
    and "\<not> bf_changed f ''push-lock'' \<Longrightarrow> ho_lookup H ''CONTAIN_PUSH_LOCK_PATH'' = Some p"
  using assms
  by (auto simp: choose_lock_def PushLockPath_def NewFlockPushLock_Inr split: if_splits sum.splits option.splits)

end
