(* ===== verification/Local_Dir.thy ===== *)
theory Local_Dir
  imports Schema_Layers Go_Path "HOL-Library.Multiset"
begin

text \<open>
  Layers from local files (\<open>pkg/localdir\<close>) and their builders (\<open>pkg/layers/layers.go\<close>). The file system
  is a record of functions: \<open>fs_walk root\<close> is the sequence of calls that \<open>fs.WalkDir(os.DirFS(root), ".", fn)\<close>
  makes as long as \<open>fn\<close> returns nil, which \<open>fn\<close> here does until it fails. The pattern matcher of
  \<open>moby/patternmatcher\<close> and go-containerregistry's \<open>tarball.LayerFromOpener\<close> are parameters. Sizes
  and counts are Go \<open>int\<close>s of values in memory, modelled as \<open>int\<close>.
\<close>

section \<open>Sizes (size.go)\<close>

text \<open>\<open>strconv.ParseInt(s, 10, 0)\<close>: an optional sign and digits, in the range of a 64-bit integer.\<close>

fun digits_value :: "int \<Rightarrow> string \<Rightarrow> int option" where
  "digits_value acc [] = Some acc"
| "digits_value acc (c # s) =
     (if CHR ''0'' \<le> c \<and> c \<le> CHR ''9'' then digits_value (10 * acc + (of_char c - 48)) s else None)"

definition parse_int :: "string \<Rightarrow> int option" where
  "parse_int s =
     (let neg = (s \<noteq> [] \<and> hd s = CHR ''-'');
          digits = (if s \<noteq> [] \<and> (hd s = CHR ''-'' \<or> hd s = CHR ''+'') then tl s else s)
      in if digits = [] then None
         else case digits_value 0 digits of
           None \<Rightarrow> None
         | Some n \<Rightarrow>
             let v = (if neg then - n else n)
             in if - (2 ^ 63) \<le> v \<and> v < 2 ^ 63 then Some v else None)"

definition NewSize :: "string \<Rightarrow> go_err + int" where
  "NewSize config =
     (case parse_int config of
        None \<Rightarrow> Inl (Msg (''maxSize only supports numeric bytes syntax at the moment, got: '' @ config))
      | Some s \<Rightarrow> Inr s)"

section \<open>The file system and the tools\<close>

type_synonym file_mode = "32 word"

definition ModeSymlink :: file_mode where
  "ModeSymlink = push_bit 27 1"

text \<open>A \<open>fs.DirEntry\<close>: its type, and what \<open>Info\<close> returns of it.\<close>

record dir_entry =
  de_isDir :: bool
  de_info :: "string + file_mode"

record walk_call =
  wc_path :: string
  wc_entry :: "dir_entry option"
  wc_err :: "string option"

record fs =
  fs_walk :: "string \<Rightarrow> walk_call list"
  fs_readlink :: "string \<Rightarrow> string + string"
  fs_read :: "string \<Rightarrow> string + bytes"
  fs_dir_read :: "string \<Rightarrow> string \<Rightarrow> string + bytes"  \<comment> \<open>\<open>fs.ReadFile(os.DirFS(root), name)\<close>\<close>

datatype typeflag = TypeReg | TypeDir | TypeSymlink

record tar_header =
  th_name :: string
  th_mode :: int
  th_uid :: int
  th_gid :: int
  th_modTime :: int  \<comment> \<open>seconds since the epoch\<close>
  th_typeflag :: typeflag
  th_linkname :: string
  th_size :: int

record 'l tar_lib =
  tl_header_err :: "tar_header \<Rightarrow> string option"  \<comment> \<open>\<open>WriteHeader\<close>\<close>
  tl_layer :: "(tar_header \<times> bytes) list \<Rightarrow> string + 'l"  \<comment> \<open>\<open>LayerFromOpener\<close> on the archive\<close>

type_synonym matcher = "string \<Rightarrow> string + bool"

section \<open>Layers from files (filemap\_chmod.go)\<close>

record FileInfo =
  fi_path :: string
  fi_content :: bytes
  fi_mode :: file_mode
  fi_isDir :: bool
  fi_isSymlink :: bool
  fi_linkTarget :: string

definition defaultFileMode :: int where "defaultFileMode = 420"  \<comment> \<open>octal 644\<close>
definition defaultDirMode :: int where "defaultDirMode = 493"  \<comment> \<open>octal 755\<close>
definition executableMask :: int where "executableMask = 73"  \<comment> \<open>octal 111\<close>
definition SOURCE_DATE_EPOCH :: int where "SOURCE_DATE_EPOCH = 0"

unbundle bit_operations_syntax

definition calculateFileMode :: "FileInfo \<Rightarrow> LayerAttributes \<Rightarrow> int" where
  "calculateFileMode file attributes =
     (if fi_isDir file then
        (if la_dirMode attributes \<noteq> 0 then sint (la_dirMode attributes) else defaultDirMode)
      else if la_fileMode attributes \<noteq> 0 then sint (la_fileMode attributes)
      else if fi_mode file AND 73 \<noteq> 0 then defaultFileMode OR executableMask
      else defaultFileMode)"

definition file_header :: "FileInfo \<Rightarrow> LayerAttributes \<Rightarrow> tar_header" where
  "file_header file attributes =
     \<lparr>th_name = fi_path file, th_mode = calculateFileMode file attributes,
      th_uid = uint (la_uid attributes), th_gid = uint (la_gid attributes),
      th_modTime = SOURCE_DATE_EPOCH,
      th_typeflag = (if fi_isSymlink file then TypeSymlink else if fi_isDir file then TypeDir else TypeReg),
      th_linkname = (if fi_isSymlink file then fi_linkTarget file else ''''),
      th_size = (if fi_isSymlink file then 0 else if fi_isDir file then 0 else int (length (fi_content file)))\<rparr>"

fun write_tar :: "'l tar_lib \<Rightarrow> LayerAttributes \<Rightarrow> FileInfo list \<Rightarrow> go_err + (tar_header \<times> bytes) list" where
  "write_tar TL attributes [] = Inr []"
| "write_tar TL attributes (file # files) =
     (let header = file_header file attributes in
      case tl_header_err TL header of
        Some e \<Rightarrow> Inl (Msg e)
      | None \<Rightarrow>
          (case write_tar TL attributes files of
             Inl e \<Rightarrow> Inl e
           | Inr rest \<Rightarrow>
               Inr ((header, if \<not> fi_isDir file \<and> \<not> fi_isSymlink file then fi_content file else []) # rest)))"

text \<open>\<open>sort.Slice\<close> by path; the paths are distinct at both call sites, so its instability does not show.\<close>

definition LayerFromFiles :: "'l tar_lib \<Rightarrow> FileInfo list \<Rightarrow> LayerAttributes \<Rightarrow> go_err + 'l" where
  "LayerFromFiles TL files attributes =
     (case write_tar TL attributes (sort_key fi_path files) of
        Inl e \<Rightarrow> Inl e
      | Inr entries \<Rightarrow> (case tl_layer TL entries of Inl e \<Rightarrow> Inl (Msg e) | Inr l \<Rightarrow> Inr l))"

text \<open>\<open>Layer\<close>: from a map of contents, in the order \<open>filemap\<close> in which it is ranged over.\<close>

definition filemap_Layer :: "'l tar_lib \<Rightarrow> (string \<times> bytes) list \<Rightarrow> LayerAttributes \<Rightarrow> go_err + 'l" where
  "filemap_Layer TL filemap attributes =
     LayerFromFiles TL
       (map (\<lambda>(path, content). \<lparr>fi_path = path, fi_content = content, fi_mode = 420, fi_isDir = False,
          fi_isSymlink = False, fi_linkTarget = ''''\<rparr>) filemap) attributes"

section \<open>Walking a directory (localdir.go)\<close>

record From =
  fr_isFile :: bool
  fr_path :: string
  fr_containerPath :: "(string \<Rightarrow> string) option"
  fr_ignore :: "matcher option"
  fr_maxFiles :: int
  fr_maxSize :: int

definition NewFile :: From where
  "NewFile = \<lparr>fr_isFile = True, fr_path = '''', fr_containerPath = None, fr_ignore = None,
     fr_maxFiles = 1, fr_maxSize = 0\<rparr>"

definition NewDir :: From where
  "NewDir = \<lparr>fr_isFile = False, fr_path = '''', fr_containerPath = None, fr_ignore = None,
     fr_maxFiles = 0, fr_maxSize = 0\<rparr>"

definition prepend_path :: "string \<Rightarrow> string \<Rightarrow> string" where
  "prepend_path prependDir original =
     (if original = ''.'' then prependDir else prependDir @ ''/'' @ original)"

definition NewPathMapperPrepend :: "string \<Rightarrow> stop + (string \<Rightarrow> string)" where
  "NewPathMapperPrepend prependDir =
     (if \<not> has_prefix prependDir ''/''
      then Inl (Exit (''prependDir must have leading slash, got: '' @ prependDir))
      else if has_suffix prependDir ''/''
      then Inl (Exit (''prependDir should be a path without trailing slash, got: '' @ prependDir))
      else Inr (prepend_path prependDir))"

definition NewPathMapperAsIs :: "string \<Rightarrow> string" where
  "NewPathMapperAsIs original = original"

definition isWithinSourceTree :: "string \<Rightarrow> string \<Rightarrow> bool" where
  "isWithinSourceTree linkTarget sourcePath = (if is_abs linkTarget then False else True)"

text \<open>The variables that the closure \<open>add\<close> shares with its function.\<close>

record walk_state =
  ws_bytes :: int
  ws_files :: "FileInfo list"
  ws_seen :: "string list"

text \<open>The part of \<open>add\<close> for a regular file; \<open>info\<close> is its mode when there is an entry.\<close>

definition add_file ::
  "(string \<Rightarrow> string + bytes) \<Rightarrow> From \<Rightarrow> string \<Rightarrow> string \<Rightarrow> file_mode option \<Rightarrow> walk_state \<Rightarrow>
   (go_err + unit) \<times> walk_state" where
  "add_file readFile dir path topath info s =
     (case readFile path of
        Inl e \<Rightarrow> (Inl (Msg e), s)
      | Inr file \<Rightarrow>
          let s1 = s\<lparr>ws_bytes := ws_bytes s + int (length file)\<rparr> in
          if fr_maxSize dir > 0 \<and> ws_bytes s1 > fr_maxSize dir
          then (Inl (Msg (''accumulated file size '' @ itoa (ws_bytes s1)
                 @ '' exceeds max size from layer config: '' @ itoa (fr_maxSize dir))), s1)
          else
            (Inr (), s1\<lparr>ws_files := ws_files s1 @
               [\<lparr>fi_path = topath, fi_content = file, fi_mode = (case info of Some m \<Rightarrow> m | None \<Rightarrow> 420),
                 fi_isDir = False, fi_isSymlink = False, fi_linkTarget = ''''\<rparr>]\<rparr>))"

definition add_symlink ::
  "fs \<Rightarrow> From \<Rightarrow> string \<Rightarrow> string \<Rightarrow> file_mode \<Rightarrow> walk_state \<Rightarrow> (go_err + unit) \<times> walk_state" where
  "add_symlink F dir path topath info s =
     (case fs_readlink F (path_join [fr_path dir, path]) of
        Inl e \<Rightarrow> (Inl (Msg e), s)
      | Inr linkTarget \<Rightarrow>
          (if isWithinSourceTree linkTarget (fr_path dir)
           then (Inr (), s\<lparr>ws_files := ws_files s @
               [\<lparr>fi_path = topath, fi_content = [], fi_mode = info, fi_isDir = False,
                 fi_isSymlink = True, fi_linkTarget = linkTarget\<rparr>]\<rparr>)
           else (Inr (), s)))"

definition add_dir ::
  "string \<Rightarrow> dir_entry \<Rightarrow> walk_state \<Rightarrow> (go_err + unit) \<times> walk_state" where
  "add_dir topath d s =
     (if topath \<notin> set (ws_seen s) then
        (case de_info d of
           Inl e \<Rightarrow> (Inl (Msg e), s)
         | Inr m \<Rightarrow>
             (Inr (), s\<lparr>ws_files := ws_files s @
               [\<lparr>fi_path = topath, fi_content = [], fi_mode = m, fi_isDir = True,
                 fi_isSymlink = False, fi_linkTarget = ''''\<rparr>], ws_seen := topath # ws_seen s\<rparr>))
      else (Inr (), s))"

definition add_call ::
  "fs \<Rightarrow> (string \<Rightarrow> string + bytes) \<Rightarrow> From \<Rightarrow> (string \<Rightarrow> string) \<Rightarrow> matcher \<Rightarrow> walk_call \<Rightarrow> walk_state \<Rightarrow>
   (go_err + unit) \<times> walk_state" where
  "add_call F readFile dir containerPath ign call s =
     (case wc_err call of
        Some e \<Rightarrow>
          (if wc_path call = ''.'' \<and> wc_entry call = None \<and> \<not> fr_isFile dir
           then (Inl (Msg (''localDir configured for what looks like a file: '' @ fr_path dir)), s)
           else (Inl (Msg e), s))
      | None \<Rightarrow>
       (case ign (wc_path call) of
          Inl e \<Rightarrow> (Inl (Msg e), s)
        | Inr True \<Rightarrow> (Inr (), s)
        | Inr False \<Rightarrow>
           let topath = containerPath (wc_path call) in
           (case wc_entry call of
              Some d \<Rightarrow>
                (if de_isDir d then add_dir topath d s
                 else if fr_maxFiles dir > 0 \<and> int (length (ws_files s)) \<ge> fr_maxFiles dir
                 then (Inl (Msg (''number of files exceeds max from layer config: '' @ itoa (fr_maxFiles dir))), s)
                 else
                  (case de_info d of
                     Inl e \<Rightarrow> (Inl (Msg e), s)
                   | Inr m \<Rightarrow>
                      (if m AND ModeSymlink \<noteq> 0 then add_symlink F dir (wc_path call) topath m s
                       else add_file readFile dir (wc_path call) topath (Some m) s)))
            | None \<Rightarrow>
                (if fr_maxFiles dir > 0 \<and> int (length (ws_files s)) \<ge> fr_maxFiles dir
                 then (Inl (Msg (''number of files exceeds max from layer config: '' @ itoa (fr_maxFiles dir))), s)
                 else add_file readFile dir (wc_path call) topath None s))))"

definition SingleFileFS_ReadFile :: "fs \<Rightarrow> string \<Rightarrow> string \<Rightarrow> string + bytes" where
  "SingleFileFS_ReadFile F filePath name =
     (if name \<noteq> ''.'' then Inl ''file does not exist'' else fs_read F filePath)"

definition walk_files ::
  "fs \<Rightarrow> From \<Rightarrow> (string \<Rightarrow> string) \<Rightarrow> matcher \<Rightarrow> (go_err + unit) \<times> walk_state" where
  "walk_files F dir containerPath ign =
     (let s0 = \<lparr>ws_bytes = 0, ws_files = [], ws_seen = []\<rparr> in
      if \<not> fr_isFile dir
      then for_each (add_call F (fs_dir_read F (fr_path dir)) dir containerPath ign) (fs_walk F (fr_path dir)) s0
      else add_call F (SingleFileFS_ReadFile F (fr_path dir)) dir containerPath ign
             \<lparr>wc_path = ''.'', wc_entry = None, wc_err = None\<rparr> s0)"

text \<open>Without an ignore list the code builds a matcher of no patterns, which matches nothing.\<close>

definition FromFilesystemWithMetadata ::
  "'l tar_lib \<Rightarrow> fs \<Rightarrow> From \<Rightarrow> LayerAttributes \<Rightarrow> go_err + 'l" where
  "FromFilesystemWithMetadata TL F dir attributes =
     (if fr_path dir = '''' then Inl (Msg ''path must be specified (use . for CWD)'')
      else if fr_containerPath dir = None \<and> fr_isFile dir
      then Inl (Msg ''localFile layer requires containerPath'')
      else
       let containerPath = (case fr_containerPath dir of Some f \<Rightarrow> f | None \<Rightarrow> NewPathMapperAsIs);
           ign = (case fr_ignore dir of Some m \<Rightarrow> m | None \<Rightarrow> (\<lambda>path. Inr False)) in
       (case walk_files F dir containerPath ign of
          (Inl e, s) \<Rightarrow> Inl e
        | (Inr _, s) \<Rightarrow>
            (if ws_files s = [] then Inl (Msg (''dir resulted in empty layer: '' @ fr_path dir))
             else LayerFromFiles TL (ws_files s) attributes)))"

definition FromFilesystem :: "'l tar_lib \<Rightarrow> fs \<Rightarrow> From \<Rightarrow> LayerAttributes \<Rightarrow> go_err + 'l" where
  "FromFilesystem TL F dir attributes = FromFilesystemWithMetadata TL F dir attributes"

section \<open>Reproducible layers\<close>

text \<open>What of a file reaches the layer.\<close>

definition regular :: "FileInfo \<Rightarrow> bool" where
  "regular f \<longleftrightarrow> \<not> fi_isDir f \<and> \<not> fi_isSymlink f"

definition essence :: "FileInfo \<Rightarrow> string \<times> bytes \<times> bool \<times> bool \<times> string \<times> bool" where
  "essence f = (fi_path f, if regular f then fi_content f else [], fi_isDir f, fi_isSymlink f,
     if fi_isSymlink f then fi_linkTarget f else '''', fi_mode f AND 73 \<noteq> 0)"

definition tar_item :: "LayerAttributes \<Rightarrow> FileInfo \<Rightarrow> tar_header \<times> bytes" where
  "tar_item a f = (file_header f a, if regular f then fi_content f else [])"

lemma tar_item_essence: "essence f = essence g \<Longrightarrow> tar_item a f = tar_item a g"
  by (auto simp: essence_def tar_item_def file_header_def calculateFileMode_def regular_def split: if_splits)

lemma write_tar_map:
  "write_tar TL a files =
     (case find (\<lambda>i. tl_header_err TL (fst i) \<noteq> None) (map (tar_item a) files) of
        None \<Rightarrow> Inr (map (tar_item a) files)
      | Some i \<Rightarrow> Inl (Msg (the (tl_header_err TL (fst i)))))"
  by (induction files) (auto simp: Let_def tar_item_def regular_def split: option.splits)

lemma write_tar_essence:
  assumes "map essence fs = map essence gs"
  shows "write_tar TL a fs = write_tar TL a gs"
proof -
  have "map (tar_item a) fs = map (tar_item a) gs"
    using assms tar_item_essence unfolding map_equality_iff by blast
  then show ?thesis by (simp only: write_tar_map)
qed

lemma sort_essence:
  assumes "mset (map essence fs) = mset (map essence gs)" and "distinct (map fi_path fs)"
  shows "map essence (sort_key fi_path fs) = map essence (sort_key fi_path gs)"
proof -
  have key: "fst \<circ> essence = fi_path" by (auto simp: essence_def)
  have "image_mset fst (mset (map essence fs)) = image_mset fst (mset (map essence gs))"
    using assms(1) by simp
  then have "mset (map fi_path fs) = mset (map fi_path gs)"
    by (simp add: key image_mset.compositionality flip: mset_map)
  then have "distinct (map fi_path gs)" using assms(2) mset_eq_imp_distinct_iff by blast
  have sorted: "sorted (map fst (map essence (sort_key fi_path hs)))" for hs
    by (simp add: key)
  have ms: "mset (map essence (sort_key fi_path fs)) = mset (map essence (sort_key fi_path gs))"
    using assms(1) by simp
  have "inj_on (fst \<circ> essence) (set fs)"
    using assms(2) by (simp add: key distinct_map)
  then have "inj_on fst (set (map essence (sort_key fi_path fs)))"
    by (simp add: inj_on_imageI)
  then have "sort_key fst (map essence (sort_key fi_path fs)) = map essence (sort_key fi_path gs)"
    using ms sorted by (intro sort_key_inj_key_eq) auto
  moreover have "sort_key fst (map essence (sort_key fi_path fs)) = map essence (sort_key fi_path fs)"
    using sorted by (rule sort_key_id_if_sorted)
  ultimately show ?thesis by simp
qed

text \<open>
  C21: layers are reproducible. The layer depends on the paths, the contents, the kinds, the link targets
  and the executable bits of the files, and on nothing else: not on the order in which the walk met
  them, not on their other permission bits.
\<close>

theorem layer_reproducible:
  assumes "mset (map essence fs) = mset (map essence gs)" and "distinct (map fi_path fs)"
  shows "LayerFromFiles TL fs a = LayerFromFiles TL gs a"
  by (simp add: LayerFromFiles_def write_tar_essence [OF sort_essence [OF assms]])

definition toy_tar :: "(tar_header \<times> bytes) list tar_lib" where
  "toy_tar = \<lparr>tl_header_err = (\<lambda>h. if th_name h = '''' then Some ''empty name'' else None), tl_layer = Inr\<rparr>"

definition toy_file :: "string \<Rightarrow> file_mode \<Rightarrow> FileInfo" where
  "toy_file p m = \<lparr>fi_path = p, fi_content = p, fi_mode = m, fi_isDir = False, fi_isSymlink = False,
     fi_linkTarget = ''''\<rparr>"

definition toy_attributes :: LayerAttributes where
  "toy_attributes = \<lparr>la_uid = 0, la_gid = 0, la_fileMode = 0, la_dirMode = 0\<rparr>"

theorem layer_reproducible_witness:
  "LayerFromFiles toy_tar [toy_file ''b'' 420, toy_file ''a'' 511] toy_attributes
     = LayerFromFiles toy_tar [toy_file ''a'' 493, toy_file ''b'' 256] toy_attributes"
  by (rule layer_reproducible) (simp_all add: toy_file_def essence_def regular_def add_mset_commute)

section \<open>What a directory layer contains\<close>

text \<open>The entry a call of the walk gives rise to, if any.\<close>

definition entry_of ::
  "fs \<Rightarrow> (string \<Rightarrow> string + bytes) \<Rightarrow> From \<Rightarrow> (string \<Rightarrow> string) \<Rightarrow> matcher \<Rightarrow> walk_call \<Rightarrow> FileInfo option" where
  "entry_of F readFile dir containerPath ign call =
     (if ign (wc_path call) = Inr True then None
      else
       case wc_entry call of
         None \<Rightarrow> None
       | Some d \<Rightarrow>
          (let m = projr (de_info d);
               fi = \<lparr>fi_path = containerPath (wc_path call), fi_content = [], fi_mode = m, fi_isDir = False,
                     fi_isSymlink = False, fi_linkTarget = ''''\<rparr> in
           if de_isDir d then Some (fi\<lparr>fi_isDir := True\<rparr>)
           else if m AND ModeSymlink \<noteq> 0 then
             (let target = projr (fs_readlink F (path_join [fr_path dir, wc_path call])) in
              if is_abs target then None else Some (fi\<lparr>fi_isSymlink := True, fi_linkTarget := target\<rparr>))
           else Some (fi\<lparr>fi_content := projr (readFile (wc_path call))\<rparr>)))"

lemma add_call_entry:
  assumes "add_call F readFile dir cp ign call s = (Inr (), s')" and "wc_entry call \<noteq> None"
    and "cp (wc_path call) \<notin> set (ws_seen s)"
  shows "ws_files s' = ws_files s @ (case entry_of F readFile dir cp ign call of None \<Rightarrow> [] | Some f \<Rightarrow> [f])
    \<and> set (ws_seen s') \<subseteq> insert (cp (wc_path call)) (set (ws_seen s))
    \<and> wc_err call = None
    \<and> ws_bytes s' = ws_bytes s + (case entry_of F readFile dir cp ign call of None \<Rightarrow> 0 | Some f \<Rightarrow> int (length (fi_content f)))
    \<and> (fr_maxSize dir > 0 \<longrightarrow> ws_bytes s \<le> fr_maxSize dir \<longrightarrow> ws_bytes s' \<le> fr_maxSize dir)
    \<and> (\<forall>f. entry_of F readFile dir cp ign call = Some f \<longrightarrow> \<not> fi_isDir f \<longrightarrow> fr_maxFiles dir > 0 \<longrightarrow>
         int (length (ws_files s)) < fr_maxFiles dir)"
  using assms
  by (auto simp: add_call_def add_dir_def add_file_def add_symlink_def entry_of_def isWithinSourceTree_def Let_def
      split: option.splits sum.splits bool.splits if_splits)

definition total_bytes :: "FileInfo list \<Rightarrow> int" where
  "total_bytes files = sum_list (map (\<lambda>f. int (length (fi_content f))) files)"

lemma total_bytes_simps [simp]:
  "total_bytes [] = 0" "total_bytes (f # files) = int (length (fi_content f)) + total_bytes files"
  by (simp_all add: total_bytes_def)

lemma walk_entries:
  assumes "for_each (add_call F readFile dir cp ign) calls s = (Inr (), s')"
    and "\<forall>c \<in> set calls. wc_entry c \<noteq> None" and "distinct (map wc_path calls)" and "inj cp"
    and "\<forall>c \<in> set calls. cp (wc_path c) \<notin> set (ws_seen s)"
  shows "ws_files s' = ws_files s @ List.map_filter (entry_of F readFile dir cp ign) calls
    \<and> ws_bytes s' = ws_bytes s + total_bytes (List.map_filter (entry_of F readFile dir cp ign) calls)
    \<and> (fr_maxSize dir > 0 \<longrightarrow> ws_bytes s \<le> fr_maxSize dir \<longrightarrow> ws_bytes s' \<le> fr_maxSize dir)
    \<and> (fr_maxFiles dir > 0 \<longrightarrow> (\<forall>pre f post. ws_files s' = pre @ f # post \<longrightarrow>
         length (ws_files s) \<le> length pre \<longrightarrow> \<not> fi_isDir f \<longrightarrow> int (length pre) < fr_maxFiles dir))"
  using assms
proof (induction calls arbitrary: s)
  case Nil
  then show ?case by simp
next
  case (Cons c calls)
  then obtain s1 where s1: "add_call F readFile dir cp ign c s = (Inr (), s1)"
      "for_each (add_call F readFile dir cp ign) calls s1 = (Inr (), s')"
    using for_each_Inr_Cons by metis
  note e = add_call_entry [OF s1(1)]
  have ent: "wc_entry c \<noteq> None" "cp (wc_path c) \<notin> set (ws_seen s)" using Cons.prems by auto
  note e = e [OF ent]
  have seen: "set (ws_seen s1) \<subseteq> insert (cp (wc_path c)) (set (ws_seen s))" using e by blast
  have "cp (wc_path d) \<noteq> cp (wc_path c)" if "d \<in> set calls" for d
    using that Cons.prems(3) by (auto simp: inj_eq [OF Cons.prems(4)] intro: rev_image_eqI)
  with seen Cons.prems(5) have unseen: "\<forall>d \<in> set calls. cp (wc_path d) \<notin> set (ws_seen s1)" by auto
  have rest: "\<forall>d \<in> set calls. wc_entry d \<noteq> None" "distinct (map wc_path calls)"
    using Cons.prems(2,3) by simp_all
  note IH = Cons.IH [OF s1(2) rest Cons.prems(4) unseen]
  show ?case
  proof (cases "entry_of F readFile dir cp ign c")
    case None
    with e IH show ?thesis by auto
  next
    case (Some f)
    have lt: "int (length pre) < fr_maxFiles dir"
      if "ws_files s' = pre @ g # post" "length (ws_files s) \<le> length pre" "\<not> fi_isDir g" "fr_maxFiles dir > 0"
      for pre g post
    proof (cases "length (ws_files s) = length pre")
      case True
      then have "g = f" using that(1) e IH Some by simp
      with e Some that(3,4) True show ?thesis by simp
    next
      case False
      have "ws_files s1 = ws_files s @ [f]" using e Some by simp
      with False that(2) have "length (ws_files s1) \<le> length pre" by simp
      with IH [THEN conjunct2, THEN conjunct2, THEN conjunct2] that(1,3,4) show ?thesis by blast
    qed
    with e IH Some show ?thesis by (auto simp: add.assoc)
  qed
qed

lemma prepend_path_inj: "inj_on (prepend_path d) {p. p = ''.'' \<or> True}"
  by (auto simp: inj_on_def prepend_path_def)

lemma prepend_path_inj': "inj (prepend_path d)"
  using prepend_path_inj [of d] by simp

lemma as_is_inj: "inj NewPathMapperAsIs"
  by (simp add: inj_def NewPathMapperAsIs_def)


text \<open>
  The file limit counts the directories seen before, the root included: a directory with a single
  file does not pass \<open>maxFiles: 1\<close>.
\<close>

definition one_file :: fs where
  "one_file = \<lparr>fs_walk = (\<lambda>root.
       [\<lparr>wc_path = ''.'', wc_entry = Some \<lparr>de_isDir = True, de_info = Inr 493\<rparr>, wc_err = None\<rparr>,
        \<lparr>wc_path = ''f'', wc_entry = Some \<lparr>de_isDir = False, de_info = Inr 420\<rparr>, wc_err = None\<rparr>]),
     fs_readlink = (\<lambda>p. Inl ''not a link''), fs_read = (\<lambda>p. Inr ''text''), fs_dir_read = (\<lambda>r p. Inr ''text'')\<rparr>"

definition limited :: "int \<Rightarrow> From" where
  "limited n = NewDir\<lparr>fr_path := ''d'', fr_maxFiles := n\<rparr>"

lemma max_files_counts_directories:
  "FromFilesystem toy_tar one_file (limited 1) toy_attributes
     = Inl (Msg ''number of files exceeds max from layer config: 1'')"
  by code_simp


text \<open>Every relative link target counts as inside the tree, also one that leaves it.\<close>

lemma relative_links_accepted: "isWithinSourceTree ''../../etc/passwd'' src"
  by (simp add: isWithinSourceTree_def is_abs_def has_prefix_def)

end
