(* ===== verification/Layer_Build.thy ===== *)
theory Layer_Build
  imports Local_Dir
begin

text \<open>
  Layer builders (\<open>pkg/layers/layers.go\<close>). A builder is a function of the platform and of the file
  system it reads when it is invoked. \<open>new_matcher\<close> is \<open>patternmatcher.New\<close>, which is not under
  \<open>src/\<close>. A malformed \<open>containerPath\<close> ends the process (\<open>Exit\<close>).
\<close>

section \<open>Builders\<close>

type_synonym 'l builder = "Platform \<Rightarrow> fs \<Rightarrow> stop + 'l"

record 'l build_lib =
  bl_platforms :: platform_lib
  bl_tar :: "'l tar_lib"
  bl_new_matcher :: "string list \<Rightarrow> string + matcher"

text \<open>\<open>configure\<close> up to the closure it returns: the settings of the walk.\<close>

definition configure_from :: "'l build_lib \<Rightarrow> From \<Rightarrow> LocalDir \<Rightarrow> stop + From" where
  "configure_from B dir cfg =
     (let dir = dir\<lparr>fr_path := ld_path cfg\<rparr> in
      case (if ld_containerPath cfg \<noteq> ''''
            then (case NewPathMapperPrepend (ld_containerPath cfg) of
                    Inl e \<Rightarrow> Inl e
                  | Inr f \<Rightarrow> Inr (dir\<lparr>fr_containerPath := Some f\<rparr>))
            else Inr dir) of
        Inl e \<Rightarrow> Inl e
      | Inr dir \<Rightarrow>
       (case (if ld_ignore cfg \<noteq> []
              then (case bl_new_matcher B (ld_ignore cfg) of
                      Inl e \<Rightarrow> Inl (Err (Msg (''patternatcher from: '' @ go_list (ld_ignore cfg))))
                    | Inr m \<Rightarrow> Inr (dir\<lparr>fr_ignore := Some m\<rparr>))
              else Inr dir) of
          Inl e \<Rightarrow> Inl e
        | Inr dir \<Rightarrow>
            let dir = (if ld_maxFiles cfg > 0 then dir\<lparr>fr_maxFiles := ld_maxFiles cfg\<rparr> else dir) in
            if ld_maxSize cfg \<noteq> ''''
            then (case NewSize (ld_maxSize cfg) of
                    Inl e \<Rightarrow> Inl (Err e)
                  | Inr s \<Rightarrow> Inr (dir\<lparr>fr_maxSize := s\<rparr>))
            else Inr dir))"

definition configure :: "'l build_lib \<Rightarrow> From \<Rightarrow> LocalDir \<Rightarrow> LayerAttributes \<Rightarrow> stop + 'l builder" where
  "configure B dir cfg attributes =
     (case configure_from B dir cfg of
        Inl e \<Rightarrow> Inl e
      | Inr dir \<Rightarrow>
          Inr (\<lambda>platform F. case FromFilesystem (bl_tar B) F dir attributes of
                 Inl e \<Rightarrow> Inl (Err e) | Inr l \<Rightarrow> Inr l))"

definition newLocalFileBuilder :: "'l build_lib \<Rightarrow> LocalFile \<Rightarrow> LayerAttributes \<Rightarrow> stop + 'l builder" where
  "newLocalFileBuilder B lf attributes =
     Inr (\<lambda>platform F.
       let resolved = ResolveLocalFilePath (bl_platforms B) lf platform in
       if resolved = ''''
       then Inl (Err (Msg (''localFile: no path for platform '' @ pl_string (bl_platforms B) platform)))
       else
        (case configure B NewFile
                \<lparr>ld_path = resolved, ld_containerPath = lf_containerPath lf, ld_ignore = [],
                 ld_maxFiles = 0, ld_maxSize = lf_maxSize lf\<rparr> attributes of
           Inl e \<Rightarrow> Inl e
         | Inr inner \<Rightarrow> inner platform F))"

definition NewLayerBuilder :: "'l build_lib \<Rightarrow> Layer \<Rightarrow> stop + 'l builder" where
  "NewLayerBuilder B cfg =
     (if hasLocalFile cfg then
        (if ld_path (ly_localDir cfg) \<noteq> ''''
         then Inl (Err (Msg ''each layer item must have exactly one type, got localFile and localDir''))
         else newLocalFileBuilder B (ly_localFile cfg) (ly_attributes cfg))
      else if ld_path (ly_localDir cfg) \<noteq> ''''
      then configure B NewDir (ly_localDir cfg) (ly_attributes cfg)
      else Inl (Err (Msg ''no layer builder config found'')))"

fun build_from :: "'l build_lib \<Rightarrow> nat \<Rightarrow> 'l builder list \<Rightarrow> Platform \<Rightarrow> fs \<Rightarrow> stop + 'l list" where
  "build_from B i [] platform F = Inr []"
| "build_from B i (b # bs) platform F =
     (case b platform F of
        Inl (Err e) \<Rightarrow> Inl (Err (Wrap (''layer '' @ itoa (int i) @ '' for ''
                          @ pl_string (bl_platforms B) platform) e))
      | Inl (Exit m) \<Rightarrow> Inl (Exit m)
      | Inr layer \<Rightarrow>
          (case build_from B (Suc i) bs platform F of Inl e \<Rightarrow> Inl e | Inr ls \<Rightarrow> Inr (layer # ls)))"

definition Build :: "'l build_lib \<Rightarrow> 'l builder list \<Rightarrow> Platform \<Rightarrow> fs \<Rightarrow> stop + 'l list" where
  "Build B builders platform F = build_from B 0 builders platform F"

text \<open>\<open>RunLayers\<close> of \<open>pkg/contain/libcontain.go\<close>.\<close>

fun RunLayers :: "'l build_lib \<Rightarrow> Layer list \<Rightarrow> stop + 'l builder list" where
  "RunLayers B [] = Inr []"
| "RunLayers B (cfg # cfgs) =
     (case NewLayerBuilder B cfg of
        Inl e \<Rightarrow> Inl e
      | Inr b \<Rightarrow> (case RunLayers B cfgs of Inl e \<Rightarrow> Inl e | Inr bs \<Rightarrow> Inr (b # bs)))"

section \<open>What a builder reads\<close>

text \<open>Everything of a file system that a layer can depend on when its source is \<open>path\<close>.\<close>

definition agree_on :: "string \<Rightarrow> fs \<Rightarrow> fs \<Rightarrow> bool" where
  "agree_on path F G \<longleftrightarrow> fs_walk F path = fs_walk G path \<and> fs_read F path = fs_read G path
     \<and> fs_dir_read F path = fs_dir_read G path
     \<and> (\<forall>x. fs_readlink F (path_join [path, x]) = fs_readlink G (path_join [path, x]))"

lemma FromFilesystem_agree:
  assumes "agree_on (fr_path dir) F G"
  shows "FromFilesystem TL F dir a = FromFilesystem TL G dir a"
proof -
  have "add_symlink F dir path topath m s = add_symlink G dir path topath m s" for path topath m s
    using assms by (simp add: add_symlink_def agree_on_def)
  then have "add_call F r dir cp ign = add_call G r dir cp ign" for r cp ign
    by (simp only: add_call_def fun_eq_iff simp_thms)
  moreover have "fs_dir_read F (fr_path dir) = fs_dir_read G (fr_path dir)"
      "SingleFileFS_ReadFile F (fr_path dir) = SingleFileFS_ReadFile G (fr_path dir)"
      "fs_walk F (fr_path dir) = fs_walk G (fr_path dir)"
    using assms by (auto simp: agree_on_def SingleFileFS_ReadFile_def fun_eq_iff)
  ultimately have "walk_files F dir cp ign = walk_files G dir cp ign" for cp ign
    by (simp only: walk_files_def)
  then show ?thesis by (simp add: FromFilesystem_def FromFilesystemWithMetadata_def)
qed

lemma configure_from_path: "configure_from B dir cfg = Inr dir' \<Longrightarrow> fr_path dir' = ld_path cfg"
  by (auto simp: configure_from_def Let_def split: sum.splits if_splits)

lemma configure_agree:
  "configure B dir cfg a = Inr b \<Longrightarrow> agree_on (ld_path cfg) F G \<Longrightarrow> b p F = b p G"
  by (auto simp: configure_def dest!: configure_from_path split: sum.splits)
    (simp_all add: FromFilesystem_agree)

text \<open>
  C24: each layer is read from the source that the config names for the platform, and from nowhere
  else: a builder gives the same layer on two file systems that agree on that source. For a
  \<open>localFile\<close> the source is the resolved path of this very platform.
\<close>

theorem layer_source:
  assumes "NewLayerBuilder B cfg = Inr b"
    and "agree_on (if hasLocalFile cfg then ResolveLocalFilePath (bl_platforms B) (ly_localFile cfg) p
                   else ld_path (ly_localDir cfg)) F G"
  shows "b p F = b p G"
proof (cases "hasLocalFile cfg")
  case True
  with assms(1) have "newLocalFileBuilder B (ly_localFile cfg) (ly_attributes cfg) = Inr b"
    by (auto simp: NewLayerBuilder_def split: if_splits)
  then show ?thesis
    using assms(2) True configure_agree
    by (force simp: newLocalFileBuilder_def Let_def split: sum.splits)
next
  case False
  with assms(1) have "configure B NewDir (ly_localDir cfg) (ly_attributes cfg) = Inr b"
    by (auto simp: NewLayerBuilder_def split: if_splits)
  from configure_agree [OF this] assms(2) False show ?thesis by simp
qed

definition toy_build :: "(tar_header \<times> bytes) list build_lib" where
  "toy_build = \<lparr>bl_platforms = toy_platforms, bl_tar = toy_tar,
     bl_new_matcher = (\<lambda>ps. Inr (\<lambda>path. Inr (path \<in> set ps)))\<rparr>"

text \<open>A file system with the files \<open>a\<close> and \<open>b\<close>, and one in which \<open>b\<close> changed.\<close>

definition two_files :: "bytes \<Rightarrow> fs" where
  "two_files b = \<lparr>fs_walk = (\<lambda>root. []), fs_readlink = (\<lambda>p. Inl ''no link''),
     fs_read = (\<lambda>p. if p = ''a'' then Inr ''A'' else if p = ''b'' then Inr b else Inl ''missing''),
     fs_dir_read = (\<lambda>r p. Inl ''missing'')\<rparr>"

definition per_platform :: Layer where
  "per_platform = plain_layer \<lparr>lf_path = '''', lf_pathPerPlatform = [(''linux/amd64'', ''a''), (''linux/arm64'', ''b'')],
     lf_containerPath = ''/r'', lf_maxSize = ''''\<rparr> ''''"

theorem layer_source_witness:
  "\<exists>b. NewLayerBuilder toy_build per_platform = Inr b
     \<and> b (plat ''linux'' ''amd64'' '''') (two_files ''B'') = b (plat ''linux'' ''amd64'' '''') (two_files ''C'')"
proof -
  obtain b where b: "NewLayerBuilder toy_build per_platform = Inr b"
    by (auto simp: NewLayerBuilder_def per_platform_def plain_layer_def hasLocalFile_def newLocalFileBuilder_def)
  have "ResolveLocalFilePath toy_platforms (ly_localFile per_platform) (plat ''linux'' ''amd64'' '''') = ''a''"
    by code_simp
  moreover have "hasLocalFile per_platform" by code_simp
  ultimately have "agree_on (if hasLocalFile per_platform
      then ResolveLocalFilePath (bl_platforms toy_build) (ly_localFile per_platform) (plat ''linux'' ''amd64'' '''')
      else ld_path (ly_localDir per_platform)) (two_files ''B'') (two_files ''C'')"
    by (simp add: toy_build_def agree_on_def two_files_def)
  with layer_source [OF b] b show ?thesis by blast
qed

section \<open>Building all layers\<close>

lemma build_from_Inr:
  "build_from B i bs p F = Inr ls \<longleftrightarrow> list_all2 (\<lambda>b l. b p F = Inr l) bs ls"
proof (induction bs arbitrary: i ls)
  case (Cons b bs)
  show ?case
    by (cases ls; cases "b p F"; cases "build_from B (Suc i) bs p F")
      (auto simp: Cons.IH [of "Suc i", symmetric] split: stop.splits)
qed (case_tac ls; simp)

lemma RunLayers_Inr:
  "RunLayers B cfgs = Inr bs \<longleftrightarrow> list_all2 (\<lambda>cfg b. NewLayerBuilder B cfg = Inr b) cfgs bs"
proof (induction cfgs arbitrary: bs)
  case (Cons cfg cfgs)
  show ?case
    by (cases bs; cases "NewLayerBuilder B cfg"; cases "RunLayers B cfgs") (auto simp: Cons.IH [symmetric])
qed (case_tac bs; simp)

section \<open>The entries of a layer are well-formed\<close>

text \<open>A name that \<open>fs.WalkDir\<close> hands to its function: the root, or plain names with slashes between them.\<close>

definition walk_name :: "string \<Rightarrow> bool" where
  "walk_name p \<longleftrightarrow> p = ''.'' \<or> list_all plain_seg (split_on CHR ''/'' p)"

text \<open>A name in the layer: the container path, or plain names below it; as walked when there is none.\<close>

definition below :: "string \<Rightarrow> string \<Rightarrow> bool" where
  "below root name \<longleftrightarrow>
     (if root = '''' then walk_name name
      else name = root \<or> has_prefix name (root @ ''/'') \<and> list_all plain_seg (split_on CHR ''/'' (drop (length root + 1) name)))"

definition entry_typed :: "string \<Rightarrow> tar_header \<times> bytes \<Rightarrow> bool" where
  "entry_typed root e \<longleftrightarrow>
     below root (th_name (fst e)) \<and> th_size (fst e) = int (length (snd e))
     \<and> (th_typeflag (fst e) = TypeReg \<or> snd e = [])
     \<and> (th_typeflag (fst e) = TypeSymlink \<or> th_linkname (fst e) = '''') \<and> \<not> is_abs (th_linkname (fst e))
     \<and> th_uid (fst e) \<in> {0..<2 ^ 16} \<and> th_gid (fst e) \<in> {0..<2 ^ 16} \<and> th_modTime (fst e) = 0"

definition file_typed :: "string \<Rightarrow> FileInfo \<Rightarrow> bool" where
  "file_typed root f \<longleftrightarrow> below root (fi_path f) \<and> (fi_isSymlink f \<longrightarrow> \<not> is_abs (fi_linkTarget f))"

lemma below_prepend: "root \<noteq> '''' \<Longrightarrow> walk_name p \<Longrightarrow> below root (prepend_path root p)"
  by (auto simp: below_def walk_name_def prepend_path_def has_prefix_def)

lemma tar_item_typed:
  assumes "file_typed root f"
  shows "entry_typed root (tar_item a f)"
proof -
  have "uint w < 2 ^ 16" for w :: "16 word" using uint_bounded [of w] by simp
  with assms show ?thesis
    by (auto simp: entry_typed_def file_typed_def tar_item_def file_header_def regular_def SOURCE_DATE_EPOCH_def
        is_abs_def has_prefix_def)
qed

lemma add_call_typed:
  assumes "add_call F readFile dir cp ign call s = (r, s')" and "below root (cp (wc_path call))"
    and "list_all (file_typed root) (ws_files s)"
  shows "list_all (file_typed root) (ws_files s')"
  using assms
  by (auto simp: add_call_def add_dir_def add_file_def add_symlink_def isWithinSourceTree_def file_typed_def Let_def
      split: option.splits sum.splits bool.splits if_splits)

lemma walk_files_typed:
  assumes "walk_files F dir cp ign = (r, s)"
    and "\<And>p. walk_name p \<Longrightarrow> below root (cp p)"
    and "fr_isFile dir \<or> list_all (\<lambda>c. walk_name (wc_path c)) (fs_walk F (fr_path dir))"
  shows "list_all (file_typed root) (ws_files s)"
proof (cases "fr_isFile dir")
  case True
  have "walk_name ''.''" by (simp add: walk_name_def)
  with assms(1,2) True show ?thesis
    using add_call_typed [where root = root] by (fastforce simp: walk_files_def)
next
  case False
  let ?s = "\<lparr>ws_bytes = 0, ws_files = [], ws_seen = []\<rparr>"
  let ?add = "add_call F (fs_dir_read F (fr_path dir)) dir cp ign"
  have run: "for_each ?add (fs_walk F (fr_path dir)) ?s = (r, s)"
    using assms(1) False by (simp add: walk_files_def)
  show ?thesis
  proof (rule for_each_invariant [where I = "\<lambda>s. list_all (file_typed root) (ws_files s)", OF _ _ run])
    show "list_all (file_typed root) (ws_files s2)"
      if "c \<in> set (fs_walk F (fr_path dir))" "list_all (file_typed root) (ws_files s1)" "?add c s1 = (q, s2)" for c s1 q s2
      using that(1) assms(2,3) False add_call_typed [OF that(3) _ that(2)] by (simp add: list_all_iff)
  qed simp
qed

lemma FromFilesystem_typed:
  assumes "FromFilesystem TL F dir a = Inr l"
    and "fr_containerPath dir = (if root = '''' then None else Some (prepend_path root))"
    and "fr_isFile dir \<or> list_all (\<lambda>c. walk_name (wc_path c)) (fs_walk F (fr_path dir))"
  shows "\<exists>entries. tl_layer TL entries = Inr l \<and> list_all (entry_typed root) entries"
proof -
  let ?cp = "case fr_containerPath dir of Some f \<Rightarrow> f | None \<Rightarrow> NewPathMapperAsIs"
  obtain ign s where walk: "walk_files F dir ?cp ign = (Inr (), s)"
    and l: "LayerFromFiles TL (ws_files s) a = Inr l"
    using assms(1)
    by (auto simp: FromFilesystem_def FromFilesystemWithMetadata_def Let_def split: if_splits prod.splits sum.splits)
  have "below root (?cp p)" if "walk_name p" for p
    using that assms(2) below_prepend by (auto simp: below_def NewPathMapperAsIs_def)
  from walk_files_typed [OF walk this assms(3)]
  have typed: "list_all (file_typed root) (sort_key fi_path (ws_files s))" by (simp add: list_all_iff)
  from l obtain entries where w: "write_tar TL a (sort_key fi_path (ws_files s)) = Inr entries"
    and "tl_layer TL entries = Inr l"
    by (auto simp: LayerFromFiles_def split: sum.splits)
  moreover from w have items: "entries = map (tar_item a) (sort_key fi_path (ws_files s))"
    by (simp add: write_tar_map split: option.splits)
  moreover from items typed have "list_all (entry_typed root) entries"
    by (simp add: list_all_iff tar_item_typed)
  ultimately show ?thesis by blast
qed

definition layer_root :: "Layer \<Rightarrow> string" where
  "layer_root cfg =
     (if hasLocalFile cfg then lf_containerPath (ly_localFile cfg) else ld_containerPath (ly_localDir cfg))"

lemma configure_from_settings:
  assumes "configure_from B dir cfg = Inr dir'"
  shows "fr_isFile dir' = fr_isFile dir"
    and "fr_containerPath dir' =
      (if ld_containerPath cfg = '''' then fr_containerPath dir else Some (prepend_path (ld_containerPath cfg)))"
  using assms unfolding configure_from_def NewPathMapperPrepend_def Let_def
  by (cases "ld_containerPath cfg = ''''"; cases "ld_ignore cfg = []"; cases "ld_maxSize cfg = ''''";
      fastforce split: sum.splits if_splits)+

lemma configure_typed:
  assumes "configure B dir cfg a = Inr b" and "b p F = Inr l" and "fr_containerPath dir = None"
    and "fr_isFile dir \<or> list_all (\<lambda>c. walk_name (wc_path c)) (fs_walk F (ld_path cfg))"
  shows "\<exists>entries. tl_layer (bl_tar B) entries = Inr l \<and> list_all (entry_typed (ld_containerPath cfg)) entries"
proof -
  obtain dir' where dir': "configure_from B dir cfg = Inr dir'" "FromFilesystem (bl_tar B) F dir' a = Inr l"
    using assms(1,2) by (auto simp: configure_def split: sum.splits)
  note set = configure_from_settings [OF dir'(1), unfolded assms(3)]
  from FromFilesystem_typed [OF dir'(2) set(2)] set(1) configure_from_path [OF dir'(1)] assms(4)
  show ?thesis by simp
qed

text \<open>
  C23: every entry of every layer is well-formed, whatever the file system holds. Its name is the container
  path of the config or lies below it by plain names, so that no entry climbs out of it; its size is that of
  its content, which only regular files have; only links have a target, and never an absolute one; ids
  are unsigned 16-bit numbers, and the time is the epoch. The names that the walk hands out are plain.
\<close>

theorem layer_entries_typed:
  assumes "NewLayerBuilder B cfg = Inr b" and "b p F = Inr l"
    and "list_all (\<lambda>c. walk_name (wc_path c)) (fs_walk F (ld_path (ly_localDir cfg)))"
  shows "\<exists>entries. tl_layer (bl_tar B) entries = Inr l \<and> list_all (entry_typed (layer_root cfg)) entries"
proof (cases "hasLocalFile cfg")
  case True
  with assms(1) have "newLocalFileBuilder B (ly_localFile cfg) (ly_attributes cfg) = Inr b"
    by (auto simp: NewLayerBuilder_def split: if_splits)
  with assms(2) obtain inner dcfg where "configure B NewFile dcfg (ly_attributes cfg) = Inr inner" "inner p F = Inr l"
    and "ld_containerPath dcfg = lf_containerPath (ly_localFile cfg)"
    by (fastforce simp: newLocalFileBuilder_def Let_def split: sum.splits if_splits)
  with configure_typed [of B NewFile dcfg] True show ?thesis by (simp add: layer_root_def NewFile_def)
next
  case False
  with assms(1) have "configure B NewDir (ly_localDir cfg) (ly_attributes cfg) = Inr b"
    by (auto simp: NewLayerBuilder_def split: if_splits)
  from configure_typed [OF this assms(2)] assms(3) False show ?thesis by (simp add: layer_root_def NewDir_def)
qed

definition dir_layer :: Layer where
  "dir_layer = (plain_layer \<lparr>lf_path = '''', lf_pathPerPlatform = [], lf_containerPath = '''', lf_maxSize = ''''\<rparr> '''')
     \<lparr>ly_localDir := \<lparr>ld_path = ''d'', ld_containerPath = ''/app'', ld_ignore = [], ld_maxFiles = 0, ld_maxSize = ''''\<rparr>\<rparr>"

theorem layer_entries_typed_witness:
  "\<exists>b l. NewLayerBuilder toy_build dir_layer = Inr b \<and> b (plat ''linux'' ''amd64'' '''') one_file = Inr l
     \<and> map (th_name \<circ> fst) l = [''/app'', ''/app/f''] \<and> list_all (entry_typed ''/app'') l"
proof -
  let ?p = "plat ''linux'' ''amd64'' ''''"
  have ok: "case NewLayerBuilder toy_build dir_layer of Inl e \<Rightarrow> False | Inr b \<Rightarrow>
      (case b ?p one_file of Inl e \<Rightarrow> False | Inr l \<Rightarrow> map (th_name \<circ> fst) l = [''/app'', ''/app/f''])"
    by code_simp
  then obtain b l where b: "NewLayerBuilder toy_build dir_layer = Inr b" "b ?p one_file = Inr l"
      "map (th_name \<circ> fst) l = [''/app'', ''/app/f'']"
    by (auto split: sum.splits)
  have "list_all (\<lambda>c. walk_name (wc_path c)) (fs_walk one_file (ld_path (ly_localDir dir_layer)))"
    by code_simp
  from layer_entries_typed [OF b(1,2) this]
  have "list_all (entry_typed ''/app'') l"
    by (simp add: toy_build_def toy_tar_def dir_layer_def layer_root_def plain_layer_def hasLocalFile_def)
  with b show ?thesis by (intro exI conjI)
qed

text \<open>A container path that is itself not clean is taken as it stands: its entries can leave the root.\<close>

lemma unclean_container_path: "NewPathMapperPrepend ''/app/../..'' = Inr (prepend_path ''/app/../..'')"
  by (simp add: NewPathMapperPrepend_def has_prefix_def has_suffix_def)

end
