(* ===== verification/Image_Lib.thy ===== *)
theory Image_Lib
  imports Layer_Build Go_Regexp
begin

text \<open>
  What the build uses of go-containerregistry, which is not under \<open>src/\<close>: references, images and
  indexes of unknown types \<open>'img\<close> and \<open>'idx\<close> with their methods, the package \<open>mutate\<close>, and the package
  \<open>remote\<close>, whose calls read and change the unknown state \<open>'w\<close> of the network. The state of a build is
  that world together with the list of the remote operations so far, newest last. Also here:
  \<open>pkg/registry/registryconfig.go\<close> and \<open>pkg/annotate/annotate_baseref.go\<close>.
\<close>

section \<open>References, images, the remote\<close>

record reference =
  rf_string :: string      \<comment> \<open>\<open>String()\<close>\<close>
  rf_isDigest :: bool      \<comment> \<open>whether it is a \<open>name.Digest\<close>\<close>
  rf_registry :: string    \<comment> \<open>\<open>Context().RegistryStr()\<close>\<close>
  rf_repository :: string  \<comment> \<open>\<open>Context().RepositoryStr()\<close>\<close>
  rf_identifier :: string  \<comment> \<open>\<open>Identifier()\<close>, and \<open>DigestStr()\<close> of a digest\<close>

record image_config =
  ic_env :: "string list"
  ic_entrypoint :: "string list"
  ic_cmd :: "string list"
  ic_workingDir :: string
  ic_rest :: string  \<comment> \<open>the other fields, which the code hands through\<close>

record config_file =
  cff_config :: image_config
  cff_platform :: "Platform option"

record v1_manifest =
  mn_mediaType :: string
  mn_layers :: "v1_descriptor list"

record 'idx fetched =
  ft_mediaType :: string
  ft_manifest :: bytes
  ft_imageIndex :: "string + 'idx"

record index_manifest =
  im_mediaType :: string
  im_manifests :: "v1_descriptor list"

record 'img addendum =
  ad_add :: 'img
  ad_descriptor :: v1_descriptor

record RegistryConfig =
  rc_insecure :: bool  \<comment> \<open>anonymous access over plain HTTP\<close>

text \<open>
  A run of \<open>remote.Write\<close>: the errors of the updates it sends to the progress channel, its result,
  and whether the result reaches the error channel before the loop over the updates puts one there.
\<close>

record write_run =
  wr_updates :: "string option list"
  wr_err :: "string option"
  wr_first :: bool

text \<open>What \<open>remote.Put\<close> asks of its argument, and \<open>TaggableIndex\<close> and \<open>TaggableChild\<close> provide.\<close>

record taggable =
  tg_manifest :: bytes
  tg_digest :: Hash
  tg_mediaType :: string
  tg_size :: i64

record ('img, 'idx, 'l, 'w) ggcr =
  gg_parse_ref :: "string \<Rightarrow> string + reference"
  gg_digest_ref :: "reference \<Rightarrow> Hash \<Rightarrow> reference"  \<comment> \<open>\<open>ref.Digest(h.String())\<close>\<close>
  gg_dist_parse :: "string \<Rightarrow> string + (string \<times> string option)"
    \<comment> \<open>\<open>distribution/reference.Parse\<close>: its \<open>String()\<close> and, if it is a \<open>Named\<close>, its \<open>Name()\<close>\<close>
  gg_hash_string :: "Hash \<Rightarrow> string"
  gg_new_hash :: "string \<Rightarrow> string + Hash"
  \<comment> \<open>images\<close>
  gg_img_mediaType :: "'img \<Rightarrow> string + string"
  gg_img_config :: "'img \<Rightarrow> string + config_file"
  gg_img_manifest :: "'img \<Rightarrow> string + v1_manifest"
  gg_img_digest :: "'img \<Rightarrow> string + Hash"
  gg_img_configName :: "'img \<Rightarrow> string + Hash"
  gg_append_layers :: "'img \<Rightarrow> 'l list \<Rightarrow> string + 'img"
  gg_set_config :: "'img \<Rightarrow> image_config \<Rightarrow> string + 'img"
  gg_annotate :: "'img \<Rightarrow> (string \<times> string) list \<Rightarrow> 'img"
  \<comment> \<open>indexes\<close>
  gg_is_index :: "string \<Rightarrow> bool"
  gg_parse_manifest :: "bytes \<Rightarrow> string + v1_manifest"
  gg_idx_manifest :: "'idx \<Rightarrow> string + index_manifest"
  gg_idx_raw :: "'idx \<Rightarrow> string + bytes"
  gg_idx_digest :: "'idx \<Rightarrow> string + Hash"
  gg_idx_mediaType :: "'idx \<Rightarrow> string + string"
  gg_idx_size :: "'idx \<Rightarrow> string + i64"
  gg_remove_manifests :: "'idx \<Rightarrow> (v1_descriptor \<Rightarrow> bool) \<Rightarrow> 'idx"
  gg_append_manifests :: "'idx \<Rightarrow> 'img addendum list \<Rightarrow> 'idx option"
  gg_marshal_index :: "index_manifest \<Rightarrow> string + bytes"
  gg_marshal_indent :: "v1_manifest \<Rightarrow> string + bytes"
  gg_sha256 :: "bytes \<Rightarrow> string + (Hash \<times> i64)"
  \<comment> \<open>the remote\<close>
  gg_get :: "RegistryConfig \<Rightarrow> reference \<Rightarrow> 'w \<Rightarrow> (string + 'idx fetched) \<times> 'w"
  gg_image :: "RegistryConfig \<Rightarrow> reference \<Rightarrow> 'w \<Rightarrow> (string + 'img) \<times> 'w"
  gg_write :: "RegistryConfig \<Rightarrow> reference \<Rightarrow> 'img \<Rightarrow> 'w \<Rightarrow> write_run \<times> 'w"
  gg_put :: "RegistryConfig \<Rightarrow> reference \<Rightarrow> taggable \<Rightarrow> 'w \<Rightarrow> string option \<times> 'w"
  gg_acquire :: "'w \<Rightarrow> string option \<times> 'w"  \<comment> \<open>\<open>PushLock.Acquire\<close>\<close>
  gg_release :: "'w \<Rightarrow> 'w"  \<comment> \<open>the function \<open>Acquire\<close> returns\<close>
  gg_iter :: "'w \<Rightarrow> nat \<Rightarrow> (string \<times> string) list \<Rightarrow> (string \<times> string) list"
    \<comment> \<open>the order in which Go ranges over a map\<close>

section \<open>The state of a build\<close>

datatype 'img event =
    EvGet reference
  | EvImage reference
  | EvWrite reference 'img   \<comment> \<open>\<open>remote.Write\<close> was called\<close>
  | EvPut reference taggable \<comment> \<open>\<open>remote.Put\<close> was called\<close>
  | EvAcquire  \<comment> \<open>\<open>Acquire\<close> returned with the lock\<close>
  | EvRelease
  | EvFile string  \<comment> \<open>an output was written to this path, or its writing failed\<close>

record ('img, 'w) bst =
  bs_world :: 'w
  bs_events :: "'img event list"

type_synonym ('a, 'img, 'w) bres = "(stop + 'a) \<times> ('img, 'w) bst"

definition emit :: "'img event \<Rightarrow> 'w \<Rightarrow> ('img, 'w) bst \<Rightarrow> ('img, 'w) bst" where
  "emit e w s = s\<lparr>bs_world := w, bs_events := bs_events s @ [e]\<rparr>"

text \<open>Events that change a registry.\<close>

fun publishes :: "'img event \<Rightarrow> bool" where
  "publishes (EvWrite r i) = True"
| "publishes (EvPut r b) = True"
| "publishes _ = False"

section \<open>Registry options (registryconfig.go)\<close>

text \<open>\<open>^((localhost|127\.0\.0\.1)(:\d+)?|[^/]+\.local)/\<close>, unanchored at its end.\<close>

definition insecureAccessRefs :: rx where
  "insecureAccessRefs =
     RSeq (RAlt (RSeq (RAlt (rstr ''localhost'') (rstr ''127.0.0.1''))
                      (ropt (RSeq (rchar (CHR '':'')) (rplus (RCls is_digit)))))
                (RSeq (rplus (RCls (\<lambda>c. c \<noteq> CHR ''/''))) (rstr ''.local'')))
          (RSeq (rchar (CHR ''/'')) (RStar (RCls (\<lambda>c. True))))"

definition registry_New :: "ContainConfig \<Rightarrow> go_err + RegistryConfig" where
  "registry_New config = Inr \<lparr>rc_insecure = rmatch insecureAccessRefs (cf_base config)\<rparr>"

section \<open>Annotations of the base image (annotate\_baseref.go)\<close>

definition AnnotationBaseImageDigest :: string where
  "AnnotationBaseImageDigest = ''org.opencontainers.image.base.digest''"

definition AnnotationBaseImageName :: string where
  "AnnotationBaseImageName = ''org.opencontainers.image.base.name''"

text \<open>\<open>NewBaseref\<close>: the annotations its annotator adds.\<close>

definition NewBaseref :: "('img, 'idx, 'l, 'w) ggcr \<Rightarrow> reference \<Rightarrow> Hash \<Rightarrow> (string \<times> string) list" where
  "NewBaseref G baseRef baseDigest =
     [(AnnotationBaseImageDigest, gg_hash_string G baseDigest),
      (AnnotationBaseImageName, ''/'' @ rf_repository baseRef @ '':'' @ rf_identifier baseRef)]"

text \<open>
  \<open>NewBaseImageAnnotations\<close>: the annotations its annotator adds; \<open>override\<close> is the value of the
  environment variable.
\<close>

definition base_name :: "string \<Rightarrow> string \<Rightarrow> string" where
  "base_name override base =
     (let baseName = (case index_of base ''@'' of
            None \<Rightarrow> '''' | Some at \<Rightarrow> if at > 0 then take at base else '''') in
      if override \<noteq> '''' \<and> baseName \<noteq> ''''
      then (case index_of baseName ''/'' of
              None \<Rightarrow> baseName
            | Some slash \<Rightarrow> if slash > 0 then override @ drop slash baseName else baseName)
      else baseName)"

definition NewBaseImageAnnotations ::
  "('img, 'idx, 'l, 'w) ggcr \<Rightarrow> string \<Rightarrow> string \<Rightarrow> go_err + (string \<times> string) list" where
  "NewBaseImageAnnotations G override base =
     (case gg_parse_ref G base of
        Inl e \<Rightarrow> Inl (Msg e)
      | Inr ref \<Rightarrow>
          (if \<not> rf_isDigest ref then Inl (Msg (''base reference did not parse as digest: '' @ base))
           else
            let baseName = base_name override base in
            Inr ((AnnotationBaseImageDigest, rf_identifier ref)
                 # (if baseName \<noteq> '''' then [(AnnotationBaseImageName, baseName)] else []))))"

lemma index_of_append_char: "c \<notin> set a \<Longrightarrow> index_of (a @ c # b) [c] = Some (length a)"
  by (induction a) (auto simp: has_prefix_def)

text \<open>The name annotation is what stands before the \<open>@\<close>.\<close>

lemma base_name_plain:
  assumes "CHR ''@'' \<notin> set nm" and "nm \<noteq> ''''"
  shows "base_name '''' (nm @ ''@'' @ d) = nm"
  using assms index_of_append_char [of "CHR ''@''" nm d] by (simp add: base_name_def)

end
