(* ===== verification/Toy_Registry.thy ===== *)
theory Toy_Registry
  imports Image_Lib
begin

text \<open>
  A concrete instance of \<open>ggcr\<close> for the witnesses: an image is its config, its platform, the
  descriptors of its layers and its annotations; an index is its manifests; the registry holds one
  base index with images for amd64 and arm64, an attestation and an entry without platform, and takes
  every push. Nothing but witnesses mentions it.
\<close>

record toy_img =
  ty_config :: image_config
  ty_platform :: "Platform option"
  ty_layers :: "v1_descriptor list"
  ty_annotations :: "(string \<times> string) list"

type_synonym toy_idx = "v1_descriptor list"
type_synonym toy_layer = "(tar_header \<times> bytes) list"

definition toy_hash :: "string \<Rightarrow> Hash" where
  "toy_hash h = \<lparr>hs_algorithm = ''sha256'', hs_hex = h\<rparr>"

definition toy_desc :: "string \<Rightarrow> string \<Rightarrow> Platform option \<Rightarrow> (string \<times> string) list option \<Rightarrow> v1_descriptor" where
  "toy_desc mt h p a = \<lparr>vd_mediaType = mt, vd_size = 7, vd_digest = toy_hash h, vd_platform = p, vd_annotations = a\<rparr>"

definition toy_base :: toy_idx where
  "toy_base =
     [toy_desc OCIManifestSchema1 ''a1'' (Some (plat ''linux'' ''amd64'' '''')) None,
      toy_desc OCIManifestSchema1 ''a2'' (Some (plat ''linux'' ''arm64'' ''v8'')) None,
      toy_desc OCIManifestSchema1 ''a3'' (Some (plat ''unknown'' ''unknown'' ''''))
        (Some [(ReferenceTypeAnnotation, ReferenceTypeAttestation)]),
      toy_desc OCIManifestSchema1 ''a4'' None None]"

definition toy_parse_ref :: "string \<Rightarrow> string + reference" where
  "toy_parse_ref s =
     (if s = '''' then Inl ''could not parse reference'' else
      Inr \<lparr>rf_string = s, rf_isDigest = (CHR ''@'' \<in> set s), rf_registry = ''r.example'', rf_repository = ''app'',
           rf_identifier = (if CHR ''@'' \<in> set s then tl (dropWhile (\<lambda>c. c \<noteq> CHR ''@'') s)
                            else tl (dropWhile (\<lambda>c. c \<noteq> CHR '':'') s))\<rparr>)"

definition toy_hash_string :: "Hash \<Rightarrow> string" where
  "toy_hash_string h = hs_algorithm h @ '':'' @ hs_hex h"

definition toy_new_hash :: "string \<Rightarrow> string + Hash" where
  "toy_new_hash s =
     (if CHR '':'' \<in> set s
      then Inr \<lparr>hs_algorithm = takeWhile (\<lambda>c. c \<noteq> CHR '':'') s, hs_hex = tl (dropWhile (\<lambda>c. c \<noteq> CHR '':'') s)\<rparr>
      else Inl ''cannot parse hash'')"

definition toy_image_config :: image_config where
  "toy_image_config = \<lparr>ic_env = [''PATH=/bin''], ic_entrypoint = [], ic_cmd = [''sh''], ic_workingDir = '''', ic_rest = ''''\<rparr>"

definition toy_ggcr :: "(toy_img, toy_idx, toy_layer, nat) ggcr" where
  "toy_ggcr =
     \<lparr>gg_parse_ref = toy_parse_ref,
      gg_digest_ref = (\<lambda>r h. r\<lparr>rf_string := rf_repository r @ ''@'' @ toy_hash_string h, rf_isDigest := True,
         rf_identifier := toy_hash_string h\<rparr>),
      gg_dist_parse = (\<lambda>s. Inr (s, Some (takeWhile (\<lambda>c. c \<noteq> CHR '':'') s))),
      gg_hash_string = toy_hash_string,
      gg_new_hash = toy_new_hash,
      gg_img_mediaType = (\<lambda>i. Inr OCIManifestSchema1),
      gg_img_config = (\<lambda>i. Inr \<lparr>cff_config = ty_config i, cff_platform = ty_platform i\<rparr>),
      gg_img_manifest = (\<lambda>i. Inr \<lparr>mn_mediaType = OCIManifestSchema1, mn_layers = ty_layers i\<rparr>),
      gg_img_digest = (\<lambda>i. Inr (toy_hash (concat (ic_env (ty_config i)) @ concat (map (hs_hex \<circ> vd_digest) (ty_layers i))))),
      gg_img_configName = (\<lambda>i. Inr (toy_hash ''c'')),
      gg_append_layers = (\<lambda>i ls. Inr (i\<lparr>ty_layers := ty_layers i @ map (\<lambda>l. toy_desc ''layer''
         (concat (map snd l)) None None) ls\<rparr>)),
      gg_set_config = (\<lambda>i c. Inr (i\<lparr>ty_config := c\<rparr>)),
      gg_annotate = (\<lambda>i a. i\<lparr>ty_annotations := ty_annotations i @ a\<rparr>),
      gg_is_index = (\<lambda>mt. mt = OCIImageIndex),
      gg_parse_manifest = (\<lambda>b. Inr \<lparr>mn_mediaType = OCIManifestSchema1, mn_layers = []\<rparr>),
      gg_idx_manifest = (\<lambda>x. Inr \<lparr>im_mediaType = OCIImageIndex, im_manifests = x\<rparr>),
      gg_idx_raw = (\<lambda>x. Inr ''raw''),
      gg_idx_digest = (\<lambda>x. Inr (toy_hash ''ix'')),
      gg_idx_mediaType = (\<lambda>x. Inr OCIImageIndex),
      gg_idx_size = (\<lambda>x. Inr 3),
      gg_remove_manifests = (\<lambda>x p. filter (\<lambda>d. \<not> p d) x),
      gg_append_manifests = (\<lambda>x as. Some (x @ map ad_descriptor as)),
      gg_marshal_index = (\<lambda>m. Inr (concat (map (hs_hex \<circ> vd_digest) (im_manifests m)))),
      gg_marshal_indent = (\<lambda>m. Inr ''man''),
      gg_sha256 = (\<lambda>b. Inr (toy_hash b, of_nat (length b))),
      gg_get = (\<lambda>c r w. (Inr \<lparr>ft_mediaType = (if rf_identifier r = ''sha256:b'' then OCIImageIndex else OCIManifestSchema1),
         ft_manifest = ''man'', ft_imageIndex = Inr toy_base\<rparr>, Suc w)),
      gg_image = (\<lambda>c r w. (Inr \<lparr>ty_config = toy_image_config, ty_platform = Some (plat ''linux'' ''amd64'' ''''),
         ty_layers = [toy_desc ''layer'' ''base'' None None], ty_annotations = []\<rparr>, Suc w)),
      gg_write = (\<lambda>c r i w. (\<lparr>wr_updates = [None], wr_err = None, wr_first = False\<rparr>, Suc w)),
      gg_put = (\<lambda>c r t w. (None, Suc w)),
      gg_acquire = (\<lambda>w. (None, Suc w)),
      gg_release = Suc,
      gg_iter = (\<lambda>w n m. m)\<rparr>"

definition toy_start :: "(toy_img, nat) bst" where
  "toy_start = \<lparr>bs_world = 0, bs_events = []\<rparr>"

end
