(* ===== verification/Pushed_Artifact.thy ===== *)
theory Pushed_Artifact
  imports Toy_Registry "HOL-Library.AList"
begin

text \<open>
  The description of a result (\<open>pkg/pushed/artifact.go\<close>, \<open>build_output.go\<close>, \<open>metadata.go\<close>,
  \<open>build_trace.go\<close>). JSON text is not modelled: \<open>MarshalJSON\<close> gives the value that is encoded and
  \<open>UnmarshalJSON\<close> takes the value that was decoded. A nil pointer that the code dereferences ends the
  process (\<open>Exit\<close>), as does a failed type assertion or an index out of range.
\<close>

section \<open>Artifacts (artifact.go)\<close>

record ArtifactOutput =
  ao_path :: string
  ao_format :: string

record Artifact =
  af_imageName :: string
  af_tagRef :: string
  af_mediaType :: string
  af_platforms :: "Platform list"
  af_baseRef :: string
  af_output :: "ArtifactOutput option"
  af_reference :: "reference option"
  af_hash :: Hash
  af_configHash :: Hash

record ArtifactHttp =
  ah_host :: string
  ah_repository :: string
  ah_tag :: string
  ah_hash :: Hash

definition artifact_Http :: "Artifact \<Rightarrow> stop + ArtifactHttp" where
  "artifact_Http a =
     (case af_reference a of
        None \<Rightarrow> Inl (Exit ''nil pointer dereference'')
      | Some r \<Rightarrow> Inr \<lparr>ah_host = rf_registry r, ah_repository = rf_repository r,
                      ah_tag = rf_identifier r, ah_hash = af_hash a\<rparr>)"

definition ConfigDigest :: "('img, 'idx, 'l, 'w) ggcr \<Rightarrow> Artifact \<Rightarrow> string" where
  "ConfigDigest G a = gg_hash_string G (af_configHash a)"

definition newRef :: "('img, 'idx, 'l, 'w) ggcr \<Rightarrow> string \<Rightarrow> Hash \<Rightarrow> stop + Artifact" where
  "newRef G tagRef h =
     (case gg_dist_parse G (tagRef @ ''@'' @ gg_hash_string G h) of
        Inl e \<Rightarrow> Inl (Err (Msg e))
      | Inr (str, None) \<Rightarrow> Inl (Exit ''interface conversion'')
      | Inr (str, Some nm) \<Rightarrow>
          (case gg_parse_ref G tagRef of
             Inl e \<Rightarrow> Inl (Err (Msg e))
           | Inr r \<Rightarrow>
               Inr \<lparr>af_imageName = nm, af_tagRef = str, af_mediaType = '''', af_platforms = [],
                    af_baseRef = '''', af_output = None, af_reference = Some r, af_hash = h,
                    af_configHash = zero_hash\<rparr>))"

definition NewSingleImage ::
  "('img, 'idx, 'l, 'w) ggcr \<Rightarrow> string \<Rightarrow> Hash \<Rightarrow> 'img \<Rightarrow> Platform option \<Rightarrow> string \<Rightarrow> stop + Artifact" where
  "NewSingleImage G tagRef digest img platform baseRef =
     (if baseRef = '''' then Inl (Err (Msg ''baseRef is required''))
      else case newRef G tagRef digest of
        Inl e \<Rightarrow> Inl e
      | Inr a \<Rightarrow>
          let configHash = (case gg_img_configName G img of Inl e \<Rightarrow> zero_hash | Inr h \<Rightarrow> h) in
          (case gg_img_manifest G img of
             Inl e \<Rightarrow> Inl (Exit ''nil pointer dereference'')
           | Inr manifest \<Rightarrow>
               (case platform of
                  None \<Rightarrow> Inl (Exit ''nil pointer dereference'')
                | Some p \<Rightarrow>
                    Inr (a\<lparr>af_configHash := configHash, af_mediaType := mn_mediaType manifest,
                           af_platforms := [p], af_baseRef := baseRef\<rparr>))))"

definition NewIndexImage ::
  "('img, 'idx, 'l, 'w) ggcr \<Rightarrow> platform_lib \<Rightarrow> string \<Rightarrow> Hash \<Rightarrow> 'idx \<Rightarrow> string \<Rightarrow> stop + Artifact" where
  "NewIndexImage G PL tagRef digest idx baseRef =
     (if baseRef = '''' then Inl (Err (Msg ''baseRef is required''))
      else case newRef G tagRef digest of
        Inl e \<Rightarrow> Inl e
      | Inr a \<Rightarrow>
          (case gg_idx_manifest G idx of
             Inl e \<Rightarrow> Inl (Exit ''nil pointer dereference'')
           | Inr manifest \<Rightarrow>
               Inr (a\<lparr>af_mediaType := im_mediaType manifest,
                      af_platforms := platformsFromIndexManifest PL (im_manifests manifest),
                      af_baseRef := baseRef\<rparr>)))"

section \<open>JSON of an artifact\<close>

definition opt_field :: "string \<Rightarrow> bool \<Rightarrow> json \<Rightarrow> (string \<times> json) list" where
  "opt_field k present v = (if present then [(k, v)] else [])"

definition MarshalJSON :: "platform_lib \<Rightarrow> Artifact \<Rightarrow> json" where
  "MarshalJSON PL a =
     JObj ([(''imageName'', JStr (af_imageName a)), (''tag'', JStr (af_tagRef a)),
            (''mediaType'', JStr (af_mediaType a))]
       @ opt_field ''base'' (af_baseRef a \<noteq> '''') (JStr (af_baseRef a))
       @ (case af_output a of
            None \<Rightarrow> []
          | Some out \<Rightarrow> [(''output'', JObj [(''path'', JStr (ao_path out)), (''format'', JStr (ao_format out))])])
       @ [(''platforms'', JArr (map (JStr \<circ> pl_string PL) (af_platforms a)))])"

text \<open>
  Decoding into a Go string, a slice of strings and a struct: an absent or null field is the zero
  value, a value of another type is an error.
\<close>

definition get_field :: "(string \<times> json) list \<Rightarrow> string \<Rightarrow> json" where
  "get_field kvs k = (case map_of kvs k of None \<Rightarrow> JNull | Some v \<Rightarrow> v)"

fun as_string :: "json \<Rightarrow> go_err + string" where
  "as_string JNull = Inr ''''"
| "as_string (JStr s) = Inr s"
| "as_string _ = Inl (Msg ''json: cannot unmarshal into Go value of type string'')"

fun as_strings :: "json list \<Rightarrow> go_err + string list" where
  "as_strings [] = Inr []"
| "as_strings (v # vs) =
     (case as_string v of
        Inl e \<Rightarrow> Inl e
      | Inr s \<Rightarrow> (case as_strings vs of Inl e \<Rightarrow> Inl e | Inr ss \<Rightarrow> Inr (s # ss)))"

fun as_list :: "json \<Rightarrow> go_err + string list" where
  "as_list JNull = Inr []"
| "as_list (JArr vs) = as_strings vs"
| "as_list _ = Inl (Msg ''json: cannot unmarshal into Go value of type []string'')"

fun as_output :: "json \<Rightarrow> go_err + ArtifactOutput option" where
  "as_output JNull = Inr None"
| "as_output (JObj kvs) =
     (case as_string (get_field kvs ''path'') of
        Inl e \<Rightarrow> Inl e
      | Inr p \<Rightarrow>
          (case as_string (get_field kvs ''format'') of
             Inl e \<Rightarrow> Inl e
           | Inr f \<Rightarrow> Inr (Some \<lparr>ao_path = p, ao_format = f\<rparr>)))"
| "as_output _ = Inl (Msg ''json: cannot unmarshal into Go value of type pushed.ArtifactOutput'')"

text \<open>The position of the last \<open>@\<close>, and what the code makes of the reference.\<close>

definition split_ref :: "string \<Rightarrow> string \<times> string" where
  "split_ref tagRef =
     (case last_index_of tagRef (CHR ''@'') of
        None \<Rightarrow> (tagRef, '''')
      | Some at \<Rightarrow> (take at tagRef, drop (Suc at) tagRef))"

definition restore_private :: "('img, 'idx, 'l, 'w) ggcr \<Rightarrow> Artifact \<Rightarrow> Artifact" where
  "restore_private G a =
     (case split_ref (af_tagRef a) of (base, digestStr) \<Rightarrow>
       let a = (if digestStr \<noteq> ''''
                then (case gg_new_hash G digestStr of Inl e \<Rightarrow> a | Inr h \<Rightarrow> a\<lparr>af_hash := h\<rparr>) else a)
       in case gg_parse_ref G base of Inl e \<Rightarrow> a | Inr r \<Rightarrow> a\<lparr>af_reference := Some r\<rparr>)"

definition UnmarshalJSON :: "('img, 'idx, 'l, 'w) ggcr \<Rightarrow> json \<Rightarrow> go_err + Artifact" where
  "UnmarshalJSON G v =
     (case v of
        JObj kvs \<Rightarrow>
         (case as_string (get_field kvs ''imageName'') of Inl e \<Rightarrow> Inl e | Inr nm \<Rightarrow>
         (case as_string (get_field kvs ''tag'') of Inl e \<Rightarrow> Inl e | Inr tag \<Rightarrow>
         (case as_string (get_field kvs ''mediaType'') of Inl e \<Rightarrow> Inl e | Inr mt \<Rightarrow>
         (case as_string (get_field kvs ''base'') of Inl e \<Rightarrow> Inl e | Inr base \<Rightarrow>
         (case as_output (get_field kvs ''output'') of Inl e \<Rightarrow> Inl e | Inr out \<Rightarrow>
         (case as_list (get_field kvs ''platforms'') of Inl e \<Rightarrow> Inl e | Inr ps \<Rightarrow>
            Inr (restore_private G
              \<lparr>af_imageName = nm, af_tagRef = tag, af_mediaType = mt,
               af_platforms = platformsFromStrings ps, af_baseRef = base, af_output = out,
               af_reference = None, af_hash = zero_hash, af_configHash = zero_hash\<rparr>)))))))
      | JNull \<Rightarrow> Inr (restore_private G
              \<lparr>af_imageName = '''', af_tagRef = '''', af_mediaType = '''', af_platforms = [], af_baseRef = '''',
               af_output = None, af_reference = None, af_hash = zero_hash, af_configHash = zero_hash\<rparr>)
      | _ \<Rightarrow> Inl (Msg ''json: cannot unmarshal into Go value of type pushed.artifactJSON''))"

section \<open>Build output (build\_output.go, metadata.go)\<close>

record buildctl_platform =
  bp_architecture :: string
  bp_os :: string

record ContainerImageDescriptor =
  ci_mediaType :: string
  ci_digest :: string
  ci_size :: int
  ci_platform :: buildctl_platform

record MetadataSimilarToBuildctlFile =
  mb_configDigest :: string
  mb_descriptor :: ContainerImageDescriptor
  mb_digest :: string
  mb_imageName :: string

record BuildTrace =
  bt_start :: "int option"
  bt_end :: "int option"
  bt_env :: "(string \<times> string) list"

record BuildOutput =
  bo_builds :: "Artifact list option"  \<comment> \<open>the Skaffold section, \<open>None\<close> for nil\<close>
  bo_turborepo :: "string option"
  bo_buildctl :: "MetadataSimilarToBuildctlFile option"
  bo_trace :: "BuildTrace option"

definition isIndexMediaType :: "string \<Rightarrow> bool" where
  "isIndexMediaType mt \<longleftrightarrow> mt = OCIImageIndex \<or> mt = DockerManifestList"

definition NewBuildOutput ::
  "('img, 'idx, 'l, 'w) ggcr \<Rightarrow> string \<Rightarrow> Artifact option \<Rightarrow> go_err + BuildOutput" where
  "NewBuildOutput G tag artifact =
     (case artifact of
        None \<Rightarrow> Inl (Msg ''artifact is nil'')
      | Some a \<Rightarrow>
          let h = gg_hash_string G (af_hash a);
              platform = (if \<not> isIndexMediaType (af_mediaType a) \<and> length (af_platforms a) > 0
                          then \<lparr>bp_architecture = pf_arch (hd (af_platforms a)), bp_os = pf_os (hd (af_platforms a))\<rparr>
                          else \<lparr>bp_architecture = '''', bp_os = ''''\<rparr>);
              configDigest = (if gg_hash_string G (af_configHash a) \<noteq> ''''
                              then gg_hash_string G (af_configHash a) else '''')
          in Inr \<lparr>bo_builds = Some [a], bo_turborepo = None,
                  bo_buildctl = Some \<lparr>mb_configDigest = configDigest,
                    mb_descriptor = \<lparr>ci_mediaType = af_mediaType a, ci_digest = h, ci_size = 0, ci_platform = platform\<rparr>,
                    mb_digest = h, mb_imageName = tag\<rparr>,
                  bo_trace = None\<rparr>)"

text \<open>The lines that \<open>Print\<close> writes.\<close>

definition output_Print :: "BuildOutput option \<Rightarrow> string list" where
  "output_Print b =
     (case b of None \<Rightarrow> [] | Some out \<Rightarrow> (case bo_builds out of None \<Rightarrow> [] | Some as \<Rightarrow> map af_tagRef as))"

section \<open>Trace (build\_trace.go)\<close>

definition defaultEnv :: rx where
  "defaultEnv =
     (let any = RStar (RCls (\<lambda>c. c \<noteq> CHR 0x0A)) in
      RAlt (rstr ''CI'') (RAlt (RSeq (rstr ''CI_'') any) (RAlt (RSeq (rstr ''TURBO_'') any)
        (RAlt (rstr ''IMAGE'') (RSeq (rstr ''IMAGE_'') any)))))"

text \<open>\<open>SplitN(e, "=", 2)\<close>: one or two parts; the code indexes the second one.\<close>

fun trace_env :: "string list \<Rightarrow> (string \<times> string) list \<Rightarrow> stop + (string \<times> string) list" where
  "trace_env [] env = Inr env"
| "trace_env (e # es) env =
     (case index_of e ''='' of
        None \<Rightarrow>
          (if rmatch defaultEnv e then Inl (Exit ''index out of range [1] with length 1'')
           else trace_env es env)
      | Some i \<Rightarrow>
          (if rmatch defaultEnv (take i e) then trace_env es (AList.update (take i e) (drop (Suc i) e) env)
           else trace_env es env))"

definition BuildTraceEnv :: "string list \<Rightarrow> stop + (string \<times> string) list" where
  "BuildTraceEnv environ = trace_env environ []"

section \<open>Properties\<close>

lemma last_index_of_append:
  "c \<notin> set t \<Longrightarrow> last_index_of (s @ c # t) c = Some (length s)"
proof (induction s)
  case Nil
  have "c \<notin> set t \<Longrightarrow> last_index_of t c = None" for t by (induction t) auto
  with Nil show ?case by simp
qed simp

lemma split_ref_digest: "CHR ''@'' \<notin> set d \<Longrightarrow> split_ref (base @ ''@'' @ d) = (base, d)"
  by (simp add: split_ref_def last_index_of_append)

lemma as_strings_JStr: "as_strings (map JStr xs) = Inr xs"
  by (induction xs) auto


definition toy_artifact :: Artifact where
  "toy_artifact = \<lparr>af_imageName = ''r.example/app'', af_tagRef = ''r.example/app:v1@sha256:d'',
     af_mediaType = OCIImageIndex, af_platforms = [plat ''linux'' ''amd64'' '''', plat ''linux'' ''arm64'' ''v8''],
     af_baseRef = ''r.example/base@sha256:b'', af_output = Some \<lparr>ao_path = ''out'', ao_format = ''oci''\<rparr>,
     af_reference = Some (projr (toy_parse_ref ''r.example/app:v1'')), af_hash = toy_hash ''d'',
     af_configHash = toy_hash ''c''\<rparr>"


text \<open>
  The config digest of an artifact that has none is not empty. With hashes printed as
  \<open>algorithm:hex\<close>, as go-containerregistry documents, the zero hash prints as a colon, so the output
  for an index names the config digest \<open>:\<close>.
\<close>

theorem index_output_names_colon:
  assumes "NewIndexImage G PL tag digest idx base = Inr a"
    and "\<forall>h. gg_hash_string G h = hs_algorithm h @ '':'' @ hs_hex h"
  shows "ConfigDigest G a = '':''
    \<and> (\<exists>out md. NewBuildOutput G tag (Some a) = Inr out \<and> bo_buildctl out = Some md \<and> mb_configDigest md = '':'')"
proof -
  have "af_configHash a = zero_hash"
    using assms(1) by (auto simp: NewIndexImage_def newRef_def split: if_splits sum.splits option.splits)
  then show ?thesis
    using assms(2) by (simp add: ConfigDigest_def NewBuildOutput_def Let_def zero_hash_def)
qed

theorem index_output_names_colon_witness:
  "\<exists>a. NewIndexImage toy_ggcr toy_platforms ''r.example/app:v1'' (toy_hash ''d'') toy_base ''r.example/base'' = Inr a
     \<and> ConfigDigest toy_ggcr a = '':''"
proof -
  obtain a where a: "NewIndexImage toy_ggcr toy_platforms ''r.example/app:v1'' (toy_hash ''d'') toy_base ''r.example/base'' = Inr a"
    by (simp add: NewIndexImage_def newRef_def toy_ggcr_def toy_parse_ref_def)
  from index_output_names_colon [OF this] a show ?thesis
    by (auto simp: toy_ggcr_def toy_hash_string_def)
qed

text \<open>A single image whose config names no platform ends the process, and so does a bare \<open>CI\<close>.\<close>

lemma single_image_without_platform:
  assumes "newRef G tag digest = Inr a" and "gg_img_manifest G img = Inr m" and "base \<noteq> ''''"
  shows "NewSingleImage G tag digest img None base = Inl (Exit ''nil pointer dereference'')"
  using assms by (simp add: NewSingleImage_def Let_def)

lemma trace_env_bare_name: "BuildTraceEnv [''CI''] = Inl (Exit ''index out of range [1] with length 1'')"
  by code_simp

end
