(* ===== verification/Multi_Index.thy ===== *)
theory Multi_Index
  imports Pushed_Artifact
begin

text \<open>
  Building from a multi-architecture base (\<open>pkg/multiarch/index.go\<close>, \<open>taggableindex.go\<close>,
  \<open>taggablechild.go\<close>): which children of the base index are appended to, and how the resulting index
  is put together and pushed.
\<close>

section \<open>Taggable manifests\<close>

definition NewTaggableIndex :: "('img, 'idx, 'l, 'w) ggcr \<Rightarrow> 'idx \<Rightarrow> go_err + taggable" where
  "NewTaggableIndex G idx =
     (case gg_idx_manifest G idx of Inl e \<Rightarrow> Inl (Msg e) | Inr manifest \<Rightarrow>
     (case gg_marshal_index G manifest of Inl e \<Rightarrow> Inl (Msg e) | Inr manifestjson \<Rightarrow>
     (case gg_idx_digest G idx of Inl e \<Rightarrow> Inl (Msg e) | Inr digest \<Rightarrow>
     (case gg_idx_mediaType G idx of Inl e \<Rightarrow> Inl (Msg e) | Inr mt \<Rightarrow>
     (case gg_idx_size G idx of Inl e \<Rightarrow> Inl (Msg e) | Inr sz \<Rightarrow>
        Inr \<lparr>tg_manifest = manifestjson, tg_digest = digest, tg_mediaType = mt, tg_size = sz\<rparr>)))))"

definition NewTaggableChild :: "('img, 'idx, 'l, 'w) ggcr \<Rightarrow> v1_manifest \<Rightarrow> go_err + taggable" where
  "NewTaggableChild G manifest =
     (case gg_marshal_indent G manifest of Inl e \<Rightarrow> Inl (Msg e) | Inr rawManifest \<Rightarrow>
     (case gg_sha256 G rawManifest of Inl e \<Rightarrow> Inl (Msg e) | Inr (digest, sz) \<Rightarrow>
        Inr \<lparr>tg_manifest = rawManifest, tg_digest = digest, tg_mediaType = mn_mediaType manifest, tg_size = sz\<rparr>))"

section \<open>The plan\<close>

definition noDigestYet :: Hash where
  "noDigestYet = zero_hash"

record ToAppend =
  ta_base :: reference
  ta_meta :: v1_descriptor
  ta_baseManifest :: v1_manifest

record 'idx IndexManifests =
  ix_baseRef :: reference
  ix_toAppend :: "ToAppend list"
  ix_basePlatforms :: "string list"
  ix_indexStart :: 'idx
  ix_prototype :: "ToAppend option"

definition newToAppend :: "('img, 'idx, 'l, 'w) ggcr \<Rightarrow> reference \<Rightarrow> v1_descriptor \<Rightarrow> v1_manifest \<Rightarrow> ToAppend" where
  "newToAppend G baseRef manifestMeta baseManifest =
     \<lparr>ta_base = gg_digest_ref G baseRef (vd_digest manifestMeta),
      ta_meta = manifestMeta\<lparr>vd_digest := noDigestYet, vd_size := - 1\<rparr>,
      ta_baseManifest = baseManifest\<rparr>"

definition getChildManifest ::
  "('img, 'idx, 'l, 'w) ggcr \<Rightarrow> reference \<Rightarrow> v1_descriptor \<Rightarrow> RegistryConfig \<Rightarrow> ('img, 'w) bst \<Rightarrow>
   (v1_manifest, 'img, 'w) bres" where
  "getChildManifest G baseRef manifest config s =
     (let ref = gg_digest_ref G baseRef (vd_digest manifest) in
      case gg_get G config ref (bs_world s) of
        (Inl e, w) \<Rightarrow> (Inl (Err (Msg e)), emit (EvGet ref) w s)
      | (Inr current, w) \<Rightarrow>
          (if gg_is_index G (ft_mediaType current)
           then (Inl (Err (Msg (''unsupported nested index digest '' @ rf_string ref @ '' type ''
                  @ ft_mediaType current))), emit (EvGet ref) w s)
           else
            (case gg_parse_manifest G (ft_manifest current) of
               Inl e \<Rightarrow> (Inl (Err (Msg e)), emit (EvGet ref) w s)
             | Inr m \<Rightarrow> (Inr m, emit (EvGet ref) w s))))"

text \<open>
  The loop over the children, with the platforms and the plan collected so far. The prototype is a
  pointer to the first entry of the plan, so it shows what is assigned to that entry later.
\<close>

fun plan_children ::
  "('img, 'idx, 'l, 'w) ggcr \<Rightarrow> platform_lib \<Rightarrow> (v1_descriptor \<Rightarrow> bool) \<Rightarrow> reference \<Rightarrow> RegistryConfig \<Rightarrow>
   v1_descriptor list \<Rightarrow> string list \<Rightarrow> ToAppend list \<Rightarrow> ToAppend option \<Rightarrow> ('img, 'w) bst \<Rightarrow>
   (string list \<times> ToAppend list \<times> ToAppend option, 'img, 'w) bres" where
  "plan_children G PL matchPlatforms baseRef reg [] basePlatforms toAppend prototype s =
     (Inr (basePlatforms, toAppend, prototype), s)"
| "plan_children G PL matchPlatforms baseRef reg (d # ds) basePlatforms toAppend prototype s =
     (case vd_platform d of
        None \<Rightarrow> plan_children G PL matchPlatforms baseRef reg ds basePlatforms toAppend prototype s
      | Some p \<Rightarrow>
          let basePlatforms = basePlatforms @ [pl_string PL p] in
          if \<not> matchPlatforms d
          then plan_children G PL matchPlatforms baseRef reg ds basePlatforms toAppend prototype s
          else if vd_mediaType d \<noteq> OCIManifestSchema1
          then plan_children G PL matchPlatforms baseRef reg ds basePlatforms toAppend prototype s
          else if is_attestation PL p d
          then plan_children G PL matchPlatforms baseRef reg ds basePlatforms toAppend prototype s
          else
           (case getChildManifest G baseRef d reg s of
              (Inl e, s1) \<Rightarrow> (Inl e, s1)
            | (Inr m, s1) \<Rightarrow>
                let base = newToAppend G baseRef d m in
                plan_children G PL matchPlatforms baseRef reg ds basePlatforms (toAppend @ [base])
                  (case prototype of None \<Rightarrow> Some base | Some x \<Rightarrow> Some x) s1))"

definition NewFromMultiArchBase ::
  "('img, 'idx, 'l, 'w) ggcr \<Rightarrow> platform_lib \<Rightarrow> ContainConfig \<Rightarrow> RegistryConfig \<Rightarrow> ('img, 'w) bst \<Rightarrow>
   ('idx IndexManifests, 'img, 'w) bres" where
  "NewFromMultiArchBase G PL config reg s =
     (case MatchPlatformsForAppend PL (cf_platforms config) of
        Inl e \<Rightarrow> (Inl (Err e), s)
      | Inr matchPlatforms \<Rightarrow>
     (case gg_parse_ref G (cf_base config) of
        Inl e \<Rightarrow> (Inl (Err (Msg e)), s)
      | Inr baseRef \<Rightarrow>
     (if \<not> rf_isDigest baseRef
      then (Inl (Err (Msg (''base without digest is currently de-supported, got '' @ cf_base config))), s)
      else
     (case gg_get G reg baseRef (bs_world s) of
        (Inl e, w) \<Rightarrow> (Inl (Err (Msg e)), emit (EvGet baseRef) w s)
      | (Inr base, w) \<Rightarrow>
     (let s1 = emit (EvGet baseRef) w s in
      if ft_mediaType base \<noteq> OCIImageIndex
      then (Inl (Err (Msg (''currently only supports OCI index, got '' @ ft_mediaType base @ '' for '' @ cf_base config))), s1)
      else
     (case ft_imageIndex base of
        Inl e \<Rightarrow> (Inl (Err (Msg (''image index from '' @ ft_mediaType base @ '' '' @ cf_base config))), s1)
      | Inr baseIndex \<Rightarrow>
     (case gg_idx_manifest G baseIndex of
        Inl e \<Rightarrow> (Inl (Err (Msg (''image index manifest from '' @ ft_mediaType base @ '' '' @ cf_base config))), s1)
      | Inr baseIndexManifest \<Rightarrow>
     (case plan_children G PL matchPlatforms baseRef reg (im_manifests baseIndexManifest) [] [] None s1 of
        (Inl e, s2) \<Rightarrow> (Inl e, s2)
      | (Inr (basePlatforms, toAppend, prototype), s2) \<Rightarrow>
          (if length toAppend = 0 then
            (case gg_idx_raw G baseIndex of
               Inl e \<Rightarrow> (Inl (Err (Msg (''raw manifest for debugging '' @ e))), s2)
             | Inr raw \<Rightarrow>
                 (Inl (Err (Msg (''no manifest of type '' @ OCIManifestSchema1 @ '' in index '' @ rf_string baseRef
                    @ '' matched: wanted '' @ go_list (cf_platforms config) @ '', index has ''
                    @ go_list basePlatforms))), s2))
           else
            (Inr \<lparr>ix_baseRef = baseRef, ix_toAppend = toAppend, ix_basePlatforms = basePlatforms,
                  ix_indexStart = gg_remove_manifests G baseIndex (\<lambda>d. True), ix_prototype = prototype\<rparr>, s2))))))))))"

text \<open>The accessors; a nil pointer ends the process.\<close>

definition GetPrototypeBase :: "'idx IndexManifests \<Rightarrow> stop + reference" where
  "GetPrototypeBase m =
     (case ix_prototype m of None \<Rightarrow> Inl (Exit ''nil pointer dereference'') | Some t \<Rightarrow> Inr (ta_base t))"

definition PrototypePlatform :: "'idx IndexManifests \<Rightarrow> stop + Platform" where
  "PrototypePlatform m =
     (case ix_prototype m of
        None \<Rightarrow> Inl (Exit ''nil pointer dereference'')
      | Some t \<Rightarrow> (case vd_platform (ta_meta t) of None \<Rightarrow> Inl (Exit ''nil pointer dereference'') | Some p \<Rightarrow> Inr p))"

fun deref_platforms :: "ToAppend list \<Rightarrow> stop + Platform list" where
  "deref_platforms [] = Inr []"
| "deref_platforms (c # cs) =
     (case vd_platform (ta_meta c) of
        None \<Rightarrow> Inl (Exit ''nil pointer dereference'')
      | Some p \<Rightarrow> (case deref_platforms cs of Inl e \<Rightarrow> Inl e | Inr ps \<Rightarrow> Inr (p # ps)))"

definition MatchedPlatforms :: "'idx IndexManifests \<Rightarrow> stop + Platform list" where
  "MatchedPlatforms m = deref_platforms (ix_toAppend m)"

definition BasePlatforms :: "'idx IndexManifests \<Rightarrow> string list" where
  "BasePlatforms m = ix_basePlatforms m"

definition SizeAppend :: "'idx IndexManifests \<Rightarrow> nat" where
  "SizeAppend m = length (ix_toAppend m)"

definition BaseRef :: "'idx IndexManifests \<Rightarrow> reference" where
  "BaseRef m = ix_baseRef m"

section \<open>Building the index\<close>

type_synonym ('img, 'w) each_append =
  "reference \<Rightarrow> reference \<Rightarrow> RegistryConfig \<Rightarrow> Platform \<Rightarrow> ('img, 'w) bst \<Rightarrow> ('img addendum, 'img, 'w) bres"

fun append_all ::
  "('img, 'w) each_append \<Rightarrow> reference \<Rightarrow> RegistryConfig \<Rightarrow> ToAppend list \<Rightarrow> ('img, 'w) bst \<Rightarrow>
   ('img addendum list, 'img, 'w) bres" where
  "append_all each tagRef tagRegistry [] s = (Inr [], s)"
| "append_all each tagRef tagRegistry (c # cs) s =
     (if vd_digest (ta_meta c) \<noteq> noDigestYet then (Inl (Exit ''has digest already''), s)
      else
       (case vd_platform (ta_meta c) of
          None \<Rightarrow> (Inl (Exit ''nil pointer dereference''), s)
        | Some p \<Rightarrow>
           (case each (ta_base c) tagRef tagRegistry p s of
              (Inl e, s1) \<Rightarrow> (Inl e, s1)
            | (Inr m, s1) \<Rightarrow>
                (case append_all each tagRef tagRegistry cs s1 of
                   (Inl e, s2) \<Rightarrow> (Inl e, s2)
                 | (Inr ms, s2) \<Rightarrow> (Inr (m # ms), s2)))))"

definition BuildWithAppend ::
  "('img, 'idx, 'l, 'w) ggcr \<Rightarrow> platform_lib \<Rightarrow> 'idx IndexManifests \<Rightarrow> ('img, 'w) each_append \<Rightarrow> reference \<Rightarrow>
   RegistryConfig \<Rightarrow> bool \<Rightarrow> ('img, 'w) bst \<Rightarrow> ('idx \<times> Artifact, 'img, 'w) bres" where
  "BuildWithAppend G PL m each tagRef tagRegistry push s =
     (case append_all each tagRef tagRegistry (ix_toAppend m) s of
        (Inl e, s1) \<Rightarrow> (Inl e, s1)
      | (Inr manifests, s1) \<Rightarrow>
     (case gg_append_manifests G (ix_indexStart m) manifests of
        None \<Rightarrow> (Inl (Exit ''nil result from AppendManifests''), s1)
      | Some resultIndex \<Rightarrow>
     (case (if push then
              (case NewTaggableIndex G resultIndex of
                 Inl e \<Rightarrow> (Inl (Err e), s1)
               | Inr resultTaggable \<Rightarrow>
                   (case gg_put G tagRegistry tagRef resultTaggable (bs_world s1) of
                      (Some e, w) \<Rightarrow> (Inl (Err (Msg e)), emit (EvPut tagRef resultTaggable) w s1)
                    | (None, w) \<Rightarrow> (Inr (), emit (EvPut tagRef resultTaggable) w s1)))
            else (Inr (), s1)) of
        (Inl e, s2) \<Rightarrow> (Inl e, s2)
      | (Inr _, s2) \<Rightarrow>
         (case gg_idx_digest G resultIndex of
            Inl e \<Rightarrow> (Inl (Err (Msg e)), s2)
          | Inr d \<Rightarrow>
             (case NewIndexImage G PL (rf_string tagRef) d resultIndex (rf_string (ix_baseRef m)) of
                Inl e \<Rightarrow> (Inl e, s2)
              | Inr artifact \<Rightarrow> (Inr (resultIndex, artifact), s2))))))"

section \<open>What is selected\<close>

definition pending :: "v1_descriptor \<Rightarrow> v1_descriptor" where
  "pending d = d\<lparr>vd_digest := noDigestYet, vd_size := - 1\<rparr>"

definition usable_child :: "platform_lib \<Rightarrow> v1_descriptor \<Rightarrow> bool" where
  "usable_child PL d \<longleftrightarrow> (case vd_platform d of
       None \<Rightarrow> False
     | Some p \<Rightarrow> vd_mediaType d = OCIManifestSchema1 \<and> \<not> is_attestation PL p d)"

definition chosen_child :: "platform_lib \<Rightarrow> string list \<Rightarrow> v1_descriptor \<Rightarrow> bool" where
  "chosen_child PL cs d \<longleftrightarrow> usable_child PL d \<and> (cs = [] \<or>
     (case vd_platform d of None \<Rightarrow> False | Some p \<Rightarrow> wants_platform PL cs p))"

section \<open>What happens along the way\<close>

text \<open>
  \<open>along ok s s'\<close>: the events between the two states form a trace that \<open>ok\<close> accepts. A class of traces
  that has the empty one, is closed under concatenation and has the reads of a registry and the writes
  of local files is kept by every operation whose steps keep it.
\<close>

definition along :: "('img event list \<Rightarrow> bool) \<Rightarrow> ('img, 'w) bst \<Rightarrow> ('img, 'w) bst \<Rightarrow> bool" where
  "along ok s s' \<longleftrightarrow> (\<exists>es. bs_events s' = bs_events s @ es \<and> ok es)"

locale trace_class =
  fixes ok :: "'img event list \<Rightarrow> bool"
  assumes ok_Nil: "ok []"
    and ok_append: "ok as \<Longrightarrow> ok bs \<Longrightarrow> ok (as @ bs)"
    and ok_get: "ok [EvGet ref]"
    and ok_file: "ok [EvFile path]"
begin

lemma refl [simp, intro]: "along ok s s"
  by (simp add: along_def ok_Nil)

lemma trans: "along ok s t \<Longrightarrow> along ok t u \<Longrightarrow> along ok s u"
  using ok_append unfolding along_def by fastforce

lemma emit: "ok [e] \<Longrightarrow> along ok s (emit e w s)"
  by (simp add: along_def emit_def)

lemma world [simp]: "along ok s (t\<lparr>bs_world := w\<rparr>) = along ok s t" "along ok (s\<lparr>bs_world := w\<rparr>) t = along ok s t"
  by (simp_all add: along_def)

lemmas after_read [simp, intro] = emit [OF ok_get]
lemmas after_file [simp, intro] = emit [OF ok_file]

lemma after_get: "along ok (emit (EvGet ref) w s) t \<Longrightarrow> along ok s t"
  by (rule trans [OF after_read])

lemma getChildManifest: "getChildManifest G b d reg s = (r, s') \<Longrightarrow> along ok s s'"
  by (auto simp: getChildManifest_def Let_def split: prod.splits sum.splits if_splits)

lemma plan_children: "plan_children G PL m b reg ds bps ta pt s = (r, s') \<Longrightarrow> along ok s s'"
proof (induction ds arbitrary: bps ta pt s)
  case (Cons d ds)
  then show ?case
    by (auto simp: Let_def split: option.splits if_splits prod.splits sum.splits
        dest!: getChildManifest intro: trans)
qed simp

lemma NewFromMultiArchBase: "NewFromMultiArchBase G PL config reg s = (r, s') \<Longrightarrow> along ok s s'"
  by (auto simp: NewFromMultiArchBase_def Let_def split: sum.splits if_splits prod.splits
      dest!: plan_children intro: after_get)

lemma append_all:
  assumes "\<And>b p s r s'. each b tag reg p s = (r, s') \<Longrightarrow> along ok s s'"
  shows "append_all each tag reg cs s = (r, s') \<Longrightarrow> along ok s s'"
proof (induction cs arbitrary: s r)
  case (Cons c cs)
  then show ?case
    by (auto split: if_splits option.splits prod.splits sum.splits dest!: assms intro: trans)
qed simp

lemma BuildWithAppend:
  assumes "\<And>b p s r s'. each b tag reg p s = (r, s') \<Longrightarrow> along ok s s'"
    and "\<And>t. push \<Longrightarrow> ok [EvPut tag t]"
    and "BuildWithAppend G PL m each tag reg push s = (r, s')"
  shows "along ok s s'"
proof -
  obtain ms s1 where all: "append_all each tag reg (ix_toAppend m) s = (ms, s1)" by fastforce
  have "along ok s1 (emit (EvPut tag t) w s1)" if push for t w
    using emit [OF assms(2) [OF that]] .
  moreover have "along ok s s1"
    using assms(1) all by (rule append_all)
  ultimately show ?thesis using all assms(3)
    by (auto simp: BuildWithAppend_def split: sum.splits option.splits if_splits prod.splits intro: trans)
qed

end

text \<open>Nothing is published.\<close>

definition silent :: "'img event list \<Rightarrow> bool" where
  "silent es \<longleftrightarrow> list_all (\<lambda>e. \<not> publishes e) es"

abbreviation quiet :: "('img, 'w) bst \<Rightarrow> ('img, 'w) bst \<Rightarrow> bool" where
  "quiet \<equiv> along silent"

interpretation quiet: trace_class silent
  by unfold_locales (auto simp: silent_def)

lemma plan_children_spec:
  assumes "plan_children G PL m b reg ds bps ta pt s = (Inr (bps', ta', pt'), s')"
  shows "\<exists>new. ta' = ta @ new
    \<and> list_all2 (\<lambda>d t. ta_base t = gg_digest_ref G b (vd_digest d) \<and> ta_meta t = pending d)
        (filter (\<lambda>d. m d \<and> usable_child PL d) ds) new
    \<and> bps' = bps @ map (pl_string PL) (List.map_filter vd_platform ds)
    \<and> pt' = (case pt of Some x \<Rightarrow> Some x | None \<Rightarrow> (case new of [] \<Rightarrow> None | t # ts \<Rightarrow> Some t))"
  using assms
proof (induction ds arbitrary: bps ta pt s)
  case Nil
  then show ?case by (auto split: option.split)
next
  case (Cons d ds)
  show ?case
  proof (cases "vd_platform d")
    case None
    with Cons show ?thesis by (auto simp: usable_child_def)
  next
    case (Some p)
    let ?bps = "bps @ [pl_string PL p]"
    show ?thesis
    proof (cases "m d \<and> usable_child PL d")
      case False
      with Cons.prems Some have "plan_children G PL m b reg ds ?bps ta pt s = (Inr (bps', ta', pt'), s')"
        by (auto simp: usable_child_def Let_def split: if_splits)
      from Cons.IH [OF this] False Some show ?thesis by auto
    next
      case True
      with Cons.prems Some obtain mn s1 where
        child: "getChildManifest G b d reg s = (Inr mn, s1)"
          "plan_children G PL m b reg ds ?bps (ta @ [newToAppend G b d mn])
            (case pt of None \<Rightarrow> Some (newToAppend G b d mn) | Some x \<Rightarrow> Some x) s1 = (Inr (bps', ta', pt'), s')"
        by (auto simp: usable_child_def Let_def split: prod.splits sum.splits)
      from Cons.IH [OF child(2)] obtain new where new: "ta' = (ta @ [newToAppend G b d mn]) @ new"
          "list_all2 (\<lambda>d t. ta_base t = gg_digest_ref G b (vd_digest d) \<and> ta_meta t = pending d)
            (filter (\<lambda>d. m d \<and> usable_child PL d) ds) new"
          "bps' = ?bps @ map (pl_string PL) (List.map_filter vd_platform ds)"
          "pt' = (case (case pt of None \<Rightarrow> Some (newToAppend G b d mn) | Some x \<Rightarrow> Some x) of
             Some x \<Rightarrow> Some x | None \<Rightarrow> (case new of [] \<Rightarrow> None | t # ts \<Rightarrow> Some t))"
        by blast
      have "ta_base (newToAppend G b d mn) = gg_digest_ref G b (vd_digest d)"
          "ta_meta (newToAppend G b d mn) = pending d"
        by (simp_all add: newToAppend_def pending_def)
      with new True Some show ?thesis
        by (intro exI [of _ "newToAppend G b d mn # new"]) (auto split: option.splits)
    qed
  qed
qed

lemma deref_platforms_mem:
  "deref_platforms ts = Inr ps \<Longrightarrow> t \<in> set ts \<Longrightarrow> vd_platform (ta_meta t) = Some p \<Longrightarrow> p \<in> set ps"
  by (induction ts arbitrary: ps) (auto split: option.splits sum.splits)

lemma deref_platforms_pending:
  "list_all2 (\<lambda>d t. ta_base t = gg_digest_ref G b (vd_digest d) \<and> ta_meta t = pending d) ds ts \<Longrightarrow>
   \<forall>d \<in> set ds. vd_platform d \<noteq> None \<Longrightarrow> deref_platforms ts = Inr (List.map_filter vd_platform ds)"
  by (induction ds ts rule: list_all2_induct) (auto simp: pending_def)

lemma NewFromMultiArchBase_Inr:
  assumes "NewFromMultiArchBase G PL config reg s = (Inr ix, s')"
  shows "\<exists>m children s1. MatchPlatformsForAppend PL (cf_platforms config) = Inr m
    \<and> plan_children G PL m (ix_baseRef ix) reg children [] [] None s1
        = (Inr (ix_basePlatforms ix, ix_toAppend ix, ix_prototype ix), s')
    \<and> ix_toAppend ix \<noteq> []"
  using assms
  by (auto simp: NewFromMultiArchBase_def Let_def split: sum.splits if_splits prod.splits; blast)



end
