(* ===== verification/App_Env.thy ===== *)
theory App_Env
  imports Go_Regexp "HOL-Library.AList"
begin

text \<open>
  Environment overrides (\<open>pkg/appender/env.go\<close>). A Go map is an association list without duplicate
  keys. \<open>range\<close> over a map visits its entries in an order the runtime chooses anew for every loop;
  that order is an argument: \<open>substitutePlaceholders\<close> gets the entries in the order in which its
  loop meets them, \<open>applyEnvOverrides\<close> a function \<open>iter\<close> that gives the order for the loop that
  fills position n of the result.
\<close>

section \<open>Substitution\<close>

definition fallbackPathValue :: string where
  "fallbackPathValue = ''/usr/bin''"

text \<open>The placeholder \<open>${k}\<close>.\<close>

definition braced :: "string \<Rightarrow> string" where
  "braced k = ''${'' @ k @ ''}''"

definition name_start :: "char \<Rightarrow> bool" where
  "name_start c \<longleftrightarrow> is_upper c \<or> is_lower c \<or> c = CHR ''_''"

definition name_char :: "char \<Rightarrow> bool" where
  "name_char c \<longleftrightarrow> name_start c \<or> is_digit c"

text \<open>
  \<open>ReplaceAllStringFunc\<close> with the expression \<open>\$([A-Za-z_][A-Za-z0-9_]*)\<close>: the matches from left to
  right, each as long as possible; \<open>vals\<close> looks a name up.
\<close>

function expand_dollar :: "(string \<Rightarrow> string option) \<Rightarrow> string \<Rightarrow> string" where
  "expand_dollar vals [] = []"
| "expand_dollar vals (c # s) =
     (if c = CHR ''$'' \<and> s \<noteq> [] \<and> name_start (hd s) then
        let name = takeWhile name_char s in
        (case vals name of Some v \<Rightarrow> v | None \<Rightarrow> c # name)
          @ expand_dollar vals (drop (length name) s)
      else c # expand_dollar vals s)"
  by pat_completeness auto
termination
  by (relation "measure (\<lambda>(vals, s). length s)") (auto simp: Let_def)

text \<open>The first loop, over the entries in the order \<open>entries\<close>.\<close>

fun expand_braced :: "(string \<times> string) list \<Rightarrow> string \<Rightarrow> string" where
  "expand_braced [] v = v"
| "expand_braced ((k, val) # entries) v =
     expand_braced entries
       (if str_contains v (braced k) then replace_all v (braced k) val else v)"

definition substitutePlaceholders :: "(string \<times> string) list \<Rightarrow> string \<Rightarrow> string" where
  "substitutePlaceholders original v =
     (if original = [] \<or> v = [] \<or> (\<not> str_contains v ''${'' \<and> \<not> str_contains v ''$'') then v
      else expand_dollar (map_of original) (expand_braced original v))"

section \<open>Overrides\<close>

text \<open>\<open>split_env e\<close> is key and value of \<open>KEY=VALUE\<close>, \<open>None\<close> where \<open>strings.Index(e, "=") > 0\<close> fails.\<close>

definition split_env :: "string \<Rightarrow> (string \<times> string) option" where
  "split_env e =
     (case index_of e ''='' of
        None \<Rightarrow> None
      | Some i \<Rightarrow> if i > 0 then Some (take i e, drop (Suc i) e) else None)"

text \<open>Assigning the pairs to a map one by one: the last value of a key wins.\<close>

definition env_map :: "string list \<Rightarrow> (string \<times> string) list" where
  "env_map kvs = fold (\<lambda>kv m. case split_env kv of None \<Rightarrow> m | Some (k, v) \<Rightarrow> AList.update k v m) kvs []"

text \<open>The keys in order, duplicates included.\<close>

definition env_order :: "string list \<Rightarrow> string list" where
  "env_order kvs = map fst (List.map_filter split_env kvs)"

text \<open>The value put in: \<open>entries\<close> is \<open>original\<close> in the order of this call's loop.\<close>

definition override_value :: "(string \<times> string) list \<Rightarrow> string \<Rightarrow> string" where
  "override_value entries v =
     (let w = substitutePlaceholders entries v in
      if str_contains w (braced ''PATH'') \<and> map_of entries ''PATH'' = None
      then replace_all w (braced ''PATH'') fallbackPathValue else w)"

type_synonym iteration = "nat \<Rightarrow> (string \<times> string) list \<Rightarrow> (string \<times> string) list"

text \<open>
  The two loops: over the existing entries (position \<open>i\<close>), collecting the keys seen, and over the
  order of the desired ones, appending those not seen.
\<close>

fun override_existing ::
  "iteration \<Rightarrow> (string \<times> string) list \<Rightarrow> (string \<times> string) list \<Rightarrow> nat \<Rightarrow> string list \<Rightarrow>
   string list \<times> string list" where
  "override_existing iter desired original i [] = ([], [])"
| "override_existing iter desired original i (e # es) =
     (let (out, seen) = override_existing iter desired original (Suc i) es in
      case split_env e of
        None \<Rightarrow> (e # out, seen)
      | Some (k, _) \<Rightarrow>
          (case map_of desired k of
             None \<Rightarrow> (e # out, seen)
           | Some v \<Rightarrow> ((k @ ''='' @ override_value (iter i original) v) # out, k # seen)))"

fun append_new ::
  "iteration \<Rightarrow> (string \<times> string) list \<Rightarrow> (string \<times> string) list \<Rightarrow> string list \<Rightarrow> nat \<Rightarrow> string list \<Rightarrow>
   string list" where
  "append_new iter desired original seen i [] = []"
| "append_new iter desired original seen i (k # ks) =
     (if k \<in> set seen then append_new iter desired original seen (Suc i) ks
      else (k @ ''='' @ override_value (iter i original) (case map_of desired k of Some v \<Rightarrow> v | None \<Rightarrow> []))
             # append_new iter desired original seen (Suc i) ks)"

definition applyEnvOverrides :: "iteration \<Rightarrow> string list \<Rightarrow> string list \<Rightarrow> string list" where
  "applyEnvOverrides iter existing desiredKVs =
     (if desiredKVs = [] then existing
      else
       let desired = env_map desiredKVs;
           original = env_map existing;
           (out, seen) = override_existing iter desired original 0 existing
       in out @ append_new iter desired original seen (length existing) (env_order desiredKVs))"

section \<open>Keys and values\<close>

text \<open>What an environment gives for a key: the values of all its entries, in order.\<close>

definition values_of :: "string \<Rightarrow> string list \<Rightarrow> string list" where
  "values_of k kvs = map snd (filter (\<lambda>p. fst p = k) (List.map_filter split_env kvs))"

definition env_key :: "string \<Rightarrow> string option" where
  "env_key e = map_option fst (split_env e)"

lemma values_of_simps [simp]:
  "values_of k [] = []"
  "values_of k (e # es) = (case split_env e of None \<Rightarrow> values_of k es
     | Some (k', v) \<Rightarrow> if k' = k then v # values_of k es else values_of k es)"
  "values_of k (es @ fs) = values_of k es @ values_of k fs"
  by (simp_all add: values_of_def split: option.split)

lemma index_of_char: "index_of s [c] = Some i \<Longrightarrow> c \<notin> set (take i s) \<and> i < length s \<and> s ! i = c"
  by (induction s arbitrary: i) (auto simp: has_prefix_def split: if_splits)

lemma index_of_char_append: "c \<notin> set k \<Longrightarrow> index_of (k @ c # v) [c] = Some (length k)"
  by (induction k) (auto simp: has_prefix_def)

lemma split_env_key: "split_env e = Some (k, v) \<Longrightarrow> k \<noteq> [] \<and> CHR ''='' \<notin> set k"
  by (auto simp: split_env_def split: option.splits if_splits dest: index_of_char)

lemma split_env_entry: "k \<noteq> [] \<Longrightarrow> CHR ''='' \<notin> set k \<Longrightarrow> split_env (k @ CHR ''='' # v) = Some (k, v)"
  by (simp add: split_env_def index_of_char_append)

lemma env_map_distinct: "distinct (map fst (env_map kvs))"
proof -
  have "distinct (map fst m) \<Longrightarrow> distinct (map fst (fold (\<lambda>kv m. case split_env kv of None \<Rightarrow> m
      | Some (k, v) \<Rightarrow> AList.update k v m) kvs m))" for m
    by (induction kvs arbitrary: m) (auto simp: distinct_update split: option.split)
  then show ?thesis by (simp add: env_map_def)
qed

lemma env_map_last:
  "map_of (env_map kvs) k = (if values_of k kvs = [] then None else Some (last (values_of k kvs)))"
proof -
  have "map_of (fold (\<lambda>kv m. case split_env kv of None \<Rightarrow> m | Some (k, v) \<Rightarrow> AList.update k v m) kvs m) k
     = (if values_of k kvs = [] then map_of m k else Some (last (values_of k kvs)))" for m
    by (induction kvs arbitrary: m) (auto simp: update_conv' split: option.split)
  then show ?thesis by (simp add: env_map_def)
qed

lemma env_order_iff: "k \<in> set (env_order kvs) \<longleftrightarrow> values_of k kvs \<noteq> []"
  by (induction kvs) (auto simp: env_order_def split: option.split)

lemma env_order_key: "k \<in> set (env_order kvs) \<Longrightarrow> k \<noteq> [] \<and> CHR ''='' \<notin> set k"
  by (induction kvs) (auto simp: env_order_def split: option.splits dest: split_env_key)

section \<open>What the two loops produce\<close>

lemma override_existing_spec:
  assumes "override_existing iter desired original i es = (out, seen)"
  shows "length out = length es \<and> map env_key out = map env_key es
    \<and> set seen = {k. values_of k es \<noteq> [] \<and> map_of desired k \<noteq> None}
    \<and> filter (\<lambda>e. split_env e = None) out = filter (\<lambda>e. split_env e = None) es
    \<and> (\<forall>k. map_of desired k = None \<longrightarrow> values_of k out = values_of k es)
    \<and> (\<forall>k v w. map_of desired k = Some v \<longrightarrow> w \<in> set (values_of k out) \<longrightarrow>
         (\<exists>n. w = override_value (iter n original) v))"
  using assms
proof (induction es arbitrary: i out seen)
  case Nil
  then show ?case by simp
next
  case (Cons e es)
  obtain out' seen' where r: "override_existing iter desired original (Suc i) es = (out', seen')" by fastforce
  note IH = Cons.IH [OF r]
  show ?case
  proof (cases "split_env e")
    case None
    with Cons.prems r IH show ?thesis by (auto simp: env_key_def)
  next
    case (Some kv)
    then obtain k v where kv: "split_env e = Some (k, v)" by (cases kv) auto
    note key = split_env_key [OF kv]
    show ?thesis
    proof (cases "map_of desired k")
      case None
      with Cons.prems r kv have "out = e # out'" "seen = seen'" by simp_all
      with IH kv None show ?thesis by (auto simp: env_key_def)
    next
      case (Some d)
      with Cons.prems r kv
      have o: "out = (k @ ''='' @ override_value (iter i original) d) # out'" "seen = k # seen'" by simp_all
      have "split_env (k @ CHR ''='' # override_value (iter i original) d)
          = Some (k, override_value (iter i original) d)"
        using key by (auto intro: split_env_entry)
      then show ?thesis
        using IH kv Some by (auto simp: env_key_def o)
    qed
  qed
qed

lemma append_new_values:
  assumes "\<And>k. k \<in> set ks \<Longrightarrow> k \<noteq> [] \<and> CHR ''='' \<notin> set k"
  shows "filter (\<lambda>e. split_env e = None) (append_new iter desired original seen i ks) = []
    \<and> (values_of k (append_new iter desired original seen i ks) \<noteq> [] \<longleftrightarrow> k \<in> set ks \<and> k \<notin> set seen)
    \<and> (\<forall>w \<in> set (values_of k (append_new iter desired original seen i ks)).
         \<exists>n. w = override_value (iter n original) (case map_of desired k of Some v \<Rightarrow> v | None \<Rightarrow> []))"
  using assms
proof (induction ks arbitrary: i)
  case (Cons x ks)
  let ?v = "override_value (iter i original) (case map_of desired x of Some v \<Rightarrow> v | None \<Rightarrow> [])"
  have "x \<noteq> [] \<and> CHR ''='' \<notin> set x" using Cons.prems by simp
  then have se: "split_env (x @ CHR ''='' # ?v) = Some (x, ?v)" by (auto intro: split_env_entry)
  have IH: "filter (\<lambda>e. split_env e = None) (append_new iter desired original seen (Suc i) ks) = []
    \<and> (values_of k (append_new iter desired original seen (Suc i) ks) \<noteq> [] \<longleftrightarrow> k \<in> set ks \<and> k \<notin> set seen)
    \<and> (\<forall>w \<in> set (values_of k (append_new iter desired original seen (Suc i) ks)).
         \<exists>n. w = override_value (iter n original) (case map_of desired k of Some v \<Rightarrow> v | None \<Rightarrow> []))"
    by (rule Cons.IH) (use Cons.prems in simp)
  have eq: "append_new iter desired original seen i (x # ks) =
      (if x \<in> set seen then append_new iter desired original seen (Suc i) ks
       else (x @ ''='' @ ?v) # append_new iter desired original seen (Suc i) ks)" by simp
  show ?case
    using IH se unfolding eq by (auto)
qed simp

section \<open>Substitution against a reference\<close>

text \<open>
  A value as its author means it: literal text and placeholders. \<open>expand_tok\<close> replaces all
  placeholders at once by the values in \<open>m\<close>, and leaves an unknown one as it stands.
\<close>

datatype tok = Lit string | Ref string

fun render :: "tok \<Rightarrow> string" where
  "render (Lit l) = l"
| "render (Ref n) = braced n"

fun expand_tok :: "(string \<Rightarrow> string option) \<Rightarrow> tok \<Rightarrow> string" where
  "expand_tok m (Lit l) = l"
| "expand_tok m (Ref n) = (case m n of Some v \<Rightarrow> v | None \<Rightarrow> braced n)"

fun plain_tok :: "tok \<Rightarrow> bool" where
  "plain_tok (Lit l) \<longleftrightarrow> CHR ''$'' \<notin> set l"
| "plain_tok (Ref n) \<longleftrightarrow> CHR ''$'' \<notin> set n \<and> CHR ''}'' \<notin> set n"

text \<open>One entry expanded in the tokens.\<close>

fun sub_tok :: "string \<Rightarrow> string \<Rightarrow> tok \<Rightarrow> tok" where
  "sub_tok k val (Ref n) = (if n = k then Lit val else Ref n)"
| "sub_tok k val (Lit l) = Lit l"

lemma replace_all_skip:
  "CHR ''$'' \<notin> set l \<Longrightarrow> replace_all (l @ s) (CHR ''$'' # p) new = l @ replace_all s (CHR ''$'' # p) new"
  by (induction l) (auto simp: replace_all.simps [of "_ # _"] has_prefix_def)

lemma replace_all_hit: "p \<noteq> [] \<Longrightarrow> replace_all (p @ s) p new = new @ replace_all s p new"
  by (subst replace_all.simps) auto

lemma replace_all_Nil [simp]: "replace_all [] p new = []"
  by (subst replace_all.simps) simp

lemma braced_prefix:
  assumes "has_prefix (braced n @ s) (braced k)" and "CHR ''}'' \<notin> set n" and "CHR ''}'' \<notin> set k"
  shows "n = k"
proof -
  from assms(1) obtain t where "n @ CHR ''}'' # s = k @ CHR ''}'' # t"
    by (auto simp: has_prefix_iff braced_def)
  moreover have "takeWhile (\<lambda>c. c \<noteq> CHR ''}'') (w @ CHR ''}'' # u) = w" if "CHR ''}'' \<notin> set w" for w u
    using that by (induction w) auto
  ultimately show ?thesis using assms(2,3) by metis
qed

lemma replace_all_toks:
  assumes "\<forall>t \<in> set ts. plain_tok t" and "CHR ''}'' \<notin> set k"
  shows "replace_all (concat (map render ts)) (braced k) val = concat (map (render \<circ> sub_tok k val) ts)"
  using assms(1)
proof (induction ts)
  case (Cons t ts)
  have shape: "braced k = CHR ''$'' # ''{'' @ k @ ''}''" by (simp add: braced_def)
  show ?case
  proof (cases t)
    case (Lit l)
    with Cons show ?thesis by (simp add: shape replace_all_skip)
  next
    case (Ref n)
    show ?thesis
    proof (cases "n = k")
      case True
      have "replace_all (braced k @ concat (map render ts)) (braced k) val
          = val @ replace_all (concat (map render ts)) (braced k) val"
        by (rule replace_all_hit) (simp add: shape)
      with Cons Ref True show ?thesis by simp
    next
      case False
      let ?s = "concat (map render ts)"
      have "\<not> has_prefix (braced n @ ?s) (braced k)"
        using braced_prefix [of n ?s k] False Cons.prems Ref assms(2) by auto
      then have "replace_all (braced n @ ?s) (braced k) val
          = CHR ''$'' # replace_all ((''{'' @ n @ ''}'') @ ?s) (braced k) val"
        by (subst replace_all.simps) (simp add: braced_def)
      also have "\<dots> = CHR ''$'' # (''{'' @ n @ ''}'') @ replace_all ?s (braced k) val"
        using Cons.prems Ref by (subst shape, subst replace_all_skip) (auto simp: shape)
      finally show ?thesis using Cons Ref False by (simp add: braced_def)
    qed
  qed
qed simp

lemma str_contains_replace: "\<not> str_contains v p \<Longrightarrow> replace_all v p new = v"
proof (induction v)
  case (Cons c v)
  then have "\<not> has_prefix (c # v) p" "\<not> str_contains v p"
    by (auto simp: str_contains_def split: if_splits)
  with Cons.IH show ?case by (subst replace_all.simps) simp
qed simp

lemma sub_tok_plain: "plain_tok t \<Longrightarrow> CHR ''$'' \<notin> set val \<Longrightarrow> plain_tok (sub_tok k val t)"
  by (cases t) auto

lemma expand_braced_toks:
  assumes "\<forall>t \<in> set ts. plain_tok t" and "distinct (map fst entries)"
    and "\<forall>(k, val) \<in> set entries. CHR ''}'' \<notin> set k \<and> CHR ''$'' \<notin> set val"
  shows "expand_braced entries (concat (map render ts)) = concat (map (expand_tok (map_of entries)) ts)"
  using assms
proof (induction entries arbitrary: ts)
  case Nil
  have "expand_tok Map.empty = render" by (rule ext, rename_tac t, case_tac t) auto
  then show ?case by simp
next
  case (Cons e entries)
  obtain k val where e: "e = (k, val)" by fastforce
  let ?v = "concat (map render ts)"
  have "(if str_contains ?v (braced k) then replace_all ?v (braced k) val else ?v) = replace_all ?v (braced k) val"
    using str_contains_replace by auto
  also have "\<dots> = concat (map render (map (sub_tok k val) ts))"
    using replace_all_toks [of ts k val] Cons.prems e by simp
  finally have "expand_braced (e # entries) ?v = expand_braced entries (concat (map render (map (sub_tok k val) ts)))"
    by (simp add: e)
  also have "\<dots> = concat (map (expand_tok (map_of entries)) (map (sub_tok k val) ts))"
    by (rule Cons.IH) (use Cons.prems e sub_tok_plain in auto)
  also have "expand_tok (map_of entries) \<circ> sub_tok k val = expand_tok (map_of (e # entries))"
  proof
    fix t
    have "map_of entries k = None" using Cons.prems(2) e by (auto simp: map_of_eq_None_iff)
    then show "(expand_tok (map_of entries) \<circ> sub_tok k val) t = expand_tok (map_of (e # entries)) t"
      by (cases t) (auto simp: e)
  qed
  ultimately show ?case unfolding map_map by (simp only:)
qed

lemma expand_dollar_skip:
  "CHR ''$'' \<notin> set l \<Longrightarrow> expand_dollar m (l @ s) = l @ expand_dollar m s"
  by (induction l) auto

lemma expand_dollar_braced:
  "CHR ''$'' \<notin> set n \<Longrightarrow> expand_dollar m (braced n @ s) = braced n @ expand_dollar m s"
  using expand_dollar_skip [of "''{'' @ n @ ''}''" m s]
  by (simp add: braced_def name_start_def is_upper_def is_lower_def in_range_def)

lemma expand_dollar_toks:
  assumes "\<forall>t \<in> set ts. plain_tok t" and "\<forall>v \<in> ran vals. CHR ''$'' \<notin> set v"
  shows "expand_dollar m (concat (map (expand_tok vals) ts)) = concat (map (expand_tok vals) ts)"
  using assms(1)
proof (induction ts)
  case (Cons t ts)
  then show ?case
    using assms(2)
    by (cases t) (auto simp: expand_dollar_skip expand_dollar_braced ranI split: option.split)
qed simp

lemma str_contains_dollar: "str_contains v ''$'' \<longleftrightarrow> CHR ''$'' \<in> set v"
  by (induction v) (auto simp: str_contains_def has_prefix_def)

lemma substitutePlaceholders_toks:
  assumes "\<forall>t \<in> set ts. plain_tok t" and "distinct (map fst entries)"
    and "\<forall>(k, val) \<in> set entries. CHR ''}'' \<notin> set k \<and> CHR ''$'' \<notin> set val"
  shows "substitutePlaceholders entries (concat (map render ts)) = concat (map (expand_tok (map_of entries)) ts)"
proof -
  let ?v = "concat (map render ts)"
  have full: "expand_dollar (map_of entries) (expand_braced entries ?v) = concat (map (expand_tok (map_of entries)) ts)"
    using expand_braced_toks [OF assms] expand_dollar_toks [OF assms(1), of "map_of entries"] assms(3)
    by (fastforce simp: ran_def dest: map_of_SomeD)
  show ?thesis
  proof (cases "entries = [] \<or> CHR ''$'' \<notin> set ?v")
    case True
    moreover have "expand_tok m t = render t" if "CHR ''$'' \<notin> set (render t)" for m t
      using that by (cases t) (auto simp: braced_def)
    moreover have "expand_tok (map_of []) t = render t" for t by (cases t) auto
    ultimately have eq: "concat (map (expand_tok (map_of entries)) ts) = ?v"
      by (auto intro!: arg_cong [of _ _ concat])
    show ?thesis
    proof (cases "substitutePlaceholders entries ?v = ?v")
      case False
      with full show ?thesis by (auto simp: substitutePlaceholders_def split: if_splits)
    qed (simp add: eq)
  next
    case False
    then have "entries \<noteq> []" "str_contains ?v ''$''" by (simp_all add: str_contains_dollar)
    moreover from False have "?v \<noteq> []" by (metis empty_iff list.set(1))
    ultimately have "entries \<noteq> []" "?v \<noteq> []" "str_contains ?v ''$''" by blast+
    then show ?thesis using full unfolding substitutePlaceholders_def by (simp only: if_False simp_thms)
  qed
qed

section \<open>Properties\<close>

lemma override_values_of:
  assumes "override_existing iter desired original i es = (out, seen)" and "map_of desired k = Some v"
  shows "length (values_of k out) = length (values_of k es)"
proof -
  have len: "length (values_of k l) = length (filter (\<lambda>e. e = Some k) (map env_key l))" for l
    by (induction l) (auto simp: env_key_def split: option.split)
  show ?thesis using override_existing_spec [OF assms(1)] by (simp add: len)
qed

text \<open>
  C18: overriding the environment touches what it is asked to and nothing else. The existing entries
  keep their places and their names; entries that are not \<open>KEY=VALUE\<close> are kept as they are; a
  variable that is not overridden keeps its values; and every entry of an overridden variable, of
  which there is at least one, holds the expansion of the last value asked for, computed from the
  environment as it was before any override.
\<close>

theorem env_overrides:
  "let out = applyEnvOverrides iter existing desired in
     map env_key (take (length existing) out) = map env_key existing
   \<and> filter (\<lambda>e. split_env e = None) out = filter (\<lambda>e. split_env e = None) existing
   \<and> (\<forall>k. if values_of k desired = [] then values_of k out = values_of k existing
           else values_of k out \<noteq> []
             \<and> set (values_of k out) \<subseteq>
                {override_value (iter n (env_map existing)) (last (values_of k desired)) | n. True})"
proof (cases "desired = []")
  case True
  then show ?thesis by (simp add: applyEnvOverrides_def)
next
  case False
  obtain out seen where o: "override_existing iter (env_map desired) (env_map existing) 0 existing = (out, seen)"
    by fastforce
  let ?new = "append_new iter (env_map desired) (env_map existing) seen (length existing) (env_order desired)"
  have eq: "applyEnvOverrides iter existing desired = out @ ?new"
    using False o by (simp add: applyEnvOverrides_def Let_def)
  note spec = override_existing_spec [OF o]
  have new: "filter (\<lambda>e. split_env e = None) ?new = []
    \<and> (values_of k ?new \<noteq> [] \<longleftrightarrow> k \<in> set (env_order desired) \<and> k \<notin> set seen)
    \<and> (\<forall>w \<in> set (values_of k ?new). \<exists>n. w = override_value (iter n (env_map existing))
         (case map_of (env_map desired) k of Some v \<Rightarrow> v | None \<Rightarrow> []))" for k
    by (rule append_new_values) (rule env_order_key)
  have key: "if values_of k desired = [] then values_of k (out @ ?new) = values_of k existing
           else values_of k (out @ ?new) \<noteq> []
             \<and> set (values_of k (out @ ?new)) \<subseteq>
                {override_value (iter n (env_map existing)) (last (values_of k desired)) | n. True}" for k
  proof (cases "values_of k desired = []")
    case True
    then show ?thesis using spec new [of k] by (simp add: env_map_last env_order_iff)
  next
    case False
    then have d: "map_of (env_map desired) k = Some (last (values_of k desired))" by (simp add: env_map_last)
    have "values_of k (out @ ?new) \<noteq> []"
      using spec new [of k] override_values_of [OF o d] False d by (auto simp: env_order_iff)
    moreover have "\<exists>n. w = override_value (iter n (env_map existing)) (last (values_of k desired))"
      if "w \<in> set (values_of k (out @ ?new))" for w
      using that spec new [of k] d by (auto simp: Let_def)
    ultimately show ?thesis using False by auto
  qed
  show ?thesis
    unfolding Let_def eq
  proof (intro conjI allI)
    show "map env_key (take (length existing) (out @ ?new)) = map env_key existing" using spec by simp
    show "filter (\<lambda>e. split_env e = None) (out @ ?new) = filter (\<lambda>e. split_env e = None) existing"
      using spec new by simp
  qed (rule key)
qed

text \<open>The iteration order in which the map happens to hold its entries.\<close>

definition stored_order :: iteration where
  "stored_order n m = m"

theorem env_overrides_witness:
  "applyEnvOverrides stored_order [''PATH=/bin'', ''HOME=/'', ''?''] [''PATH=/app:${PATH}'', ''X=$HOME'']
     = [''PATH=/app:/bin'', ''HOME=/'', ''?'', ''X=/'']
   \<and> set (values_of ''X'' (applyEnvOverrides stored_order [''PATH=/bin'', ''HOME=/'', ''?'']
         [''PATH=/app:${PATH}'', ''X=$HOME'']))
     \<subseteq> {override_value (stored_order n (env_map [''PATH=/bin'', ''HOME=/'', ''?''])) ''$HOME'' | n. True}"
proof -
  have v: "values_of ''X'' [''PATH=/app:${PATH}'', ''X=$HOME''] = [''$HOME'']" by code_simp
  have "applyEnvOverrides stored_order [''PATH=/bin'', ''HOME=/'', ''?''] [''PATH=/app:${PATH}'', ''X=$HOME'']
     = [''PATH=/app:/bin'', ''HOME=/'', ''?'', ''X=/'']"
    by code_simp
  moreover have "set (values_of ''X'' (applyEnvOverrides stored_order [''PATH=/bin'', ''HOME=/'', ''?'']
         [''PATH=/app:${PATH}'', ''X=$HOME'']))
     \<subseteq> {override_value (stored_order n (env_map [''PATH=/bin'', ''HOME=/'', ''?''])) ''$HOME'' | n. True}"
    using env_overrides [of stored_order "[''PATH=/bin'', ''HOME=/'', ''?'']" "[''PATH=/app:${PATH}'', ''X=$HOME'']",
        unfolded Let_def, THEN conjunct2, THEN conjunct2, THEN spec [of _ "''X''"]]
    by (simp only: v list.distinct if_False last.simps simp_thms if_True)
  ultimately show ?thesis by blast
qed



text \<open>
  Elsewhere it is not. With a value that mentions another variable the result depends on the order
  in which the map is ranged over: expansion is sometimes recursive and sometimes not.
\<close>

theorem substitution_order_matters:
  "map_of [(''A'', ''${B}''), (''B'', ''x'')] = map_of [(''B'', ''x''), (''A'', ''${B}'')]
   \<and> substitutePlaceholders [(''A'', ''${B}''), (''B'', ''x'')] ''${A}'' = ''x''
   \<and> substitutePlaceholders [(''B'', ''x''), (''A'', ''${B}'')] ''${A}'' = ''${B}''"
proof (intro conjI)
  show "map_of [(''A'', ''${B}''), (''B'', ''x'')] = map_of [(''B'', ''x''), (''A'', ''${B}'')]"
    by (simp add: fun_eq_iff)
qed code_simp+

text \<open>A new variable asked for twice is appended twice, with its last value both times.\<close>

lemma env_duplicate_keys: "applyEnvOverrides iter [] [''A=1'', ''A=2''] = [''A=2'', ''A=2'']"
  by (simp add: applyEnvOverrides_def env_map_def env_order_def split_env_def has_prefix_def
      override_value_def substitutePlaceholders_def str_contains_def braced_def)

end
