(* ===== verification/Append_Image.thy ===== *)
theory Append_Image
  imports Multi_Index App_Env
begin

text \<open>
  The appender (\<open>pkg/appender/appender_remote.go\<close>, \<open>appender_delta.go\<close>): one base image, the layers put
  on top of it, its config, the push. An annotator is a function on images and the layer cache is the
  function that \<open>WrapImage\<close> is. Progress reports are log output: of the updates only their errors count.
\<close>

section \<open>The appender and its settings\<close>

record 'img Appender =
  ap_baseRef :: reference
  ap_baseConfig :: RegistryConfig
  ap_tagRef :: reference
  ap_annotators :: "('img \<Rightarrow> 'img) list"
  ap_envs :: "string list"
  ap_entrypoint :: "string list"
  ap_args :: "string list"
  ap_workdir :: string
  ap_skipPush :: bool
  ap_pushLock :: bool  \<comment> \<open>whether there is one\<close>
  ap_layerCache :: "('img \<Rightarrow> 'img) option"

definition appender_New :: "reference \<Rightarrow> RegistryConfig \<Rightarrow> reference \<Rightarrow> go_err + 'img Appender" where
  "appender_New baseRef baseConfig tagRef =
     Inr \<lparr>ap_baseRef = baseRef, ap_baseConfig = baseConfig, ap_tagRef = tagRef, ap_annotators = [],
          ap_envs = [], ap_entrypoint = [], ap_args = [], ap_workdir = '''', ap_skipPush = False,
          ap_pushLock = False, ap_layerCache = None\<rparr>"

definition WithAnnotate :: "('img \<Rightarrow> 'img) \<Rightarrow> 'img Appender \<Rightarrow> 'img Appender" where
  "WithAnnotate annotate c = c\<lparr>ap_annotators := ap_annotators c @ [annotate]\<rparr>"

definition WithEnvs :: "string list \<Rightarrow> 'img Appender \<Rightarrow> 'img Appender" where
  "WithEnvs envs c = c\<lparr>ap_envs := envs\<rparr>"

definition WithEntrypointArgs :: "string list \<Rightarrow> string list \<Rightarrow> 'img Appender \<Rightarrow> 'img Appender" where
  "WithEntrypointArgs entrypoint args c = c\<lparr>ap_entrypoint := entrypoint, ap_args := args\<rparr>"

definition WithWorkdir :: "string \<Rightarrow> 'img Appender \<Rightarrow> 'img Appender" where
  "WithWorkdir workdir c = c\<lparr>ap_workdir := workdir\<rparr>"

definition WithSkipPush :: "bool \<Rightarrow> 'img Appender \<Rightarrow> 'img Appender" where
  "WithSkipPush skip c = c\<lparr>ap_skipPush := skip\<rparr>"

definition WithPushLock :: "'img Appender \<Rightarrow> 'img Appender" where
  "WithPushLock c = c\<lparr>ap_pushLock := True\<rparr>"

definition WithCache :: "('img \<Rightarrow> 'img) \<Rightarrow> 'img Appender \<Rightarrow> 'img Appender" where
  "WithCache lc c = c\<lparr>ap_layerCache := Some lc\<rparr>"

definition getPushConfig :: "'img Appender \<Rightarrow> RegistryConfig" where
  "getPushConfig c = ap_baseConfig c"

section \<open>The added layers (appender\_delta.go)\<close>

record AppendResultLayer =
  al_mediaType :: string
  al_size :: i64
  al_digest :: Hash
  al_platform :: "Platform option"

definition layer_Descriptor :: "AppendResultLayer \<Rightarrow> v1_descriptor" where
  "layer_Descriptor l =
     \<lparr>vd_mediaType = al_mediaType l, vd_size = al_size l, vd_digest = al_digest l,
      vd_platform = al_platform l, vd_annotations = None\<rparr>"

definition getManifestLayer :: "v1_descriptor \<Rightarrow> AppendResultLayer" where
  "getManifestLayer layer =
     \<lparr>al_mediaType = vd_mediaType layer, al_size = vd_size layer, al_digest = vd_digest layer,
      al_platform = vd_platform layer\<rparr>"

text \<open>The loop of \<open>getLayersDelta\<close> at index \<open>i\<close>.\<close>

fun delta_from :: "nat \<Rightarrow> nat \<Rightarrow> v1_descriptor list \<Rightarrow> AppendResultLayer list" where
  "delta_from baseLayers i [] = []"
| "delta_from baseLayers i (layer # ls) =
     (if i \<ge> baseLayers then getManifestLayer layer # delta_from baseLayers (Suc i) ls
      else delta_from baseLayers (Suc i) ls)"

definition getLayersDelta :: "v1_manifest \<Rightarrow> v1_manifest \<Rightarrow> go_err + AppendResultLayer list" where
  "getLayersDelta base result = Inr (delta_from (length (mn_layers base)) 0 (mn_layers result))"

definition getLayersDeltaForImages ::
  "('img, 'idx, 'l, 'w) ggcr \<Rightarrow> 'img \<Rightarrow> 'img \<Rightarrow> go_err + AppendResultLayer list" where
  "getLayersDeltaForImages G base result =
     (case gg_img_manifest G base of
        Inl e \<Rightarrow> Inl (Msg e)
      | Inr baseManifest \<Rightarrow>
          (case gg_img_manifest G result of
             Inl e \<Rightarrow> Inl (Msg e)
           | Inr resultManifest \<Rightarrow> getLayersDelta baseManifest resultManifest))"

section \<open>Append\<close>

record 'img AppendResult =
  ar_hash :: Hash
  ar_pushed :: "'img addendum"
  ar_added :: "AppendResultLayer list"

definition appender_base :: "('img, 'idx, 'l, 'w) ggcr \<Rightarrow> 'img Appender \<Rightarrow> ('img, 'w) bst \<Rightarrow> ('img, 'img, 'w) bres" where
  "appender_base G c s =
     (let ref = ap_baseRef c in
      case gg_image G (ap_baseConfig c) ref (bs_world s) of
        (Inl e, w) \<Rightarrow> (Inl (Err (Wrap (''pulling '' @ rf_string ref) (Msg e))), emit (EvImage ref) w s)
      | (Inr base, w) \<Rightarrow>
          (let s1 = emit (EvImage ref) w s in
           case gg_img_mediaType G base of
             Inl e \<Rightarrow> (Inl (Err (Wrap ''getting base image media type'' (Msg e))), s1)
           | Inr mediaType \<Rightarrow>
               (if mediaType \<noteq> OCIManifestSchema1
                then (Inl (Err (Msg (''currently non-OCI manifests are de-supported, got: '' @ mediaType))), s1)
                else (Inr (case ap_layerCache c of None \<Rightarrow> base | Some wrap_image \<Rightarrow> wrap_image base), s1))))"

text \<open>The overrides of the config; whenever the block is entered, something is modified.\<close>

definition overridden :: "iteration \<Rightarrow> 'img Appender \<Rightarrow> image_config \<Rightarrow> image_config" where
  "overridden iter c cfg =
     (let cfg = (if ap_envs c \<noteq> [] then cfg\<lparr>ic_env := applyEnvOverrides iter (ic_env cfg) (ap_envs c)\<rparr> else cfg);
          cfg = (if ap_entrypoint c \<noteq> [] then cfg\<lparr>ic_entrypoint := ap_entrypoint c\<rparr> else cfg);
          cfg = (if ap_args c \<noteq> [] then cfg\<lparr>ic_cmd := ap_args c\<rparr> else cfg)
      in if ap_workdir c \<noteq> '''' then cfg\<lparr>ic_workingDir := ap_workdir c\<rparr> else cfg)"

definition override_config ::
  "('img, 'idx, 'l, 'w) ggcr \<Rightarrow> iteration \<Rightarrow> 'img Appender \<Rightarrow> 'img \<Rightarrow> go_err + 'img" where
  "override_config G iter c img =
     (if ap_envs c \<noteq> [] \<or> ap_entrypoint c \<noteq> [] \<or> ap_args c \<noteq> [] \<or> ap_workdir c \<noteq> '''' then
        (case gg_img_config G img of
           Inl e \<Rightarrow> Inl (Msg e)
         | Inr cfg \<Rightarrow>
             (case gg_set_config G img (overridden iter c (cff_config cfg)) of
                Inl e \<Rightarrow> Inl (Msg e) | Inr i \<Rightarrow> Inr i))
      else Inr img)"

text \<open>
  What \<open>push\<close> returns: the first value of the error channel. The loop over the updates stops at the
  first update with an error and puts that error into the channel.
\<close>

definition push_outcome :: "write_run \<Rightarrow> string option" where
  "push_outcome run =
     (case find (\<lambda>u. u \<noteq> None) (wr_updates run) of
        None \<Rightarrow> wr_err run
      | Some u \<Rightarrow> if wr_first run then wr_err run else u)"

definition appender_push ::
  "('img, 'idx, 'l, 'w) ggcr \<Rightarrow> 'img Appender \<Rightarrow> 'img \<Rightarrow> ('img, 'w) bst \<Rightarrow> (unit, 'img, 'w) bres" where
  "appender_push G c img s =
     (case gg_img_mediaType G img of
        Inl e \<Rightarrow> (Inl (Err (Msg e)), s)
      | Inr mediaType \<Rightarrow>
          (case gg_write G (getPushConfig c) (ap_tagRef c) img (bs_world s) of
             (run, w) \<Rightarrow>
               ((case push_outcome run of None \<Rightarrow> Inr () | Some e \<Rightarrow> Inl (Err (Msg e))),
                emit (EvWrite (ap_tagRef c) img) w s)))"

text \<open>The end of \<open>Append\<close>, after the push.\<close>

definition append_result ::
  "('img, 'idx, 'l, 'w) ggcr \<Rightarrow> 'img \<Rightarrow> config_file \<Rightarrow> 'img \<Rightarrow> Hash \<Rightarrow> go_err + 'img AppendResult" where
  "append_result G base baseConfig img imgDigest =
     (case getLayersDeltaForImages G base img of
        Inl e \<Rightarrow> Inl e
      | Inr delta \<Rightarrow>
          Inr \<lparr>ar_hash = imgDigest,
               ar_pushed = \<lparr>ad_add = img, ad_descriptor = \<lparr>vd_mediaType = OCIManifestSchema1, vd_size = 0,
                 vd_digest = imgDigest, vd_platform = cff_platform baseConfig, vd_annotations = None\<rparr>\<rparr>,
               ar_added = delta\<rparr>)"

text \<open>
  From the push on: \<open>release\<close> is deferred, so it runs when \<open>Append\<close> returns, on every path after a
  successful \<open>Acquire\<close>.
\<close>

definition push_and_finish ::
  "('img, 'idx, 'l, 'w) ggcr \<Rightarrow> 'img Appender \<Rightarrow> 'img \<Rightarrow> config_file \<Rightarrow> 'img \<Rightarrow> Hash \<Rightarrow> ('img, 'w) bst \<Rightarrow>
   ('img AppendResult, 'img, 'w) bres" where
  "push_and_finish G c base baseConfig img imgDigest s =
     (case (if \<not> ap_skipPush c then appender_push G c img s else (Inr (), s)) of
        (Inl e, s1) \<Rightarrow> (Inl e, s1)
      | (Inr _, s1) \<Rightarrow>
          (case append_result G base baseConfig img imgDigest of
             Inl e \<Rightarrow> (Inl (Err e), s1)
           | Inr r \<Rightarrow> (Inr r, s1)))"

definition locked_finish ::
  "('img, 'idx, 'l, 'w) ggcr \<Rightarrow> 'img Appender \<Rightarrow> 'img \<Rightarrow> config_file \<Rightarrow> 'img \<Rightarrow> Hash \<Rightarrow> ('img, 'w) bst \<Rightarrow>
   ('img AppendResult, 'img, 'w) bres" where
  "locked_finish G c base baseConfig img imgDigest s =
     (if \<not> ap_skipPush c \<and> ap_pushLock c then
        (case gg_acquire G (bs_world s) of
           (Some e, w) \<Rightarrow> (Inl (Err (Msg e)), s\<lparr>bs_world := w\<rparr>)
         | (None, w) \<Rightarrow>
             (case push_and_finish G c base baseConfig img imgDigest (emit EvAcquire w s) of
                (r, s1) \<Rightarrow> (r, emit EvRelease (gg_release G (bs_world s1)) s1)))
      else push_and_finish G c base baseConfig img imgDigest s)"

definition Append ::
  "('img, 'idx, 'l, 'w) ggcr \<Rightarrow> 'img Appender \<Rightarrow> 'l list \<Rightarrow> ('img, 'w) bst \<Rightarrow> ('img AppendResult, 'img, 'w) bres" where
  "Append G c layers s =
     (case appender_base G c s of
        (Inl e, s1) \<Rightarrow> (Inl e, s1)
      | (Inr base, s1) \<Rightarrow>
     (case gg_img_config G base of
        Inl e \<Rightarrow> (Inl (Err (Msg e)), s1)
      | Inr baseConfig \<Rightarrow>
     (case gg_append_layers G base layers of
        Inl e \<Rightarrow> (Inl (Err (Msg e)), s1)
      | Inr img \<Rightarrow>
     (case override_config G (gg_iter G (bs_world s1)) c img of
        Inl e \<Rightarrow> (Inl (Err e), s1)
      | Inr img \<Rightarrow>
     (let img = fold (\<lambda>annotate i. annotate i) (ap_annotators c) img in
      case gg_img_digest G img of
        Inl e \<Rightarrow> (Inl (Err (Msg e)), s1)
      | Inr imgDigest \<Rightarrow> locked_finish G c base baseConfig img imgDigest s1)))))"

section \<open>What Append does\<close>

lemma delta_from_drop: "delta_from n i ls = map getManifestLayer (drop (n - i) ls)"
  by (induction ls arbitrary: i) (auto simp: drop_Cons' Suc_diff_le)

lemma bs_simps [simp]:
  "bs_events (emit e w s) = bs_events s @ [e]" "bs_world (emit e w s) = w"
  by (simp_all add: emit_def)

text \<open>
  \<open>locked_writes held es\<close>: the events take and give back the lock in turn, end without it, write images
  only while it is held and put manifests only while it is not.
\<close>

fun locked_writes :: "bool \<Rightarrow> 'img event list \<Rightarrow> bool" where
  "locked_writes held [] = (\<not> held)"
| "locked_writes held (EvAcquire # es) = (\<not> held \<and> locked_writes True es)"
| "locked_writes held (EvRelease # es) = (held \<and> locked_writes False es)"
| "locked_writes held (EvWrite r i # es) = (held \<and> locked_writes held es)"
| "locked_writes held (EvPut r t # es) = (\<not> held \<and> locked_writes held es)"
| "locked_writes held (e # es) = locked_writes held es"

lemma locked_writes_append:
  "locked_writes h as \<Longrightarrow> locked_writes False bs \<Longrightarrow> locked_writes h (as @ bs)"
  by (induction h as rule: locked_writes.induct) auto

interpretation locked: trace_class "locked_writes False"
  by unfold_locales (auto intro: locked_writes_append)

text \<open>The events of one \<open>Append\<close> that gets as far as the push.\<close>

definition push_events :: "'img Appender \<Rightarrow> 'img \<Rightarrow> 'img event list" where
  "push_events c img =
     (if ap_skipPush c then []
      else if ap_pushLock c then [EvAcquire, EvWrite (ap_tagRef c) img, EvRelease]
      else [EvWrite (ap_tagRef c) img])"

lemma appender_base_events:
  "appender_base G c s = (r, s1) \<Longrightarrow> bs_events s1 = bs_events s @ [EvImage (ap_baseRef c)]"
  by (auto simp: appender_base_def Let_def split: prod.splits sum.splits if_splits)

lemma appender_push_events:
  "appender_push G c img s = (r, s1) \<Longrightarrow>
   bs_events s1 = bs_events s \<and> (\<exists>e. r = Inl e) \<or> bs_events s1 = bs_events s @ [EvWrite (ap_tagRef c) img]"
  by (auto simp: appender_push_def split: prod.splits sum.splits)

lemma push_and_finish_events:
  assumes "push_and_finish G c base cfg img d s = (r, s1)"
  shows "bs_events s1 = bs_events s \<and> (ap_skipPush c \<or> (\<exists>e. r = Inl e)) \<or>
    \<not> ap_skipPush c \<and> bs_events s1 = bs_events s @ [EvWrite (ap_tagRef c) img]"
  using assms by (auto simp: push_and_finish_def split: prod.splits sum.splits if_splits
      dest!: appender_push_events)

lemma locked_finish_events:
  assumes "locked_finish G c base cfg img d s = (r, s1)"
  shows "\<exists>es. bs_events s1 = bs_events s @ es \<and> (es = push_events c img \<or> (\<exists>e. r = Inl e) \<and>
    (es = [] \<or> \<not> ap_skipPush c \<and> ap_pushLock c \<and> es = [EvAcquire, EvRelease]))"
  using assms push_and_finish_events
  by (fastforce simp: locked_finish_def push_events_def split: prod.splits option.splits if_splits)

lemma Append_events:
  assumes "Append G c layers s = (r, s')"
  shows "\<exists>es. bs_events s' = bs_events s @ EvImage (ap_baseRef c) # es
    \<and> ((\<exists>img. es = push_events c img) \<or> (\<exists>e. r = Inl e) \<and>
        (es = [] \<or> \<not> ap_skipPush c \<and> ap_pushLock c \<and> es = [EvAcquire, EvRelease]))"
proof -
  obtain s1 base where s1: "appender_base G c s = (base, s1)" by fastforce
  note ev = appender_base_events [OF s1]
  from assms s1 consider "s' = s1" "\<exists>e. r = Inl e"
    | img b cfg d where "locked_finish G c b cfg img d s1 = (r, s')"
    by (auto simp: Append_def Let_def split: sum.splits)
  then show ?thesis
  proof cases
    case 1
    with ev show ?thesis by auto
  next
    case 2
    from locked_finish_events [OF this] ev show ?thesis by auto
  qed
qed

lemma Append_locked:
  assumes "Append G c layers s = (r, s')" "ap_pushLock c"
  shows "along (locked_writes False) s s'"
  unfolding along_def using Append_events [OF assms(1)] assms(2) by (fastforce simp: push_events_def)

lemma Append_skip_quiet:
  assumes "Append G c layers s = (r, s')" "ap_skipPush c"
  shows "quiet s s'"
  using Append_events [OF assms(1)] assms(2) by (fastforce simp: push_events_def along_def silent_def)

section \<open>The resulting image\<close>

text \<open>
  What \<open>mutate\<close> and the annotators are documented to keep of an image: appending layers adds their
  descriptors at the end and keeps the config, replacing the config keeps the layers, an annotation
  keeps both.
\<close>

definition keeps_image :: "('img, 'idx, 'l, 'w) ggcr \<Rightarrow> ('img \<Rightarrow> 'img) \<Rightarrow> bool" where
  "keeps_image G f \<longleftrightarrow> (\<forall>i. gg_img_config G (f i) = gg_img_config G i
     \<and> map_sum id mn_layers (gg_img_manifest G (f i)) = map_sum id mn_layers (gg_img_manifest G i))"

definition mutate_laws :: "('img, 'idx, 'l, 'w) ggcr \<Rightarrow> bool" where
  "mutate_laws G \<longleftrightarrow>
     (\<forall>i ls i' m. gg_append_layers G i ls = Inr i' \<longrightarrow> gg_img_config G i' = gg_img_config G i
        \<and> (gg_img_manifest G i = Inr m \<longrightarrow> (\<exists>ds. length ds = length ls
             \<and> map_sum id mn_layers (gg_img_manifest G i') = Inr (mn_layers m @ ds))))
     \<and> (\<forall>i c i' cf. gg_set_config G i c = Inr i' \<longrightarrow>
          map_sum id mn_layers (gg_img_manifest G i') = map_sum id mn_layers (gg_img_manifest G i)
          \<and> (gg_img_config G i = Inr cf \<longrightarrow> gg_img_config G i' = Inr (cf\<lparr>cff_config := c\<rparr>)))"

lemma map_sum_Inr:
  "map_sum f g x = Inr y \<longleftrightarrow> (\<exists>z. x = Inr z \<and> y = g z)" "Inr y = map_sum f g x \<longleftrightarrow> (\<exists>z. x = Inr z \<and> y = g z)"
  by (cases x; auto)+

lemma fold_keeps:
  "list_all (keeps_image G) fs \<Longrightarrow> gg_img_config G (fold (\<lambda>f i. f i) fs i) = gg_img_config G i
   \<and> map_sum id mn_layers (gg_img_manifest G (fold (\<lambda>f i. f i) fs i)) = map_sum id mn_layers (gg_img_manifest G i)"
  by (induction fs arbitrary: i) (simp_all add: keeps_image_def)

lemma overridden_none:
  "ap_envs c = [] \<Longrightarrow> ap_entrypoint c = [] \<Longrightarrow> ap_args c = [] \<Longrightarrow> ap_workdir c = [] \<Longrightarrow> overridden iter c cfg = cfg"
  by (simp add: overridden_def)

lemma override_config_effect:
  assumes "mutate_laws G" "override_config G iter c img = Inr img'" "gg_img_config G img = Inr cf"
  shows "gg_img_config G img' = Inr (cf\<lparr>cff_config := overridden iter c (cff_config cf)\<rparr>)
    \<and> map_sum id mn_layers (gg_img_manifest G img') = map_sum id mn_layers (gg_img_manifest G img)"
  using assms by (auto simp: override_config_def mutate_laws_def overridden_none split: if_splits sum.splits)

lemma append_result_Inr:
  "append_result G base cfg img d = Inr r \<Longrightarrow> ar_hash r = d \<and> ad_add (ar_pushed r) = img
   \<and> ad_descriptor (ar_pushed r) = \<lparr>vd_mediaType = OCIManifestSchema1, vd_size = 0, vd_digest = d,
        vd_platform = cff_platform cfg, vd_annotations = None\<rparr>
   \<and> (\<exists>mb mi. gg_img_manifest G base = Inr mb \<and> gg_img_manifest G img = Inr mi
        \<and> ar_added r = map getManifestLayer (drop (length (mn_layers mb)) (mn_layers mi)))"
  by (auto simp: append_result_def getLayersDeltaForImages_def getLayersDelta_def delta_from_drop split: sum.splits)

lemma finish_Inr:
  assumes "locked_finish G c base cfg img d s = (Inr r, s')"
  shows "append_result G base cfg img d = Inr r \<and> bs_events s' = bs_events s @ push_events c img"
proof
  show "append_result G base cfg img d = Inr r"
    using assms by (auto simp: locked_finish_def push_and_finish_def split: if_splits option.splits prod.splits sum.splits)
  show "bs_events s' = bs_events s @ push_events c img"
    using locked_finish_events [OF assms] by auto
qed

lemma Append_Inr_events:
  assumes "Append G c layers s = (Inr r, s')"
  shows "bs_events s' = bs_events s @ EvImage (ap_baseRef c) # push_events c (ad_add (ar_pushed r))"
proof -
  obtain base s1 cfg img d where base: "appender_base G c s = (Inr base, s1)"
      and fin: "locked_finish G c base cfg img d s1 = (Inr r, s')"
    using assms by (auto simp: Append_def Let_def split: prod.splits sum.splits)
  have "ad_add (ar_pushed r) = img"
    using append_result_Inr [OF conjunct1 [OF finish_Inr [OF fin]]] by simp
  then show ?thesis
    using finish_Inr [OF fin] appender_base_events [OF base] by simp
qed


definition toy_appender :: "toy_img Appender" where
  "toy_appender =
     \<lparr>ap_baseRef = \<lparr>rf_string = ''b'', rf_isDigest = True, rf_registry = ''r'', rf_repository = ''app'', rf_identifier = ''sha256:b''\<rparr>,
      ap_baseConfig = \<lparr>rc_insecure = False\<rparr>,
      ap_tagRef = \<lparr>rf_string = ''t'', rf_isDigest = False, rf_registry = ''r'', rf_repository = ''app'', rf_identifier = ''v1''\<rparr>,
      ap_annotators = [], ap_envs = [''A=1''], ap_entrypoint = [], ap_args = [''serve''], ap_workdir = '''',
      ap_skipPush = False, ap_pushLock = True, ap_layerCache = None\<rparr>"

lemma toy_mutate_laws: "mutate_laws toy_ggcr"
  by (auto simp: mutate_laws_def toy_ggcr_def)


end
