(* ===== verification/Contain_Run.thy ===== *)
theory Contain_Run
  imports Append_Image
begin

text \<open>
  A build from its config (\<open>pkg/contain/libcontain.go\<close>) and the local output (\<open>pkg/contain/output.go\<close>).
  The writers of go-containerregistry's \<open>tarball\<close> and \<open>layout\<close> packages are parameters; a writer that
  is given a nil image ends the process (\<open>Exit\<close>). Layers are built from a file system that does not
  change during the build.
\<close>

section \<open>Local output (output.go)\<close>

record ('img, 'idx, 'w) out_lib =
  ol_tarball :: "string \<Rightarrow> reference \<Rightarrow> 'img \<Rightarrow> 'w \<Rightarrow> string option \<times> 'w"
  ol_tarballs :: "string \<Rightarrow> (reference \<times> 'img) list \<Rightarrow> 'w \<Rightarrow> string option \<times> 'w"
  ol_idx_image :: "'idx \<Rightarrow> Hash \<Rightarrow> string + 'img"
  ol_layout :: "string \<Rightarrow> 'w \<Rightarrow> string option \<times> 'w"  \<comment> \<open>\<open>layout.Write(path, empty.Index)\<close>\<close>
  ol_append_image :: "string \<Rightarrow> 'img \<Rightarrow> (string \<times> string) list \<Rightarrow> 'w \<Rightarrow> string option \<times> 'w"
  ol_append_index :: "string \<Rightarrow> 'idx \<Rightarrow> (string \<times> string) list \<Rightarrow> 'w \<Rightarrow> string option \<times> 'w"

definition FormatTarball :: string where "FormatTarball = ''tarball''"
definition FormatOCI :: string where "FormatOCI = ''oci''"

text \<open>An effect of a writer: its error, if any, is the result.\<close>

definition write_file :: "string \<Rightarrow> ('w \<Rightarrow> string option \<times> 'w) \<Rightarrow> ('img, 'w) bst \<Rightarrow> (unit, 'img, 'w) bres" where
  "write_file path f s =
     (case f (bs_world s) of
        (None, w) \<Rightarrow> (Inr (), emit (EvFile path) w s)
      | (Some e, w) \<Rightarrow> (Inl (Err (Msg e)), emit (EvFile path) w s))"

text \<open>The two loops over the manifests: the first is kept under the tag, the others under their digests.\<close>

fun digest_images ::
  "('img, 'idx, 'l, 'w) ggcr \<Rightarrow> ('img, 'idx, 'w) out_lib \<Rightarrow> 'idx \<Rightarrow> reference \<Rightarrow> v1_descriptor list \<Rightarrow>
   (reference \<times> 'img) list \<Rightarrow> go_err + (reference \<times> 'img) list" where
  "digest_images G OL idx ref [] m = Inr m"
| "digest_images G OL idx ref (d # ds) m =
     (case ol_idx_image OL idx (vd_digest d) of
        Inl e \<Rightarrow> Inl (Wrap (''reading image '' @ gg_hash_string G (vd_digest d) @ '' from index'') (Msg e))
      | Inr img \<Rightarrow> digest_images G OL idx ref ds (AList.update (gg_digest_ref G ref (vd_digest d)) img m))"

definition index_images ::
  "('img, 'idx, 'l, 'w) ggcr \<Rightarrow> ('img, 'idx, 'w) out_lib \<Rightarrow> 'idx \<Rightarrow> reference \<Rightarrow> v1_descriptor list \<Rightarrow>
   go_err + (reference \<times> 'img) list" where
  "index_images G OL idx ref ds =
     (case ds of
        [] \<Rightarrow> Inr []
      | d # rest \<Rightarrow>
          (case ol_idx_image OL idx (vd_digest d) of
             Inl e \<Rightarrow> Inl (Wrap (''reading image '' @ gg_hash_string G (vd_digest d) @ '' from index'') (Msg e))
           | Inr img \<Rightarrow> digest_images G OL idx ref rest [(ref, img)]))"

definition writeIndexTarball ::
  "('img, 'idx, 'l, 'w) ggcr \<Rightarrow> ('img, 'idx, 'w) out_lib \<Rightarrow> string \<Rightarrow> reference \<Rightarrow> 'idx \<Rightarrow> ('img, 'w) bst \<Rightarrow>
   (unit, 'img, 'w) bres" where
  "writeIndexTarball G OL path ref idx s =
     (case gg_idx_manifest G idx of
        Inl e \<Rightarrow> (Inl (Err (Wrap ''reading index manifest'' (Msg e))), s)
      | Inr indexManifest \<Rightarrow>
          (case index_images G OL idx ref (im_manifests indexManifest) of
             Inl e \<Rightarrow> (Inl (Err e), s)
           | Inr refToImage \<Rightarrow> write_file path (ol_tarballs OL path refToImage) s))"

definition writeTarball ::
  "('img, 'idx, 'l, 'w) ggcr \<Rightarrow> ('img, 'idx, 'w) out_lib \<Rightarrow> string \<Rightarrow> reference \<Rightarrow> 'img option \<Rightarrow> 'idx option \<Rightarrow>
   ('img, 'w) bst \<Rightarrow> (unit, 'img, 'w) bres" where
  "writeTarball G OL path ref img idx s =
     (case idx of
        Some x \<Rightarrow> writeIndexTarball G OL path ref x s
      | None \<Rightarrow>
          (case img of
             None \<Rightarrow> (Inl (Exit ''nil pointer dereference''), s)
           | Some i \<Rightarrow> write_file path (ol_tarball OL path ref i) s))"

definition ref_annotation :: "reference \<Rightarrow> (string \<times> string) list" where
  "ref_annotation ref = [(''org.opencontainers.image.ref.name'', rf_string ref)]"

text \<open>\<open>writeIndexOCI\<close> and the rest of \<open>writeOCI\<close> differ in what is appended.\<close>

definition write_layout ::
  "('img, 'idx, 'w) out_lib \<Rightarrow> string \<Rightarrow> ('w \<Rightarrow> string option \<times> 'w) \<Rightarrow> ('img, 'w) bst \<Rightarrow> (unit, 'img, 'w) bres" where
  "write_layout OL path add s =
     (case ol_layout OL path (bs_world s) of
        (Some e, w) \<Rightarrow> (Inl (Err (Wrap (''creating OCI layout at '' @ path) (Msg e))), emit (EvFile path) w s)
      | (None, w) \<Rightarrow> write_file path add (s\<lparr>bs_world := w\<rparr>))"

definition writeIndexOCI ::
  "('img, 'idx, 'w) out_lib \<Rightarrow> string \<Rightarrow> reference \<Rightarrow> 'idx \<Rightarrow> ('img, 'w) bst \<Rightarrow> (unit, 'img, 'w) bres" where
  "writeIndexOCI OL path ref idx s = write_layout OL path (ol_append_index OL path idx (ref_annotation ref)) s"

definition writeOCI ::
  "('img, 'idx, 'w) out_lib \<Rightarrow> string \<Rightarrow> reference \<Rightarrow> 'img option \<Rightarrow> 'idx option \<Rightarrow> ('img, 'w) bst \<Rightarrow>
   (unit, 'img, 'w) bres" where
  "writeOCI OL path ref img idx s =
     (case idx of
        Some x \<Rightarrow> writeIndexOCI OL path ref x s
      | None \<Rightarrow>
          (case img of
             None \<Rightarrow> (Inl (Exit ''nil pointer dereference''), s)
           | Some i \<Rightarrow> write_layout OL path (ol_append_image OL path i (ref_annotation ref)) s))"

definition writeOutput ::
  "('img, 'idx, 'l, 'w) ggcr \<Rightarrow> ('img, 'idx, 'w) out_lib \<Rightarrow> string \<Rightarrow> string \<Rightarrow> reference \<Rightarrow> 'img option \<Rightarrow>
   'idx option \<Rightarrow> ('img, 'w) bst \<Rightarrow> (unit, 'img, 'w) bres" where
  "writeOutput G OL format path ref img idx s =
     (if format = FormatOCI then writeOCI OL path ref img idx s
      else if format = FormatTarball then writeTarball G OL path ref img idx s
      else (Inl (Err (Msg (''unsupported output format: '' @ format))), s))"

section \<open>A run (libcontain.go)\<close>

record 'img WriteOptions =
  wo_push :: bool
  wo_outputPath :: string
  wo_outputFormat :: string
  wo_pushLock :: bool
  wo_layerCache :: "('img \<Rightarrow> 'img) option"

text \<open>Everything a run uses of its environment but the network.\<close>

record ('img, 'idx, 'l, 'w) tools =
  ts_ggcr :: "('img, 'idx, 'l, 'w) ggcr"
  ts_build :: "'l build_lib"
  ts_out :: "('img, 'idx, 'w) out_lib"
  ts_fs :: fs
  ts_baseOverride :: string  \<comment> \<open>the variable that \<open>NewBaseImageAnnotations\<close> reads\<close>

text \<open>The loop that builds all layers of all platforms into the map \<open>layersByPlatform\<close>.\<close>

fun build_platforms ::
  "'l build_lib \<Rightarrow> fs \<Rightarrow> 'l builder list \<Rightarrow> Platform list \<Rightarrow> (string \<times> 'l list) list \<Rightarrow>
   stop + (string \<times> 'l list) list" where
  "build_platforms B F builders [] m = Inr m"
| "build_platforms B F builders (p # ps) m =
     (case Build B builders p F of
        Inl e \<Rightarrow> Inl e
      | Inr built \<Rightarrow> build_platforms B F builders ps (AList.update (pl_string (bl_platforms B) p) built m))"

definition layers_of :: "(string \<times> 'l list) list \<Rightarrow> string \<Rightarrow> 'l list" where
  "layers_of m p = (case map_of m p of None \<Rightarrow> [] | Some ls \<Rightarrow> ls)"

definition config_envs :: "Env list \<Rightarrow> string list" where
  "config_envs es = map (\<lambda>e. en_name e @ ''='' @ en_value e) (filter (\<lambda>e. en_name e \<noteq> '''') es)"

text \<open>The appender of \<open>each\<close> with its settings; an error of the annotations is only logged.\<close>

definition configured_appender ::
  "('img, 'idx, 'l, 'w) tools \<Rightarrow> ContainConfig \<Rightarrow> 'img WriteOptions \<Rightarrow> 'img Appender \<Rightarrow> 'img Appender" where
  "configured_appender T config opts a =
     (let a = WithSkipPush (\<not> wo_push opts) a;
          a = (if wo_pushLock opts then WithPushLock a else a);
          a = (case wo_layerCache opts of None \<Rightarrow> a | Some lc \<Rightarrow> WithCache lc a);
          a = (if cf_env config \<noteq> [] then WithEnvs (config_envs (cf_env config)) a else a);
          a = (if cf_entrypoint config \<noteq> [] \<or> cf_args config \<noteq> []
               then WithEntrypointArgs (cf_entrypoint config) (cf_args config) a else a);
          a = (if cf_workingDir config \<noteq> '''' then WithWorkdir (cf_workingDir config) a else a)
      in case NewBaseImageAnnotations (ts_ggcr T) (ts_baseOverride T) (cf_base config) of
           Inl e \<Rightarrow> a
         | Inr ann \<Rightarrow> WithAnnotate (\<lambda>img. gg_annotate (ts_ggcr T) img ann) a)"

definition run_each ::
  "('img, 'idx, 'l, 'w) tools \<Rightarrow> ContainConfig \<Rightarrow> 'img WriteOptions \<Rightarrow> (string \<times> 'l list) list \<Rightarrow>
   ('img, 'w) each_append" where
  "run_each T config opts layersByPlatform b t tr platform s =
     (case appender_New b tr t of
        Inl e \<Rightarrow> (Inl (Err e), s)
      | Inr a \<Rightarrow>
          (case Append (ts_ggcr T) (configured_appender T config opts a)
                  (layers_of layersByPlatform (pl_string (bl_platforms (ts_build T)) platform)) s of
             (Inl e, s1) \<Rightarrow> (Inl e, s1)
           | (Inr r, s1) \<Rightarrow> (Inr (ar_pushed r), s1)))"

text \<open>The checks before anything is pushed, and the layers.\<close>

definition prepare ::
  "('img, 'idx, 'l, 'w) tools \<Rightarrow> ContainConfig \<Rightarrow> 'l builder list \<Rightarrow> 'idx IndexManifests \<Rightarrow>
   stop + (string \<times> 'l list) list" where
  "prepare T config builders index =
     (let PL = bl_platforms (ts_build T) in
      case MatchedPlatforms index of
        Inl e \<Rightarrow> Inl e
      | Inr targetPlatforms \<Rightarrow>
     (case UnmatchedPlatforms PL (cf_platforms config) targetPlatforms of
        Inl e \<Rightarrow> Inl (Err e)
      | Inr unmatched \<Rightarrow>
     (if length unmatched > 0
      then Inl (Err (Msg (''platforms '' @ go_list unmatched @ '' matched no manifest in base '' @ cf_base config
             @ '', which has '' @ go_list (BasePlatforms index))))
      else
     (case ValidateLayers PL config targetPlatforms of
        Inl e \<Rightarrow> Inl (Err e)
      | Inr _ \<Rightarrow> build_platforms (ts_build T) (ts_fs T) builders targetPlatforms []))))"

text \<open>The single image: its artifact and the image.\<close>

definition run_single ::
  "('img, 'idx, 'l, 'w) tools \<Rightarrow> ContainConfig \<Rightarrow> ('img, 'w) each_append \<Rightarrow> reference \<Rightarrow> RegistryConfig \<Rightarrow>
   'idx IndexManifests \<Rightarrow> ('img, 'w) bst \<Rightarrow> ('img \<times> Artifact, 'img, 'w) bres" where
  "run_single T config each tag reg index s =
     (case GetPrototypeBase index of
        Inl e \<Rightarrow> (Inl e, s)
      | Inr prototypeBase \<Rightarrow>
     (case PrototypePlatform index of
        Inl e \<Rightarrow> (Inl e, s)
      | Inr platform \<Rightarrow>
     (case each prototypeBase tag reg platform s of
        (Inl e, s1) \<Rightarrow> (Inl e, s1)
      | (Inr pushedAdd, s1) \<Rightarrow>
     (case gg_img_digest (ts_ggcr T) (ad_add pushedAdd) of
        Inl e \<Rightarrow> (Inl (Err (Msg e)), s1)
      | Inr h \<Rightarrow>
     (case NewSingleImage (ts_ggcr T) (rf_string tag) h (ad_add pushedAdd)
             (vd_platform (ad_descriptor pushedAdd)) (cf_base config) of
        Inl e \<Rightarrow> (Inl e, s1)
      | Inr result \<Rightarrow> (Inr (ad_add pushedAdd, result), s1))))))"

definition run_images ::
  "('img, 'idx, 'l, 'w) tools \<Rightarrow> ContainConfig \<Rightarrow> 'img WriteOptions \<Rightarrow> (string \<times> 'l list) list \<Rightarrow> reference \<Rightarrow>
   RegistryConfig \<Rightarrow> 'idx IndexManifests \<Rightarrow> ('img, 'w) bst \<Rightarrow>
   ('img option \<times> 'idx option \<times> Artifact, 'img, 'w) bres" where
  "run_images T config opts layersByPlatform tag reg index s =
     (let each = run_each T config opts layersByPlatform in
      if SizeAppend index > 1 then
       (case BuildWithAppend (ts_ggcr T) (bl_platforms (ts_build T)) index each tag reg (wo_push opts) s of
          (Inl e, s1) \<Rightarrow> (Inl e, s1)
        | (Inr (idx, result), s1) \<Rightarrow> (Inr (None, Some idx, result), s1))
      else
       (case run_single T config each tag reg index s of
          (Inl e, s1) \<Rightarrow> (Inl e, s1)
        | (Inr (img, result), s1) \<Rightarrow> (Inr (Some img, None, result), s1)))"

definition run_output ::
  "('img, 'idx, 'l, 'w) tools \<Rightarrow> 'img WriteOptions \<Rightarrow> reference \<Rightarrow> 'img option \<Rightarrow> 'idx option \<Rightarrow> Artifact \<Rightarrow>
   ('img, 'w) bst \<Rightarrow> (BuildOutput, 'img, 'w) bres" where
  "run_output T opts tag img idx result s =
     (case (if wo_outputPath opts \<noteq> '''' then
              writeOutput (ts_ggcr T) (ts_out T)
                (if wo_outputFormat opts = '''' then FormatTarball else wo_outputFormat opts)
                (wo_outputPath opts) tag img idx s
            else (Inr (), s)) of
        (Inl e, s1) \<Rightarrow> (Inl e, s1)
      | (Inr _, s1) \<Rightarrow>
          (case NewBuildOutput (ts_ggcr T) (rf_string tag) (Some result) of
             Inl e \<Rightarrow> (Inl (Err e), s1)
           | Inr out \<Rightarrow> (Inr out, s1)))"

definition RunAppend ::
  "('img, 'idx, 'l, 'w) tools \<Rightarrow> ContainConfig \<Rightarrow> 'l builder list \<Rightarrow> 'img WriteOptions \<Rightarrow> ('img, 'w) bst \<Rightarrow>
   (BuildOutput, 'img, 'w) bres" where
  "RunAppend T config builders opts s =
     (case registry_New config of
        Inl e \<Rightarrow> (Inl (Err e), s)
      | Inr reg \<Rightarrow>
     (if cf_tag config = '''' then (Inl (Exit ''requires config tag''), s)
      else
     (case gg_parse_ref (ts_ggcr T) (cf_tag config) of
        Inl e \<Rightarrow> (Inl (Err (Msg e)), s)
      | Inr tag \<Rightarrow>
     (case NewFromMultiArchBase (ts_ggcr T) (bl_platforms (ts_build T)) config reg s of
        (Inl e, s1) \<Rightarrow> (Inl e, s1)
      | (Inr index, s1) \<Rightarrow>
     (case prepare T config builders index of
        Inl e \<Rightarrow> (Inl e, s1)
      | Inr layersByPlatform \<Rightarrow>
     (case run_images T config opts layersByPlatform tag reg index s1 of
        (Inl e, s2) \<Rightarrow> (Inl e, s2)
      | (Inr (img, idx, result), s2) \<Rightarrow> run_output T opts tag img idx result s2))))))"

definition contain_Run ::
  "('img, 'idx, 'l, 'w) tools \<Rightarrow> ContainConfig \<Rightarrow> ('img, 'w) bst \<Rightarrow> (Artifact, 'img, 'w) bres" where
  "contain_Run T config s =
     (case RunLayers (ts_build T) (cf_layers config) of
        Inl e \<Rightarrow> (Inl e, s)
      | Inr builders \<Rightarrow>
          (case RunAppend T config builders \<lparr>wo_push = True, wo_outputPath = '''', wo_outputFormat = '''',
                  wo_pushLock = False, wo_layerCache = None\<rparr> s of
             (Inl e, s1) \<Rightarrow> (Inl e, s1)
           | (Inr output, s1) \<Rightarrow>
               (case bo_builds output of
                  Some (a # as) \<Rightarrow> (Inr a, s1)
                | _ \<Rightarrow> (Inl (Err (Msg ''no build output available'')), s1))))"

section \<open>Traces of a run\<close>

context trace_class
begin

lemma write_file: "write_file path f s = (r, s') \<Longrightarrow> along ok s s'"
  by (auto simp: write_file_def split: prod.splits option.splits)

lemma write_layout: "write_layout OL path add s = (r, s') \<Longrightarrow> along ok s s'"
  using write_file by (fastforce simp: write_layout_def split: prod.splits option.splits)

lemma writeOutput: "writeOutput G OL format path ref img idx s = (r, s') \<Longrightarrow> along ok s s'"
  by (auto simp: writeOutput_def writeOCI_def writeIndexOCI_def writeTarball_def writeIndexTarball_def
      split: if_splits option.splits sum.splits intro: write_layout write_file)

lemma run_output: "run_output T opts tag img idx result s = (r, s') \<Longrightarrow> along ok s s'"
  by (auto simp: run_output_def split: if_splits prod.splits sum.splits dest: writeOutput)

lemma run_images:
  assumes "\<And>b p s r s'. run_each T config opts m b tag reg p s = (r, s') \<Longrightarrow> along ok s s'"
    and "\<And>t. wo_push opts \<Longrightarrow> ok [EvPut tag t]"
    and "run_images T config opts m tag reg index s = (r, s')"
  shows "along ok s s'"
proof -
  have build: "BuildWithAppend G PL index (run_each T config opts m) tag reg (wo_push opts) s = (q, s') \<Longrightarrow> along ok s s'"
    for G PL q
    by (rule BuildWithAppend [where each = "run_each T config opts m" and tag = tag and reg = reg])
      (use assms(1,2) in auto)
  show ?thesis
    using assms(3)
    by (auto simp: run_images_def run_single_def Let_def split: if_splits prod.splits sum.splits
        dest!: build assms(1))
qed

lemma RunAppend:
  assumes "\<And>m b tag reg p s r s'. run_each T config opts m b tag reg p s = (r, s') \<Longrightarrow> along ok s s'"
    and "\<And>tag t. wo_push opts \<Longrightarrow> ok [EvPut tag t]"
    and "RunAppend T config builders opts s = (r, s')"
  shows "along ok s s'"
proof -
  have images: "run_images T config opts m tag reg index s1 = (q, s2) \<Longrightarrow> along ok s1 s2" for m tag reg index s1 q s2
    by (rule run_images) (use assms(1,2) in auto)
  show ?thesis
    using assms(3)
    by (auto simp: RunAppend_def split: if_splits prod.splits sum.splits
        dest!: NewFromMultiArchBase images run_output intro: trans)
qed

end

lemma configured_fields:
  assumes "appender_New b reg tag = Inr a"
  shows "ap_baseRef (configured_appender T config opts a) = b"
    "ap_tagRef (configured_appender T config opts a) = tag"
    "ap_skipPush (configured_appender T config opts a) = (\<not> wo_push opts)"
    "ap_pushLock (configured_appender T config opts a) = wo_pushLock opts"
  using assms
  by (auto simp: configured_appender_def appender_New_def WithSkipPush_def WithPushLock_def WithCache_def
      WithEnvs_def WithEntrypointArgs_def WithWorkdir_def WithAnnotate_def Let_def split: sum.splits option.splits)

text \<open>The call of \<open>each\<close> as the \<open>Append\<close> that it is.\<close>

lemma run_each_Append:
  assumes "run_each T config opts m b tag reg p s = (r, s')"
  shows "\<exists>c q. Append (ts_ggcr T) c (layers_of m (pl_string (bl_platforms (ts_build T)) p)) s = (q, s')
    \<and> c = configured_appender T config opts (projr (appender_New b reg tag))
    \<and> r = map_sum id ar_pushed q
    \<and> ap_baseRef c = b \<and> ap_tagRef c = tag \<and> ap_skipPush c = (\<not> wo_push opts) \<and> ap_pushLock c = wo_pushLock opts"
  using assms configured_fields
  by (fastforce simp: run_each_def appender_New_def split: prod.splits sum.splits)

lemma RunAppend_quiet:
  assumes "RunAppend T config builders opts s = (r, s')" and "\<not> wo_push opts"
  shows "quiet s s'"
proof -
  have "quiet s s'" if "run_each T config opts m b tag reg p s = (r, s')" for m b tag reg p s r s'
    using run_each_Append [OF that] Append_skip_quiet assms(2) by blast
  then show ?thesis using quiet.RunAppend [OF _ _ assms(1)] assms(2) by blast
qed

lemma RunAppend_locked:
  assumes "RunAppend T config builders opts s = (r, s')" and "wo_pushLock opts"
  shows "along (locked_writes False) s s'"
proof -
  have "along (locked_writes False) s s'" if "run_each T config opts m b tag reg p s = (r, s')" for m b tag reg p s r s'
    using run_each_Append [OF that] Append_locked assms(2) by blast
  then show ?thesis using locked.RunAppend [OF _ _ assms(1)] by simp
qed

text \<open>
  C31: pushing and locking are as the options say. Without \<open>Push\<close> a run changes no registry. With a lock
  every image is written while the run holds the lock, the lock is given back after every image, on
  errors too, and is never taken twice; the index, however, is put while the lock is free.
\<close>

theorem push_options_respected:
  assumes "RunAppend T config builders opts s = (r, s')"
  shows "(\<not> wo_push opts \<longrightarrow> quiet s s') \<and> (wo_pushLock opts \<longrightarrow> along (locked_writes False) s s')"
  using RunAppend_quiet [OF assms] RunAppend_locked [OF assms] by blast

section \<open>Before the first push\<close>

lemma build_platforms_all:
  "build_platforms B F bs ps m = Inr m' \<Longrightarrow> p \<in> set ps \<Longrightarrow> \<exists>ls. Build B bs p F = Inr ls"
  by (induction ps arbitrary: m) (auto split: sum.splits)

lemma build_platforms_other:
  "build_platforms B F bs ps m = Inr m' \<Longrightarrow> k \<notin> pl_string (bl_platforms B) ` set ps \<Longrightarrow> map_of m' k = map_of m k"
  by (induction ps arbitrary: m) (auto simp: update_conv' split: sum.splits)

lemma build_platforms_layers:
  "build_platforms B F bs ps m = Inr m' \<Longrightarrow> inj_on (pl_string (bl_platforms B)) (set ps) \<Longrightarrow> p \<in> set ps \<Longrightarrow>
   Build B bs p F = Inr (layers_of m' (pl_string (bl_platforms B) p))"
proof (induction ps arbitrary: m)
  case (Cons q ps)
  then obtain ls where ls: "Build B bs q F = Inr ls"
      "build_platforms B F bs ps (AList.update (pl_string (bl_platforms B) q) ls m) = Inr m'"
    by (auto split: sum.splits)
  show ?case
  proof (cases "p \<in> set ps")
    case True
    with Cons ls show ?thesis by (auto simp: inj_on_insert)
  next
    case False
    with Cons.prems have "p = q" "pl_string (bl_platforms B) q \<notin> pl_string (bl_platforms B) ` set ps"
      by auto
    then show ?thesis using build_platforms_other [OF ls(2)] ls(1) by (simp add: layers_of_def update_conv')
  qed
qed simp

lemma UnmatchedPlatforms_none:
  assumes "UnmatchedPlatforms PL cs ps = Inr []" "c \<in> set cs"
  shows "\<exists>w. pl_parse PL c = Inr w \<and> (\<exists>p \<in> set ps. Equal PL p w)"
proof -
  obtain ws where "parse_all PL cs = Inr ws"
    using assms by (cases cs) (auto simp: UnmatchedPlatforms_def ParseConfigPlatforms_def split: sum.splits)
  then obtain w where "pl_parse PL c = Inr w"
    using assms(2) parse_all_nth by (metis in_set_conv_nth)
  moreover have "c \<notin> set []" by simp
  ultimately show ?thesis
    using UnmatchedPlatforms_iff [OF assms(1), of c] assms(2) by auto
qed

lemma prepare_Inr:
  assumes "prepare T config builders index = Inr m"
  shows "\<exists>ps. MatchedPlatforms index = Inr ps
    \<and> UnmatchedPlatforms (bl_platforms (ts_build T)) (cf_platforms config) ps = Inr []
    \<and> ValidateLayers (bl_platforms (ts_build T)) config ps = Inr ()
    \<and> build_platforms (ts_build T) (ts_fs T) builders ps [] = Inr m"
  using assms by (auto simp: prepare_def Let_def split: sum.splits if_splits)

text \<open>
  C29: nothing is published unless everything is in place. If a run changed any registry, on success or
  on failure, then by then the base index had been read and every platform of the config had a match
  among the target platforms, every layer had a source for every target platform, and every layer of
  every target platform had been built.
\<close>

theorem nothing_pushed_unprepared:
  assumes "RunAppend T config builders opts s = (r, s')" and "\<not> quiet s s'"
  shows "\<exists>reg index s1 ps. registry_New config = Inr reg
    \<and> NewFromMultiArchBase (ts_ggcr T) (bl_platforms (ts_build T)) config reg s = (Inr index, s1)
    \<and> quiet s s1 \<and> MatchedPlatforms index = Inr ps
    \<and> (\<forall>c \<in> set (cf_platforms config). \<exists>w. pl_parse (bl_platforms (ts_build T)) c = Inr w
         \<and> (\<exists>p \<in> set ps. Equal (bl_platforms (ts_build T)) p w))
    \<and> (\<forall>layer \<in> set (cf_layers config). layer_ok (bl_platforms (ts_build T)) ps layer)
    \<and> (\<forall>p \<in> set ps. \<exists>ls. list_all2 (\<lambda>b l. b p (ts_fs T) = Inr l) builders ls)"
proof -
  obtain reg index s1 m where
      reg: "registry_New config = Inr reg" and base: "NewFromMultiArchBase (ts_ggcr T) (bl_platforms (ts_build T)) config reg s = (Inr index, s1)"
      and prep: "prepare T config builders index = Inr m"
    using assms by (auto simp: RunAppend_def split: if_splits prod.splits sum.splits
        dest!: quiet.NewFromMultiArchBase)
  from prepare_Inr [OF prep] obtain ps where ps: "MatchedPlatforms index = Inr ps"
      "UnmatchedPlatforms (bl_platforms (ts_build T)) (cf_platforms config) ps = Inr []"
      "ValidateLayers (bl_platforms (ts_build T)) config ps = Inr ()"
      "build_platforms (ts_build T) (ts_fs T) builders ps [] = Inr m"
    by blast
  have "\<forall>layer \<in> set (cf_layers config). layer_ok (bl_platforms (ts_build T)) ps layer"
    using ps(3) by (auto simp: ValidateLayers_ok split: if_splits)
  moreover have "\<forall>p \<in> set ps. \<exists>ls. list_all2 (\<lambda>b l. b p (ts_fs T) = Inr l) builders ls"
    using build_platforms_all [OF ps(4)] by (simp add: Build_def build_from_Inr)
  ultimately show ?thesis
    using reg base quiet.NewFromMultiArchBase [OF base] ps(1) UnmatchedPlatforms_none [OF ps(2)] by blast
qed

section \<open>What is published\<close>

definition image_events :: "'img WriteOptions \<Rightarrow> reference \<Rightarrow> reference \<Rightarrow> 'img \<Rightarrow> 'img event list" where
  "image_events opts tag b img =
     EvImage b # (if \<not> wo_push opts then []
       else if wo_pushLock opts then [EvAcquire, EvWrite tag img, EvRelease] else [EvWrite tag img])"

lemma run_each_Inr:
  assumes "run_each T config opts m b tag reg p s = (Inr a, s')"
  shows "bs_events s' = bs_events s @ image_events opts tag b (ad_add a)
    \<and> (\<exists>q u v. Append (ts_ggcr T) (configured_appender T config opts (projr (appender_New b reg tag)))
          (layers_of m (pl_string (bl_platforms (ts_build T)) p)) u = (Inr q, v) \<and> a = ar_pushed q)"
proof -
  from run_each_Append [OF assms] obtain c r where
      app: "Append (ts_ggcr T) c (layers_of m (pl_string (bl_platforms (ts_build T)) p)) s = (Inr r, s')"
      and c: "c = configured_appender T config opts (projr (appender_New b reg tag))"
        "ap_baseRef c = b" "ap_tagRef c = tag" "ap_skipPush c = (\<not> wo_push opts)" "ap_pushLock c = wo_pushLock opts"
      and a: "a = ar_pushed r"
    by (auto simp: map_sum_Inr)
  have "bs_events s' = bs_events s @ EvImage b # push_events c (ad_add a)"
    using Append_Inr_events [OF app] a c(2) by simp
  then show ?thesis
    using app a c unfolding image_events_def push_events_def by auto
qed

lemma append_all_Inr:
  assumes "\<And>b p s a s'. each b tag reg p s = (Inr a, s') \<Longrightarrow> bs_events s' = bs_events s @ evs b a \<and> Q b p a"
  shows "append_all each tag reg cs s = (Inr adds, s') \<Longrightarrow>
    bs_events s' = bs_events s @ concat (map2 (\<lambda>t a. evs (ta_base t) a) cs adds)
    \<and> list_all2 (\<lambda>t a. \<exists>p. vd_platform (ta_meta t) = Some p \<and> Q (ta_base t) p a) cs adds"
proof (induction cs arbitrary: s adds)
  case (Cons c cs)
  then obtain p a s1 as where step: "vd_platform (ta_meta c) = Some p" "each (ta_base c) tag reg p s = (Inr a, s1)"
      "append_all each tag reg cs s1 = (Inr as, s')" "adds = a # as"
    by (auto split: if_splits option.splits prod.splits sum.splits)
  from Cons.IH [OF step(3)] assms [OF step(2)] step(1,4) show ?case by auto
qed simp

lemma BuildWithAppend_Inr:
  assumes "BuildWithAppend G PL m each tag reg True s = (Inr (idx, a), s')"
  shows "\<exists>adds s1 t. append_all each tag reg (ix_toAppend m) s = (Inr adds, s1)
    \<and> gg_append_manifests G (ix_indexStart m) adds = Some idx \<and> NewTaggableIndex G idx = Inr t
    \<and> bs_events s' = bs_events s1 @ [EvPut tag t] \<and> gg_idx_digest G idx = Inr (af_hash a)"
  using assms
  by (auto simp: BuildWithAppend_def NewIndexImage_def newRef_def
      split: sum.splits option.splits if_splits prod.splits)

lemma run_output_Inr:
  "run_output T opts tag img idx a s = (Inr out, s') \<Longrightarrow> bo_builds out = Some [a]"
  by (auto simp: run_output_def NewBuildOutput_def Let_def split: if_splits prod.splits sum.splits)

lemma run_multi:
  assumes run: "RunAppend T config builders opts s = (Inr out, s')" and push: "wo_push opts"
    and reg: "registry_New config = Inr reg"
    and base: "NewFromMultiArchBase (ts_ggcr T) (bl_platforms (ts_build T)) config reg s = (Inr index, s1)"
    and many: "SizeAppend index > 1"
  shows "\<exists>tag m x a s2 adds s3 t. gg_parse_ref (ts_ggcr T) (cf_tag config) = Inr tag
    \<and> prepare T config builders index = Inr m
    \<and> append_all (run_each T config opts m) tag reg (ix_toAppend index) s1 = (Inr adds, s3)
    \<and> gg_append_manifests (ts_ggcr T) (ix_indexStart index) adds = Some x \<and> NewTaggableIndex (ts_ggcr T) x = Inr t
    \<and> bs_events s2 = bs_events s3 @ [EvPut tag t] \<and> gg_idx_digest (ts_ggcr T) x = Inr (af_hash a)
    \<and> run_output T opts tag None (Some x) a s2 = (Inr out, s')"
proof -
  obtain tag m img idx a s2 where tag: "gg_parse_ref (ts_ggcr T) (cf_tag config) = Inr tag"
      and prep: "prepare T config builders index = Inr m"
      and imgs: "run_images T config opts m tag reg index s1 = (Inr (img, idx, a), s2)"
      and outp: "run_output T opts tag img idx a s2 = (Inr out, s')"
    using run reg base by (auto simp: RunAppend_def split: if_splits prod.splits sum.splits)
  obtain x where build: "BuildWithAppend (ts_ggcr T) (bl_platforms (ts_build T)) index (run_each T config opts m) tag reg True s1
      = (Inr (x, a), s2)" and "img = None" "idx = Some x"
    using imgs many push by (auto simp: run_images_def Let_def split: prod.splits sum.splits)
  with BuildWithAppend_Inr [OF build] tag prep outp show ?thesis by blast
qed

lemma run_multi_puts:
  assumes "RunAppend T config builders opts s = (Inr out, s')" "wo_push opts" "registry_New config = Inr reg"
    "NewFromMultiArchBase (ts_ggcr T) (bl_platforms (ts_build T)) config reg s = (Inr index, s1)" "SizeAppend index > 1"
  shows "\<exists>tag t. EvPut tag t \<in> set (bs_events s')"
proof -
  from run_multi [OF assms] obtain tag x a s2 t es where "bs_events s2 = es @ [EvPut tag t]"
      "run_output T opts tag None (Some x) a s2 = (Inr out, s')"
    by blast
  with quiet.run_output show ?thesis by (fastforce simp: along_def)
qed


section \<open>A run\<close>

definition toy_out :: "(toy_img, toy_idx, nat) out_lib" where
  "toy_out = \<lparr>ol_tarball = (\<lambda>path r i w. (None, Suc w)), ol_tarballs = (\<lambda>path m w. (None, Suc w)),
     ol_idx_image = (\<lambda>x h. Inl ''missing''), ol_layout = (\<lambda>path w. (None, Suc w)),
     ol_append_image = (\<lambda>path i a w. (None, Suc w)), ol_append_index = (\<lambda>path x a w. (None, Suc w))\<rparr>"

definition toy_tools :: "(toy_img, toy_idx, toy_layer, nat) tools" where
  "toy_tools = \<lparr>ts_ggcr = toy_ggcr, ts_build = toy_build, ts_out = toy_out, ts_fs = two_files ''B'', ts_baseOverride = ''''\<rparr>"

definition toy_options :: "toy_img WriteOptions" where
  "toy_options = \<lparr>wo_push = True, wo_outputPath = ''out'', wo_outputFormat = ''oci'', wo_pushLock = True, wo_layerCache = None\<rparr>"

text \<open>Nothing fails in the toy registry, so a run of a valid config succeeds.\<close>

lemma toy_Append: "\<exists>q s'. Append toy_ggcr c ls s = (Inr q, s')"
  by (simp add: Append_def appender_base_def toy_ggcr_def Let_def override_config_def locked_finish_def
      push_and_finish_def appender_push_def append_result_def getLayersDeltaForImages_def getLayersDelta_def
      push_outcome_def split: option.split)

lemma toy_each: "\<exists>a s'. run_each toy_tools config opts m b t reg p s = (Inr a, s')"
proof -
  obtain c :: "toy_img Appender" where c: "appender_New b reg t = Inr c" by (simp add: appender_New_def)
  obtain q s' where "Append toy_ggcr (configured_appender toy_tools config opts c) (layers_of m (pl_string toy_platforms p)) s = (Inr q, s')"
    using toy_Append by blast
  with c show ?thesis by (simp add: run_each_def toy_tools_def toy_build_def)
qed

lemma toy_append_all:
  "list_all (\<lambda>c. vd_digest (ta_meta c) = noDigestYet \<and> vd_platform (ta_meta c) \<noteq> None) cs \<Longrightarrow>
   \<exists>adds s'. append_all (run_each toy_tools config opts m) t reg cs s = (Inr adds, s')"
proof (induction cs arbitrary: s)
  case (Cons c cs)
  then obtain p where p: "vd_digest (ta_meta c) = noDigestYet" "vd_platform (ta_meta c) = Some p" by auto
  obtain a s1 where "run_each toy_tools config opts m (ta_base c) t reg p s = (Inr a, s1)"
    using toy_each by blast
  with p Cons.IH [of s1] Cons.prems show ?case by auto
qed simp

lemma toy_run:
  assumes "NewFromMultiArchBase toy_ggcr toy_platforms config reg s = (Inr ix, s1)" "registry_New config = Inr reg"
    "list_all (\<lambda>c. vd_digest (ta_meta c) = noDigestYet \<and> vd_platform (ta_meta c) \<noteq> None) (ix_toAppend ix)"
    "SizeAppend ix > 1" "rf_string (ix_baseRef ix) \<noteq> ''''" "cf_tag config \<noteq> ''''"
    "prepare toy_tools config builders ix = Inr m"
    "wo_outputFormat opts = ''oci''"
  shows "\<exists>out s'. RunAppend toy_tools config builders opts s = (Inr out, s')"
proof -
  obtain tag where tag: "toy_parse_ref (cf_tag config) = Inr tag" "rf_string tag \<noteq> ''''"
    using assms(6) by (simp add: toy_parse_ref_def)
  obtain adds s2 where all: "append_all (run_each toy_tools config opts m) tag reg (ix_toAppend ix) s1 = (Inr adds, s2)"
    using toy_append_all [OF assms(3)] by blast
  have G: "ts_ggcr toy_tools = toy_ggcr" "bl_platforms (ts_build toy_tools) = toy_platforms" "ts_out toy_tools = toy_out"
    by (simp_all add: toy_tools_def toy_build_def)
  have "\<exists>idx a s3. BuildWithAppend toy_ggcr toy_platforms ix (run_each toy_tools config opts m) tag reg (wo_push opts) s1 = (Inr (idx, a), s3)"
    using all tag(2) assms(5)
    by (simp add: BuildWithAppend_def NewTaggableIndex_def NewIndexImage_def newRef_def toy_ggcr_def toy_parse_ref_def)
  then obtain idx a s3 where
    images: "run_images toy_tools config opts m tag reg ix s1 = (Inr (None, Some idx, a), s3)"
    using assms(4) G by (auto simp: run_images_def Let_def assms(8))
  have "\<exists>out s4. run_output toy_tools opts tag None (Some idx) a s3 = (Inr out, s4)"
    by (simp add: run_output_def G assms(8) writeOutput_def writeOCI_def writeIndexOCI_def write_layout_def
        write_file_def toy_out_def FormatOCI_def NewBuildOutput_def Let_def)
  with images assms tag G show ?thesis by (simp add: RunAppend_def toy_ggcr_def)
qed

definition toy_config :: ContainConfig where
  "toy_config = plain_config [''linux/amd64'', ''linux/arm64''] [per_platform]"

lemma toy_start_facts:
  "\<exists>builders ix s1 m. RunLayers toy_build (cf_layers toy_config) = Inr builders
     \<and> registry_New toy_config = Inr \<lparr>rc_insecure = False\<rparr>
     \<and> NewFromMultiArchBase toy_ggcr toy_platforms toy_config \<lparr>rc_insecure = False\<rparr> toy_start = (Inr ix, s1)
     \<and> list_all (\<lambda>c. vd_digest (ta_meta c) = noDigestYet \<and> vd_platform (ta_meta c) \<noteq> None) (ix_toAppend ix)
     \<and> SizeAppend ix = 2 \<and> rf_string (ix_baseRef ix) \<noteq> ''''
     \<and> MatchedPlatforms ix = Inr [plat ''linux'' ''amd64'' '''', plat ''linux'' ''arm64'' ''v8'']
     \<and> prepare toy_tools toy_config builders ix = Inr m"
proof -
  have run: "(case RunLayers toy_build (cf_layers toy_config) of Inl e \<Rightarrow> False | Inr builders \<Rightarrow>
      (case NewFromMultiArchBase toy_ggcr toy_platforms toy_config \<lparr>rc_insecure = False\<rparr> toy_start of
         (Inl e, s) \<Rightarrow> False
       | (Inr ix, s) \<Rightarrow>
          list_all (\<lambda>c. vd_digest (ta_meta c) = noDigestYet \<and> vd_platform (ta_meta c) \<noteq> None) (ix_toAppend ix)
          \<and> SizeAppend ix = 2 \<and> rf_string (ix_baseRef ix) \<noteq> ''''
          \<and> MatchedPlatforms ix = Inr [plat ''linux'' ''amd64'' '''', plat ''linux'' ''arm64'' ''v8'']
          \<and> (case prepare toy_tools toy_config builders ix of Inl e \<Rightarrow> False | Inr m \<Rightarrow> True)))"
    by code_simp
  then obtain builders where b: "RunLayers toy_build (cf_layers toy_config) = Inr builders"
    by (cases "RunLayers toy_build (cf_layers toy_config)") simp_all
  then obtain ix s1 where ix: "NewFromMultiArchBase toy_ggcr toy_platforms toy_config \<lparr>rc_insecure = False\<rparr> toy_start = (Inr ix, s1)"
    using run by (cases "NewFromMultiArchBase toy_ggcr toy_platforms toy_config \<lparr>rc_insecure = False\<rparr> toy_start"; cases "fst (NewFromMultiArchBase toy_ggcr toy_platforms toy_config \<lparr>rc_insecure = False\<rparr> toy_start)") simp_all
  then obtain m where "prepare toy_tools toy_config builders ix = Inr m"
    using run b by (cases "prepare toy_tools toy_config builders ix") simp_all
  moreover have "registry_New toy_config = Inr \<lparr>rc_insecure = False\<rparr>" by code_simp
  ultimately show ?thesis using run b ix by simp
qed

lemma toy_run_runs:
  assumes "wo_outputFormat opts = ''oci''"
  obtains builders ix s1 out s' where "RunLayers toy_build (cf_layers toy_config) = Inr builders"
    "registry_New toy_config = Inr \<lparr>rc_insecure = False\<rparr>"
    "NewFromMultiArchBase toy_ggcr toy_platforms toy_config \<lparr>rc_insecure = False\<rparr> toy_start = (Inr ix, s1)"
    "SizeAppend ix = 2"
    "MatchedPlatforms ix = Inr [plat ''linux'' ''amd64'' '''', plat ''linux'' ''arm64'' ''v8'']"
    "RunAppend toy_tools toy_config builders opts toy_start = (Inr out, s')"
proof -
  obtain builders ix s1 m where f: "RunLayers toy_build (cf_layers toy_config) = Inr builders"
      "registry_New toy_config = Inr \<lparr>rc_insecure = False\<rparr>"
      "NewFromMultiArchBase toy_ggcr toy_platforms toy_config \<lparr>rc_insecure = False\<rparr> toy_start = (Inr ix, s1)"
      "list_all (\<lambda>c. vd_digest (ta_meta c) = noDigestYet \<and> vd_platform (ta_meta c) \<noteq> None) (ix_toAppend ix)"
      "SizeAppend ix = 2" "rf_string (ix_baseRef ix) \<noteq> ''''"
      "MatchedPlatforms ix = Inr [plat ''linux'' ''amd64'' '''', plat ''linux'' ''arm64'' ''v8'']"
      "prepare toy_tools toy_config builders ix = Inr m"
    using toy_start_facts by blast
  obtain out s' where "RunAppend toy_tools toy_config builders opts toy_start = (Inr out, s')"
    using toy_run [OF f(3,2,4) _ f(6) _ f(8) assms] f(5) by (auto simp: toy_config_def plain_config_def)
  with f that show ?thesis by blast
qed

lemma toy_tools_simps [simp]:
  "ts_ggcr toy_tools = toy_ggcr" "ts_build toy_tools = toy_build" "bl_platforms toy_build = toy_platforms"
  by (simp_all add: toy_tools_def toy_build_def)


theorem nothing_pushed_unprepared_witness:
  "\<exists>builders out s'. RunAppend toy_tools toy_config builders toy_options toy_start = (Inr out, s')
     \<and> layer_ok toy_platforms [plat ''linux'' ''amd64'' '''', plat ''linux'' ''arm64'' ''v8''] per_platform"
proof -
  obtain builders ix s1 out s' where f: "registry_New toy_config = Inr \<lparr>rc_insecure = False\<rparr>"
      "NewFromMultiArchBase toy_ggcr toy_platforms toy_config \<lparr>rc_insecure = False\<rparr> toy_start = (Inr ix, s1)"
      "SizeAppend ix = 2" "MatchedPlatforms ix = Inr [plat ''linux'' ''amd64'' '''', plat ''linux'' ''arm64'' ''v8'']"
      "RunAppend toy_tools toy_config builders toy_options toy_start = (Inr out, s')"
    by (rule toy_run_runs [of toy_options]) (simp_all add: toy_options_def)
  have "wo_push toy_options" "SizeAppend ix > 1" using f(3) by (simp_all add: toy_options_def)
  then obtain tag t where "EvPut tag t \<in> set (bs_events s')"
    using run_multi_puts [of toy_tools toy_config builders toy_options toy_start out s' _ ix s1] f(1,2,5) by auto
  then have "\<not> quiet toy_start s'" by (force simp: along_def silent_def list_all_iff toy_start_def)
  from nothing_pushed_unprepared [OF f(5) this] obtain reg index s1' ps where
      n: "registry_New toy_config = Inr reg" "NewFromMultiArchBase toy_ggcr toy_platforms toy_config reg toy_start = (Inr index, s1')"
      "MatchedPlatforms index = Inr ps" "\<forall>layer \<in> set (cf_layers toy_config). layer_ok toy_platforms ps layer"
    by auto
  with n f show ?thesis by (auto simp: toy_config_def plain_config_def)
qed

theorem push_options_respected_witness:
  "\<exists>builders out s'. RunAppend toy_tools toy_config builders toy_options toy_start = (Inr out, s')
     \<and> along (locked_writes False) toy_start s'"
proof -
  obtain builders out s' where run: "RunAppend toy_tools toy_config builders toy_options toy_start = (Inr out, s')"
    by (rule toy_run_runs [of toy_options]) (simp_all add: toy_options_def)
  with push_options_respected [OF run] show ?thesis by (auto simp: toy_options_def)
qed

end
