(* ===== verification/Layer_Cache.thy ===== *)
theory Layer_Cache
  imports Platforms Go_Path "HOL-Library.Multiset"
begin

text \<open>
  The cache of base image layers (\<open>pkg/cache/cache.go\<close>, \<open>safefs.go\<close>, \<open>purge.go\<close>) and its commands
  (\<open>cmd/contain/cache.go\<close>). The filesystem cache of go-containerregistry that is wrapped is a parameter,
  an operation of which reads and changes the unknown state \<open>'d\<close> of the disk. \<open>sort.Slice\<close> is an argument
  too, because the order it gives to entries of the same age is not determined. Counts, sizes and times
  of directory entries are non-negative and small, as \<open>int\<close>; what the flags compute is on 64 bits.
\<close>

section \<open>Location (cache.go)\<close>

definition Enabled :: "string \<Rightarrow> bool" where
  "Enabled v \<longleftrightarrow> v \<noteq> ''false'' \<and> v \<noteq> ''0''"

text \<open>\<open>resolveDir\<close> with the variables \<open>CONTAIN_CACHE_DIR\<close> and \<open>XDG_CACHE_HOME\<close> and \<open>os.UserHomeDir()\<close>.\<close>

definition resolveDir :: "string \<Rightarrow> string \<Rightarrow> string + string \<Rightarrow> go_err + string" where
  "resolveDir cacheDir xdg home =
     (if cacheDir \<noteq> '''' then Inr (path_join [cacheDir, ''layers''])
      else if xdg \<noteq> '''' then Inr (path_join [xdg, ''contain'', ''layers''])
      else case home of
        Inl e \<Rightarrow> Inl (Wrap ''resolve home dir'' (Msg e))
      | Inr h \<Rightarrow> Inr (path_join [h, ''.cache'', ''contain'', ''layers'']))"

section \<open>The wrapped cache (safefs.go)\<close>

record ('l, 'd) v1cache =
  vc_put :: "'l \<Rightarrow> 'd \<Rightarrow> (string + 'l) \<times> 'd"
  vc_get :: "Hash \<Rightarrow> 'd \<Rightarrow> (string + 'l) \<times> 'd"
  vc_delete :: "Hash \<Rightarrow> 'd \<Rightarrow> string option \<times> 'd"

record ('l, 'd) cache_lib =
  cl_inner :: "('l, 'd) v1cache"
  cl_digest :: "'l \<Rightarrow> string + Hash"
  cl_hash_string :: "Hash \<Rightarrow> string"
  cl_stat :: "string \<Rightarrow> 'd \<Rightarrow> int option"  \<comment> \<open>size, \<open>None\<close> on an error\<close>
  cl_touch :: "string \<Rightarrow> 'd \<Rightarrow> 'd"  \<comment> \<open>\<open>os.Chtimes\<close> to now, its error ignored\<close>

text \<open>\<open>safeCache\<close>: its directory, the disk and the two counters.\<close>

record 'd safe_state =
  sf_disk :: 'd
  sf_hits :: int
  sf_puts :: int

definition cachepath :: "('l, 'd) cache_lib \<Rightarrow> string \<Rightarrow> Hash \<Rightarrow> string" where
  "cachepath C dir h = dir @ ''/'' @ cl_hash_string C h"

definition inner_put :: "('l, 'd) cache_lib \<Rightarrow> 'l \<Rightarrow> 'd safe_state \<Rightarrow> (string + 'l) \<times> 'd safe_state" where
  "inner_put C l s = (case vc_put (cl_inner C) l (sf_disk s) of (r, d) \<Rightarrow> (r, s\<lparr>sf_disk := d\<rparr>))"

definition safe_Put :: "('l, 'd) cache_lib \<Rightarrow> string \<Rightarrow> 'l \<Rightarrow> 'd safe_state \<Rightarrow> (string + 'l) \<times> 'd safe_state" where
  "safe_Put C dir l s =
     (case cl_digest C l of
        Inl e \<Rightarrow> inner_put C l s
      | Inr digest \<Rightarrow>
          (if (case cl_stat C (cachepath C dir digest) (sf_disk s) of None \<Rightarrow> False | Some n \<Rightarrow> n > 0)
           then (case vc_get (cl_inner C) digest (sf_disk s) of
                   (Inr cached, d) \<Rightarrow> (Inr cached, s\<lparr>sf_disk := d, sf_hits := sf_hits s + 1\<rparr>)
                 | (Inl e, d) \<Rightarrow> inner_put C l (s\<lparr>sf_disk := d, sf_puts := sf_puts s + 1\<rparr>))
           else inner_put C l (s\<lparr>sf_puts := sf_puts s + 1\<rparr>)))"

definition safe_Get :: "('l, 'd) cache_lib \<Rightarrow> string \<Rightarrow> Hash \<Rightarrow> 'd safe_state \<Rightarrow> (string + 'l) \<times> 'd safe_state" where
  "safe_Get C dir h s =
     (case vc_get (cl_inner C) h (sf_disk s) of
        (Inl e, d) \<Rightarrow> (Inl e, s\<lparr>sf_disk := d\<rparr>)
      | (Inr l, d) \<Rightarrow>
          (Inr l, s\<lparr>sf_disk := cl_touch C (cachepath C dir h) d, sf_hits := sf_hits s + 1\<rparr>))"

definition safe_Delete :: "('l, 'd) cache_lib \<Rightarrow> Hash \<Rightarrow> 'd safe_state \<Rightarrow> string option \<times> 'd safe_state" where
  "safe_Delete C h s = (case vc_delete (cl_inner C) h (sf_disk s) of (r, d) \<Rightarrow> (r, s\<lparr>sf_disk := d\<rparr>))"

text \<open>The line that \<open>LogSummary\<close> logs: hits and stored layers.\<close>

definition LogSummary :: "'d safe_state \<Rightarrow> (int \<times> int) option" where
  "LogSummary s = (if sf_hits s + sf_puts s = 0 then None else Some (sf_hits s, sf_puts s))"

section \<open>Purging (purge.go)\<close>

record PurgeStrategy =
  ps_maxAge :: i64  \<comment> \<open>nanoseconds\<close>
  ps_maxSize :: i64
  ps_all :: bool

record PurgeResult =
  pr_removedCount :: int
  pr_removedBytes :: int
  pr_retainedCount :: int
  pr_retainedBytes :: int

record cacheEntry =
  ce_path :: string
  ce_size :: int
  ce_mtime :: int

text \<open>An entry of the directory; \<open>dn_info\<close> is size and time, \<open>None\<close> if \<open>Info\<close> fails.\<close>

record disk_entry =
  dn_name :: string
  dn_isDir :: bool
  dn_info :: "(int \<times> int) option"

text \<open>Errors are given with the answer of \<open>os.IsNotExist\<close>.\<close>

record cache_os =
  co_readDir :: "string \<Rightarrow> (bool \<times> string) + disk_entry list"
  co_remove :: "string \<Rightarrow> (bool \<times> string) option"
  co_sort :: "cacheEntry list \<Rightarrow> cacheEntry list"
  co_now :: int

definition entry_of_disk :: "string \<Rightarrow> disk_entry \<Rightarrow> cacheEntry option" where
  "entry_of_disk dir de =
     (if dn_isDir de then None
      else if \<not> has_prefix (dn_name de) ''sha256'' then None
      else case dn_info de of
        None \<Rightarrow> None
      | Some (n, t) \<Rightarrow> Some \<lparr>ce_path = path_join [dir, dn_name de], ce_size = n, ce_mtime = t\<rparr>)"

definition listEntries :: "cache_os \<Rightarrow> string \<Rightarrow> go_err + cacheEntry list" where
  "listEntries OS dir =
     (case co_readDir OS dir of
        Inl (notExist, e) \<Rightarrow> if notExist then Inr [] else Inl (Msg e)
      | Inr des \<Rightarrow> Inr (List.map_filter (entry_of_disk dir) des))"

text \<open>
  \<open>filepath.Glob(dir + "/*.tmp.*")\<close> for a directory without the characters that patterns treat
  specially: the names that contain \<open>.tmp.\<close>; it ignores errors.
\<close>

definition glob_tmp :: "cache_os \<Rightarrow> string \<Rightarrow> string list" where
  "glob_tmp OS dir =
     (case co_readDir OS dir of
        Inl e \<Rightarrow> []
      | Inr des \<Rightarrow> map (\<lambda>de. path_join [dir, dn_name de]) (filter (\<lambda>de. str_contains (dn_name de) ''.tmp.'') des))"

fun evict_oldest :: "int \<Rightarrow> int \<Rightarrow> cacheEntry list \<Rightarrow> string list" where
  "evict_oldest maxSize totalSize [] = []"
| "evict_oldest maxSize totalSize (e # es) =
     (if totalSize \<le> maxSize then []
      else ce_path e # evict_oldest maxSize (totalSize - ce_size e) es)"

text \<open>The set \<open>toRemove\<close> and the order of the entries after it has been determined.\<close>

definition choose_removed :: "cache_os \<Rightarrow> PurgeStrategy \<Rightarrow> cacheEntry list \<Rightarrow> string list \<times> cacheEntry list" where
  "choose_removed OS strategy entries =
     (if ps_all strategy then (map ce_path entries, entries)
      else
       let old = (if sint (ps_maxAge strategy) > 0
                  then map ce_path (filter (\<lambda>e. ce_mtime e < co_now OS - sint (ps_maxAge strategy)) entries)
                  else [])
       in if sint (ps_maxSize strategy) > 0 then
            let sorted_entries = co_sort OS entries in
            (old @ evict_oldest (sint (ps_maxSize strategy)) (sum_list (map ce_size sorted_entries)) sorted_entries,
             sorted_entries)
          else (old, entries))"

text \<open>The last loop: the result and the files that are gone.\<close>

fun remove_entries ::
  "cache_os \<Rightarrow> string list \<Rightarrow> cacheEntry list \<Rightarrow> PurgeResult \<Rightarrow> string list \<Rightarrow>
   (go_err option \<times> PurgeResult) \<times> string list" where
  "remove_entries OS toRemove [] result gone = ((None, result), gone)"
| "remove_entries OS toRemove (e # es) result gone =
     (if ce_path e \<in> set toRemove then
        (case co_remove OS (ce_path e) of
           Some (False, msg) \<Rightarrow> ((Some (Wrap (''remove '' @ ce_path e) (Msg msg)), result), gone)
         | _ \<Rightarrow>
             remove_entries OS toRemove es
               (result\<lparr>pr_removedCount := pr_removedCount result + 1,
                       pr_removedBytes := pr_removedBytes result + ce_size e\<rparr>) (ce_path e # gone))
      else
        remove_entries OS toRemove es
          (result\<lparr>pr_retainedCount := pr_retainedCount result + 1,
                  pr_retainedBytes := pr_retainedBytes result + ce_size e\<rparr>) gone)"

definition no_result :: PurgeResult where
  "no_result = \<lparr>pr_removedCount = 0, pr_removedBytes = 0, pr_retainedCount = 0, pr_retainedBytes = 0\<rparr>"

definition Purge :: "cache_os \<Rightarrow> string \<Rightarrow> PurgeStrategy \<Rightarrow> (go_err option \<times> PurgeResult) \<times> string list" where
  "Purge OS dir strategy =
     (case listEntries OS dir of
        Inl e \<Rightarrow> ((Some e, no_result), [])
      | Inr entries \<Rightarrow>
          (case choose_removed OS strategy entries of
             (toRemove, entries) \<Rightarrow> remove_entries OS (toRemove @ glob_tmp OS dir) entries no_result []))"

definition cache_Info :: "cache_os \<Rightarrow> string \<Rightarrow> go_err + int \<times> int" where
  "cache_Info OS dir =
     (case listEntries OS dir of
        Inl e \<Rightarrow> Inl e
      | Inr entries \<Rightarrow> Inr (int (length entries), sum_list (map ce_size entries)))"

section \<open>The command (cmd/contain/cache.go)\<close>

definition purge_strategy :: "bool \<Rightarrow> i64 \<Rightarrow> i64 \<Rightarrow> PurgeStrategy" where
  "purge_strategy purgeAll maxSizeMB maxAgeDays =
     \<lparr>ps_maxAge = (if sint maxAgeDays > 0 then maxAgeDays * 24 * 3600000000000 else 0),
      ps_maxSize = (if sint maxSizeMB > 0 then maxSizeMB * 1024 * 1024 else 0),
      ps_all = purgeAll\<rparr>"

section \<open>The cache keeps what it is given\<close>

text \<open>
  What a cache of layers promises: what it returns for a digest has that digest, and what it returns
  for a layer it is given has the digest of that layer.
\<close>

definition serves_digests ::
  "('l \<Rightarrow> string + Hash) \<Rightarrow> ('l \<Rightarrow> 's \<Rightarrow> (string + 'l) \<times> 's) \<Rightarrow> (Hash \<Rightarrow> 's \<Rightarrow> (string + 'l) \<times> 's) \<Rightarrow> bool" where
  "serves_digests digest put get \<longleftrightarrow>
     (\<forall>h s l s'. get h s = (Inr l, s') \<longrightarrow> digest l = Inr h) \<and>
     (\<forall>l s l' s'. put l s = (Inr l', s') \<longrightarrow> digest l' = digest l)"


section \<open>What a purge removes\<close>

lemma evict_oldest_prefix:
  "\<exists>n. evict_oldest m t es = map ce_path (take n es)
     \<and> (\<forall>i < n. i < length es \<longrightarrow> t - sum_list (map ce_size (take i es)) > m)
     \<and> (n \<ge> length es \<or> t - sum_list (map ce_size (take n es)) \<le> m)"
proof (induction es arbitrary: t)
  case (Cons e es)
  show ?case
  proof (cases "t \<le> m")
    case False
    from Cons.IH [of "t - ce_size e"] obtain n where n: "evict_oldest m (t - ce_size e) es = map ce_path (take n es)"
        "\<forall>i < n. i < length es \<longrightarrow> t - ce_size e - sum_list (map ce_size (take i es)) > m"
        "n \<ge> length es \<or> t - ce_size e - sum_list (map ce_size (take n es)) \<le> m"
      by blast
    have "t - sum_list (map ce_size (take i (e # es))) > m" if "i < Suc n" "i < length (e # es)" for i
      using n(2) that False by (cases i) (auto simp: algebra_simps)
    with n False show ?thesis by (intro exI [of _ "Suc n"]) (auto simp: algebra_simps)
  qed (auto intro: exI [of _ 0])
qed simp

definition kept :: "string list \<Rightarrow> cacheEntry list \<Rightarrow> cacheEntry list" where
  "kept rm es = filter (\<lambda>e. ce_path e \<notin> set rm) es"

definition gone_entries :: "string list \<Rightarrow> cacheEntry list \<Rightarrow> cacheEntry list" where
  "gone_entries rm es = filter (\<lambda>e. ce_path e \<in> set rm) es"

lemma remove_entries_ok:
  "remove_entries OS rm es r g = ((None, r'), g') \<Longrightarrow>
     pr_removedCount r' = pr_removedCount r + int (length (gone_entries rm es))
   \<and> pr_removedBytes r' = pr_removedBytes r + sum_list (map ce_size (gone_entries rm es))
   \<and> pr_retainedCount r' = pr_retainedCount r + int (length (kept rm es))
   \<and> pr_retainedBytes r' = pr_retainedBytes r + sum_list (map ce_size (kept rm es))
   \<and> set g' = set g \<union> set (map ce_path (gone_entries rm es))"
  by (induction es arbitrary: r g) (auto simp: kept_def gone_entries_def split: if_splits option.splits prod.splits bool.splits)

text \<open>\<open>sort.Slice\<close> by time: a permutation, oldest first.\<close>

definition sorts_by_time :: "(cacheEntry list \<Rightarrow> cacheEntry list) \<Rightarrow> bool" where
  "sorts_by_time srt \<longleftrightarrow> (\<forall>es. mset (srt es) = mset es \<and> sorted (map ce_mtime (srt es)))"

lemma filter_perm:
  fixes f :: "'a \<Rightarrow> int"
  assumes "mset as = mset bs"
  shows "sum_list (map f (filter P as)) = sum_list (map f (filter P bs))" "length (filter P as) = length (filter P bs)"
proof -
  have "mset (filter P as) = mset (filter P bs)" using assms by simp
  then show "length (filter P as) = length (filter P bs)" by (rule mset_eq_length)
  have "sum_mset (image_mset f (mset (filter P as))) = sum_mset (image_mset f (mset (filter P bs)))"
    using assms by simp
  then show "sum_list (map f (filter P as)) = sum_list (map f (filter P bs))"
    by (metis mset_map sum_mset_sum_list)
qed

lemma sum_filter_le:
  "list_all (\<lambda>e. 0 \<le> (f e :: int)) es \<Longrightarrow> sum_list (map f (filter P es)) \<le> sum_list (map f es)"
  by (induction es) auto

lemma sorted_split_le:
  assumes "sorted (map f es)" "x \<in> set (take n es)" "y \<in> set (drop n es)"
  shows "f x \<le> f y"
  using assms sorted_append [of "map f (take n es)" "map f (drop n es)"]
  by (metis append_take_drop_id image_eqI list.set_map map_append)

text \<open>
  Size and age of what stays, for entries in the order \<open>ss\<close> of which \<open>take n\<close> was evicted.
\<close>

lemma kept_fits:
  assumes "evict_oldest m (sum_list (map ce_size ss)) ss = map ce_path (take n ss)"
    and "n \<ge> length ss \<or> sum_list (map ce_size ss) - sum_list (map ce_size (take n ss)) \<le> m"
    and "list_all (\<lambda>e. 0 \<le> ce_size e) ss" "0 \<le> m" "set (map ce_path (take n ss)) \<subseteq> set rm"
  shows "sum_list (map ce_size (kept rm ss)) \<le> m" "set (kept rm ss) \<subseteq> set (drop n ss)"
proof -
  have none: "kept rm (take n ss) = []"
    using assms(5) by (auto simp: kept_def filter_empty_conv)
  have "kept rm ss = kept rm (take n ss) @ kept rm (drop n ss)"
    by (metis append_take_drop_id filter_append kept_def)
  with none have k: "kept rm ss = kept rm (drop n ss)" by simp
  then show "set (kept rm ss) \<subseteq> set (drop n ss)" by (auto simp: kept_def)
  have "list_all (\<lambda>e. 0 \<le> ce_size e) (drop n ss)"
    using assms(3) by (auto simp: list_all_iff dest: in_set_dropD)
  from sum_filter_le [OF this] have "sum_list (map ce_size (kept rm (drop n ss))) \<le> sum_list (map ce_size (drop n ss))"
    by (simp add: kept_def)
  also have "\<dots> = sum_list (map ce_size ss) - sum_list (map ce_size (take n ss))"
    by (metis add_diff_cancel_left' append_take_drop_id map_append sum_list_append)
  also have "\<dots> \<le> m" using assms(2,4) by auto
  finally show "sum_list (map ce_size (kept rm ss)) \<le> m" using k by simp
qed

definition too_old :: "cache_os \<Rightarrow> PurgeStrategy \<Rightarrow> cacheEntry \<Rightarrow> bool" where
  "too_old OS st e \<longleftrightarrow> sint (ps_maxAge st) > 0 \<and> ce_mtime e < co_now OS - sint (ps_maxAge st)"

text \<open>The paths to remove: those too old, and the first of the sorted entries until the rest fits.\<close>

lemma choose_removed_spec:
  assumes "choose_removed OS st es = (rm, ss)" "\<not> ps_all st" "sorts_by_time (co_sort OS)"
  shows "mset ss = mset es \<and> (\<exists>n. rm = map ce_path (filter (too_old OS st) es) @ map ce_path (take n ss)
    \<and> (if sint (ps_maxSize st) > 0
       then sorted (map ce_mtime ss)
         \<and> evict_oldest (sint (ps_maxSize st)) (sum_list (map ce_size ss)) ss = map ce_path (take n ss)
         \<and> (n > 0 \<longrightarrow> ss \<noteq> [] \<longrightarrow> sum_list (map ce_size ss) > sint (ps_maxSize st))
         \<and> (n \<ge> length ss \<or> sum_list (map ce_size ss) - sum_list (map ce_size (take n ss)) \<le> sint (ps_maxSize st))
       else n = 0))"
proof -
  have old: "(if sint (ps_maxAge st) > 0
      then map ce_path (filter (\<lambda>e. ce_mtime e < co_now OS - sint (ps_maxAge st)) es) else [])
      = map ce_path (filter (too_old OS st) es)"
    unfolding too_old_def by simp
  show ?thesis
  proof (cases "sint (ps_maxSize st) > 0")
    case True
    then have ss: "ss = co_sort OS es" and rm: "rm = map ce_path (filter (too_old OS st) es)
        @ evict_oldest (sint (ps_maxSize st)) (sum_list (map ce_size ss)) ss"
      using assms(1,2) old by (auto simp: choose_removed_def Let_def)
    obtain n where "evict_oldest (sint (ps_maxSize st)) (sum_list (map ce_size ss)) ss = map ce_path (take n ss)"
        "\<forall>i < n. i < length ss \<longrightarrow> sum_list (map ce_size ss) - sum_list (map ce_size (take i ss)) > sint (ps_maxSize st)"
        "n \<ge> length ss \<or> sum_list (map ce_size ss) - sum_list (map ce_size (take n ss)) \<le> sint (ps_maxSize st)"
      using evict_oldest_prefix by blast
    with True rm ss assms(3) show ?thesis
      unfolding sorts_by_time_def by (intro conjI exI [of _ n]) (auto dest: spec [of _ 0])
  next
    case False
    then show ?thesis using assms(1,2) old by (auto simp: choose_removed_def Let_def)
  qed
qed

lemma path_mem: "distinct (map ce_path es) \<Longrightarrow> e \<in> set es \<Longrightarrow> ce_path e \<in> ce_path ` A \<Longrightarrow> A \<subseteq> set es \<Longrightarrow> e \<in> A"
  by (auto simp: distinct_map inj_on_def)

text \<open>What a purge without error did, in terms of what it chose.\<close>

lemma Purge_result:
  assumes "Purge OS dir st = ((None, r), gone)" and "listEntries OS dir = Inr es"
    and choose: "choose_removed OS st es = (rm, ss)" and perm: "mset ss = mset es"
  defines "all \<equiv> rm @ glob_tmp OS dir"
  shows "kept gone es = kept all es" and "gone_entries gone es = gone_entries all es"
    and "pr_retainedCount r = int (length (kept all es))" and "pr_retainedBytes r = sum_list (map ce_size (kept all es))"
    and "pr_removedCount r = int (length (gone_entries all es))"
    and "pr_removedBytes r = sum_list (map ce_size (gone_entries all es))"
proof -
  have run: "remove_entries OS all ss no_result [] = ((None, r), gone)"
    using assms(1,2) choose by (simp add: Purge_def all_def)
  note ok = remove_entries_ok [OF run]
  have "ce_path e \<in> set gone \<longleftrightarrow> ce_path e \<in> set all" if "e \<in> set es" for e
    using ok that mset_eq_setD [OF perm] by (auto simp: gone_entries_def no_result_def)
  then show "kept gone es = kept all es" "gone_entries gone es = gone_entries all es"
    by (auto simp: kept_def gone_entries_def intro: filter_cong)
  show "pr_retainedCount r = int (length (kept all es))" "pr_retainedBytes r = sum_list (map ce_size (kept all es))"
      "pr_removedCount r = int (length (gone_entries all es))" "pr_removedBytes r = sum_list (map ce_size (gone_entries all es))"
    using ok filter_perm [OF perm] unfolding kept_def gone_entries_def no_result_def by simp_all
qed

text \<open>An entry goes as a rest, by age, or as one of the oldest.\<close>

lemma gone_cases:
  assumes "e \<in> set (gone_entries ((map ce_path (filter old es) @ map ce_path (take n ss)) @ tmp) es)"
    and "distinct (map ce_path es)" and "set ss = set es"
  obtains (rest) "ce_path e \<in> set tmp" | (aged) "old e" | (oldest) "e \<in> set (take n ss)"
  using assms path_mem [OF assms(2), of e "set (filter old es)"] path_mem [OF assms(2), of e "set (take n ss)"]
    set_take_subset [of n ss]
  by (auto simp: gone_entries_def)


section \<open>Limits of the command\<close>

text \<open>
  The flags mean what they say as long as they fit. For up to 106751 days and 2^43 megabytes the
  limits are those given, for every smaller number and none for zero.
\<close>

theorem purge_flags_exact:
  assumes "0 \<le> days" "days \<le> 106751" "0 \<le> mb" "mb < 2 ^ 43"
  shows "sint (ps_maxAge (purge_strategy al (word_of_int mb) (word_of_int days))) = days * 86400000000000
    \<and> sint (ps_maxSize (purge_strategy al (word_of_int mb) (word_of_int days))) = mb * 1048576"
proof -
  have d: "sint (word_of_int days :: i64) = days" and m: "sint (word_of_int mb :: i64) = mb"
    using assms by (simp_all add: sint_sbintrunc' signed_take_bit_int_eq_self_iff)
  have "word_of_int days * 24 * 3600000000000 = (word_of_int (days * 86400000000000) :: i64)" by simp
  then have "sint (word_of_int days * 24 * 3600000000000 :: i64) = days * 86400000000000"
    using assms by (simp only: sint_sbintrunc') (simp add: signed_take_bit_int_eq_self_iff)
  moreover have "word_of_int mb * 1024 * 1024 = (word_of_int (mb * 1048576) :: i64)" by simp
  then have "sint (word_of_int mb * 1024 * 1024 :: i64) = mb * 1048576"
    using assms by (simp only: sint_sbintrunc') (simp add: signed_take_bit_int_eq_self_iff)
  ultimately show ?thesis using d m assms by (auto simp: purge_strategy_def)
qed

text \<open>One day more and the limit wraps around to a negative one, which \<open>Purge\<close> takes for none.\<close>

lemma purge_age_overflow: "sint (ps_maxAge (purge_strategy False 0 106752)) < 0"
  by (simp add: purge_strategy_def)

section \<open>Concrete caches\<close>

text \<open>A disk is the list of the digests it has; a layer is its digest.\<close>

definition toy_cache :: "(Hash, Hash list) cache_lib" where
  "toy_cache = \<lparr>cl_inner = \<lparr>vc_put = (\<lambda>l d. (Inr l, l # d)),
       vc_get = (\<lambda>h d. (if h \<in> set d then Inr h else Inl ''layer not found'', d)),
       vc_delete = (\<lambda>h d. (None, removeAll h d))\<rparr>,
     cl_digest = Inr, cl_hash_string = hs_hex, cl_stat = (\<lambda>p d. if d = [] then None else Some 7), cl_touch = (\<lambda>p d. d)\<rparr>"


text \<open>A directory with an old and a new layer, a file that is no layer and the rest of a write.\<close>

definition toy_disk :: cache_os where
  "toy_disk = \<lparr>co_readDir = (\<lambda>dir. Inr
       [\<lparr>dn_name = ''sha256:a'', dn_isDir = False, dn_info = Some (6, 10)\<rparr>,
        \<lparr>dn_name = ''x.tmp.1'', dn_isDir = False, dn_info = Some (1, 30)\<rparr>,
        \<lparr>dn_name = ''sha256:b'', dn_isDir = False, dn_info = Some (5, 20)\<rparr>]),
     co_remove = (\<lambda>p. None), co_sort = sort_key ce_mtime, co_now = 40\<rparr>"

lemma toy_purge:
  "Purge toy_disk ''/c'' (purge_strategy False 0 0\<lparr>ps_maxSize := 8\<rparr>)
     = ((None, \<lparr>pr_removedCount = 1, pr_removedBytes = 6, pr_retainedCount = 1, pr_retainedBytes = 5\<rparr>), [''/c/sha256:a''])"
  by code_simp


theorem purge_flags_exact_witness:
  "sint (ps_maxAge (purge_strategy False 1 (word_of_int 106751))) = 9223286400000000000"
  using purge_flags_exact [of 106751 1 False] by simp

text \<open>
  The rest of an interrupted write is meant to go with every purge, but only the files that count as
  layers are ever removed.
\<close>

lemma tmp_file_stays: "''/c/x.tmp.1'' \<in> set (glob_tmp toy_disk ''/c'')
   \<and> ''/c/x.tmp.1'' \<notin> set (snd (Purge toy_disk ''/c'' (purge_strategy True 0 0)))"
  by code_simp

end
