(* ===== verification/Sbom.thy ===== *)
theory Sbom
  imports Pushed_Artifact
begin

text \<open>
  Wrapping of an SPDX document (\<open>pkg/sbom/wrap_spdx.go\<close>). A document is the decoded JSON value, an object
  being an association list; the code's updates of nested maps in place are updates of the value. Files,
  the JSON codec, the registry and \<open>net.ParseIP\<close> are parameters.
\<close>

section \<open>JSON helpers\<close>

type_synonym jobj = "(string \<times> json) list"

definition ensureMap :: "jobj \<Rightarrow> string \<Rightarrow> jobj \<times> jobj" where
  "ensureMap parent key =
     (case map_of parent key of
        Some (JObj m) \<Rightarrow> (parent, m)
      | _ \<Rightarrow> (AList.update key (JObj []) parent, []))"

definition ensureSlice :: "jobj \<Rightarrow> string \<Rightarrow> jobj \<times> json list" where
  "ensureSlice parent key =
     (case map_of parent key of
        Some (JArr xs) \<Rightarrow> (parent, xs)
      | _ \<Rightarrow> (AList.update key (JArr []) parent, []))"

definition toolName :: string where
  "toolName = ''contain''"

definition ensureCreator :: "jobj \<Rightarrow> string \<Rightarrow> jobj" where
  "ensureCreator doc version =
     (let (doc, ci) = ensureMap doc ''creationInfo'';
          (ci, creators) = ensureSlice ci ''creators'';
          want = JStr (''Tool: '' @ toolName @ ''-'' @ version);
          ci = (if want \<in> set creators then ci else AList.update ''creators'' (JArr (creators @ [want])) ci)
      in AList.update ''creationInfo'' (JObj ci) doc)"

text \<open>\<open>nonAlphaNum.ReplaceAllString(name, "-")\<close>: every maximal run becomes one dash.\<close>

definition alphanumeric :: "char \<Rightarrow> bool" where
  "alphanumeric c \<longleftrightarrow> CHR ''A'' \<le> c \<and> c \<le> CHR ''Z'' \<or> CHR ''a'' \<le> c \<and> c \<le> CHR ''z'' \<or> CHR ''0'' \<le> c \<and> c \<le> CHR ''9''"

fun dash_runs :: "bool \<Rightarrow> string \<Rightarrow> string" where
  "dash_runs inside [] = []"
| "dash_runs inside (c # s) =
     (if alphanumeric c then c # dash_runs False s
      else if inside then dash_runs True s else CHR ''-'' # dash_runs True s)"

definition trim_dashes :: "string \<Rightarrow> string" where
  "trim_dashes s = rev (dropWhile (\<lambda>c. c = CHR ''-'') (rev (dropWhile (\<lambda>c. c = CHR ''-'') s)))"

definition makePackageID :: "string \<Rightarrow> string" where
  "makePackageID name =
     (let cleaned = trim_dashes (dash_runs False name) in
      ''SPDXRef-Package-'' @ (if cleaned = '''' then ''image'' else cleaned))"

definition trimSha256Prefix :: "string \<Rightarrow> string" where
  "trimSha256Prefix s = (if has_prefix s ''sha256:'' then drop (length ''sha256:'') s else s)"

definition is_sha256 :: "json \<Rightarrow> bool" where
  "is_sha256 c = (case c of JObj cm \<Rightarrow> map_of cm ''algorithm'' = Some (JStr ''SHA256'') | _ \<Rightarrow> False)"

definition ensureChecksum :: "jobj \<Rightarrow> string \<Rightarrow> jobj" where
  "ensureChecksum pkg hex =
     (let checks = (case map_of pkg ''checksums'' of Some (JArr xs) \<Rightarrow> xs | _ \<Rightarrow> []) in
      if list_ex is_sha256 checks then pkg
      else AList.update ''checksums''
             (JArr (checks @ [JObj [(''algorithm'', JStr ''SHA256''), (''checksumValue'', JStr hex)]])) pkg)"

definition container_named :: "string \<Rightarrow> jobj \<Rightarrow> bool" where
  "container_named pkgName m \<longleftrightarrow> map_of m ''primaryPackagePurpose'' = Some (JStr ''CONTAINER'')
     \<and> map_of m ''name'' = Some (JStr pkgName)"

text \<open>What is done to the package when it is found: the checksum and the id.\<close>

definition complete_package :: "string \<Rightarrow> string \<Rightarrow> jobj \<Rightarrow> jobj \<times> string" where
  "complete_package pkgName checksumHex m =
     (let m = (if checksumHex \<noteq> '''' then ensureChecksum m checksumHex else m);
          sid = (case map_of m ''SPDXID'' of Some (JStr s) \<Rightarrow> s | _ \<Rightarrow> '''')
      in if sid \<noteq> '''' then (m, sid)
         else (AList.update ''SPDXID'' (JStr (makePackageID pkgName)) m, makePackageID pkgName))"

fun find_package :: "string \<Rightarrow> string \<Rightarrow> json list \<Rightarrow> (json list \<times> string) option" where
  "find_package pkgName checksumHex [] = None"
| "find_package pkgName checksumHex (p # ps) =
     (case p of
        JObj m \<Rightarrow>
          (if container_named pkgName m
           then (let (m', sid) = complete_package pkgName checksumHex m in Some (JObj m' # ps, sid))
           else map_option (\<lambda>(ps', sid). (p # ps', sid)) (find_package pkgName checksumHex ps))
      | _ \<Rightarrow> map_option (\<lambda>(ps', sid). (p # ps', sid)) (find_package pkgName checksumHex ps))"

definition new_package :: "string \<Rightarrow> string \<Rightarrow> jobj" where
  "new_package pkgName checksumHex =
     (let m = [(''name'', JStr pkgName), (''SPDXID'', JStr (makePackageID pkgName)),
               (''primaryPackagePurpose'', JStr ''CONTAINER''), (''downloadLocation'', JStr ''NOASSERTION''),
               (''filesAnalyzed'', JBool False), (''homepage'', JStr ''NOASSERTION''),
               (''licenseDeclared'', JStr ''NOASSERTION'')]
      in if checksumHex \<noteq> '''' then ensureChecksum m checksumHex else m)"

definition ensureContainerPackageJSON :: "jobj \<Rightarrow> string \<Rightarrow> string \<Rightarrow> jobj \<times> string" where
  "ensureContainerPackageJSON doc name checksumHex =
     (let pkgName = trim_prefix name ''/'';
          (doc, pkgs) = ensureSlice doc ''packages''
      in case find_package pkgName checksumHex pkgs of
           Some (pkgs', sid) \<Rightarrow> (AList.update ''packages'' (JArr pkgs') doc, sid)
         | None \<Rightarrow>
             (AList.update ''packages'' (JArr (pkgs @ [JObj (new_package pkgName checksumHex)])) doc,
              makePackageID pkgName))"

definition ensureDocumentDescribesJSON :: "jobj \<Rightarrow> string \<Rightarrow> jobj" where
  "ensureDocumentDescribesJSON doc sid =
     (let (doc, lst) = ensureSlice doc ''documentDescribes'' in
      if JStr sid \<in> set lst then doc
      else AList.update ''documentDescribes'' (JArr (lst @ [JStr sid])) doc)"

definition is_relationship :: "string \<Rightarrow> string \<Rightarrow> string \<Rightarrow> json \<Rightarrow> bool" where
  "is_relationship fromID toID relType v =
     (case v of
        JObj m \<Rightarrow> map_of m ''spdxElementId'' = Some (JStr fromID) \<and> map_of m ''relatedSpdxElement'' = Some (JStr toID)
          \<and> map_of m ''relationshipType'' = Some (JStr relType)
      | _ \<Rightarrow> False)"

definition ensureRelationshipJSON :: "jobj \<Rightarrow> string \<times> string \<times> string \<Rightarrow> jobj" where
  "ensureRelationshipJSON doc r =
     (case r of (fromID, toID, relType) \<Rightarrow>
       let (doc, rels) = ensureSlice doc ''relationships'' in
       if list_ex (is_relationship fromID toID relType) rels then doc
       else AList.update ''relationships'' (JArr (rels @ [JObj [(''spdxElementId'', JStr fromID),
              (''relatedSpdxElement'', JStr toID), (''relationshipType'', JStr relType)]])) doc)"

section \<open>The base of an image in a registry\<close>

record spdx_env =
  sx_parse :: "bool \<Rightarrow> string \<Rightarrow> string + reference"  \<comment> \<open>\<open>name.NewDigest\<close>, insecure or not\<close>
  sx_name :: "reference \<Rightarrow> string"  \<comment> \<open>\<open>Context().Name()\<close>\<close>
  sx_hash_string :: "Hash \<Rightarrow> string"
  sx_new_hash :: "string \<Rightarrow> string + Hash"
  sx_head :: "reference \<Rightarrow> string + string"  \<comment> \<open>the media type\<close>
  sx_index :: "reference \<Rightarrow> string + v1_descriptor list"  \<comment> \<open>\<open>remote.Index\<close> and its manifest\<close>
  sx_image :: "reference \<Rightarrow> string + (string \<times> string) list"  \<comment> \<open>\<open>remote.Image\<close>, the annotations of its manifest\<close>
  sx_loopback :: "string \<Rightarrow> bool option"  \<comment> \<open>\<open>net.ParseIP(s).IsLoopback()\<close>, \<open>None\<close> if not an address\<close>
  sx_read :: "string \<Rightarrow> string + bytes"
  sx_write :: "string \<Rightarrow> bytes \<Rightarrow> string option"
  sx_decode :: "bytes \<Rightarrow> string + json"
  sx_encode :: "json \<Rightarrow> string + bytes"
  sx_builds :: "bytes \<Rightarrow> (string \<times> string \<times> string) list"
    \<comment> \<open>\<open>ImageName\<close>, \<open>TagRef\<close> and \<open>Tag\<close> of what decoding leaves in \<open>builds\<close>, its error ignored\<close>
  sx_baseName :: string  \<comment> \<open>\<open>CONTAIN_SPDX_BASE_NAME\<close>\<close>
  sx_baseDigest :: string  \<comment> \<open>\<open>CONTAIN_SPDX_BASE_DIGEST\<close>\<close>

definition DockerManifestSchema2 :: string where
  "DockerManifestSchema2 = ''application/vnd.docker.distribution.manifest.v2+json''"

definition baseFromAnnotations :: "(string \<times> string) list \<Rightarrow> string \<times> string" where
  "baseFromAnnotations a =
     (trim_prefix (map_get a AnnotationBaseImageName) ''/'', trimSha256Prefix (map_get a AnnotationBaseImageDigest))"

definition hostFromRef :: "string \<Rightarrow> string" where
  "hostFromRef ref = (case index_of ref ''/'' of Some i \<Rightarrow> if i > 0 then take i ref else ref | None \<Rightarrow> ref)"

definition isLocalhost :: "spdx_env \<Rightarrow> string \<Rightarrow> bool" where
  "isLocalhost X host =
     (if host = ''localhost'' \<or> has_prefix host ''localhost:'' then True
      else case sx_loopback X host of
        Some b \<Rightarrow> b
      | None \<Rightarrow>
          (case index_of host '':'' of
             None \<Rightarrow> False
           | Some i \<Rightarrow> (case sx_loopback X (take i host) of Some b \<Rightarrow> b | None \<Rightarrow> False)))"

fun base_of_children :: "spdx_env \<Rightarrow> reference \<Rightarrow> v1_descriptor list \<Rightarrow> string \<times> string" where
  "base_of_children X d [] = ('''', '''')"
| "base_of_children X d (m # ms) =
     (if vd_mediaType m = OCIManifestSchema1 \<or> vd_mediaType m = DockerManifestSchema2 then
        (let childRefStr = sx_name X d @ ''@'' @ sx_hash_string X (vd_digest m) in
         case sx_parse X False childRefStr of
           Inl e \<Rightarrow> base_of_children X d ms
         | Inr r \<Rightarrow>
             (let childRef = (if isLocalhost X (rf_registry d)
                              then (case sx_parse X True childRefStr of
                                      Inr r' \<Rightarrow> r'
                                    | Inl e \<Rightarrow> \<lparr>rf_string = '''', rf_isDigest = True, rf_registry = '''',
                                                rf_repository = '''', rf_identifier = ''''\<rparr>)
                              else r)
              in case sx_image X childRef of
                   Inl e \<Rightarrow> base_of_children X d ms
                 | Inr a \<Rightarrow>
                     (let (name, dig) = baseFromAnnotations a in
                      if name \<noteq> '''' \<or> dig \<noteq> '''' then (name, dig) else base_of_children X d ms)))
      else base_of_children X d ms)"

definition discoverBaseFromImage :: "spdx_env \<Rightarrow> string \<Rightarrow> string \<times> string" where
  "discoverBaseFromImage X tagRef =
     (case (case sx_parse X False tagRef of
              Inr d \<Rightarrow> Some d
            | Inl e \<Rightarrow>
                (if isLocalhost X (hostFromRef tagRef)
                 then (case sx_parse X True tagRef of Inr d \<Rightarrow> Some d | Inl e \<Rightarrow> None)
                 else None)) of
        None \<Rightarrow> ('''', '''')
      | Some d \<Rightarrow>
          (case sx_head X d of
             Inl e \<Rightarrow> ('''', '''')
           | Inr mt \<Rightarrow>
               (if mt = OCIImageIndex \<or> mt = DockerManifestList then
                  (case sx_index X d of Inl e \<Rightarrow> ('''', '''') | Inr ms \<Rightarrow> base_of_children X d ms)
                else if mt = OCIManifestSchema1 \<or> mt = DockerManifestSchema2 then
                  (case sx_image X d of Inl e \<Rightarrow> ('''', '''') | Inr a \<Rightarrow> baseFromAnnotations a)
                else ('''', ''''))))"

section \<open>The document\<close>

text \<open>The result image: its name and the reference to parse the digest from.\<close>

definition result_image :: "spdx_env \<Rightarrow> string \<Rightarrow> Artifact option \<Rightarrow> string \<times> string" where
  "result_image X buildArtifactsPath artifact =
     (let (img, tag) = (case artifact of
            Some a \<Rightarrow> if af_tagRef a \<noteq> '''' then (af_imageName a, af_tagRef a) else ('''', '''')
          | None \<Rightarrow> ('''', ''''))
      in if tag = '''' \<and> buildArtifactsPath \<noteq> '''' then
           (case sx_read X buildArtifactsPath of
              Inl e \<Rightarrow> (img, tag)
            | Inr b \<Rightarrow>
                (case sx_builds X b of
                   [] \<Rightarrow> (img, tag)
                 | (img', tagRef, tag') # _ \<Rightarrow> (img', if tagRef \<noteq> '''' then tagRef else tag')))
         else (img, tag))"

definition result_digest :: "spdx_env \<Rightarrow> string \<Rightarrow> Hash" where
  "result_digest X tagRef =
     (if tagRef \<noteq> '''' then
        (case last_index_of tagRef (CHR ''@'') of
           None \<Rightarrow> zero_hash
         | Some at \<Rightarrow> (case sx_new_hash X (drop (Suc at) tagRef) of Inl e \<Rightarrow> zero_hash | Inr h \<Rightarrow> h))
      else zero_hash)"

definition base_image :: "spdx_env \<Rightarrow> Artifact option \<Rightarrow> string \<Rightarrow> string \<times> string" where
  "base_image X artifact tagRef =
     (let (baseName, baseDigestHex) =
        (case artifact of
           Some a \<Rightarrow>
             (if af_baseRef a \<noteq> '''' then
                (case last_index_of (af_baseRef a) (CHR ''@'') of
                   Some at \<Rightarrow> (trim_prefix (take at (af_baseRef a)) ''/'', trimSha256Prefix (drop (Suc at) (af_baseRef a)))
                 | None \<Rightarrow> (trim_prefix (af_baseRef a) ''/'', ''''))
              else if tagRef \<noteq> '''' then discoverBaseFromImage X tagRef else ('''', ''''))
         | None \<Rightarrow> if tagRef \<noteq> '''' then discoverBaseFromImage X tagRef else ('''', ''''))
      in (if sx_baseName X \<noteq> '''' then sx_baseName X else baseName,
          if sx_baseDigest X \<noteq> '''' then trimSha256Prefix (sx_baseDigest X) else baseDigestHex))"

definition prev_described :: "jobj \<Rightarrow> string list" where
  "prev_described doc =
     (case map_of doc ''documentDescribes'' of
        Some (JArr xs) \<Rightarrow> List.map_filter (\<lambda>x. case x of JStr s \<Rightarrow> Some s | _ \<Rightarrow> None) xs
      | _ \<Rightarrow> [])"

definition add_relationships :: "(string \<times> string \<times> string) list \<Rightarrow> jobj \<Rightarrow> jobj" where
  "add_relationships rs doc = fold (\<lambda>r d. ensureRelationshipJSON d r) rs doc"

text \<open>The part of \<open>WrapSPDX\<close> that changes the document; an id is empty when there is none.\<close>

definition describe_result :: "string \<Rightarrow> Hash \<Rightarrow> jobj \<Rightarrow> jobj \<times> string" where
  "describe_result resImageName resDigest doc =
     (if resImageName \<noteq> '''' \<and> hs_algorithm resDigest = ''sha256'' \<and> hs_hex resDigest \<noteq> '''' then
        (let prevDocDesc = prev_described doc;
             (doc, resultID) = ensureContainerPackageJSON doc
                (resImageName @ ''@'' @ hs_algorithm resDigest @ '':'' @ hs_hex resDigest) '''';
             doc = ensureDocumentDescribesJSON doc resultID
         in (add_relationships
               (concat (map (\<lambda>sid. [(resultID, sid, ''DEPENDS_ON''), (sid, resultID, ''DEPENDENCY_OF'')])
                  (filter (\<lambda>sid. sid \<noteq> '''' \<and> sid \<noteq> resultID) prevDocDesc))) doc, resultID))
      else (doc, ''''))"

definition relate_base :: "string \<Rightarrow> string \<Rightarrow> string \<Rightarrow> jobj \<Rightarrow> jobj" where
  "relate_base resultID baseName baseDigestHex doc =
     (let (doc, baseID) = (if baseName \<noteq> '''' then ensureContainerPackageJSON doc baseName baseDigestHex else (doc, ''''))
      in if resultID \<noteq> '''' \<and> baseID \<noteq> ''''
         then add_relationships [(resultID, baseID, ''DESCENDANT_OF''), (resultID, baseID, ''DEPENDS_ON''),
                (baseID, resultID, ''DEPENDENCY_OF'')] doc
         else doc)"

definition enrich :: "string \<Rightarrow> string \<Rightarrow> Hash \<Rightarrow> string \<Rightarrow> string \<Rightarrow> jobj \<Rightarrow> jobj" where
  "enrich toolVersion resImageName resDigest baseName baseDigestHex doc =
     (let (doc, resultID) = describe_result resImageName resDigest (ensureCreator doc toolVersion)
      in relate_base resultID baseName baseDigestHex doc)"

text \<open>A nil map, from the document \<open>null\<close>, ends the process at its first assignment.\<close>

definition WrapSPDX ::
  "spdx_env \<Rightarrow> string \<Rightarrow> string \<Rightarrow> string \<Rightarrow> Artifact option \<Rightarrow> string \<Rightarrow> (stop + unit) \<times> (string \<times> bytes) option" where
  "WrapSPDX X buildArtifactsPath inFile outFile artifact toolVersion =
     (case sx_read X inFile of
        Inl e \<Rightarrow> (Inl (Err (Wrap ''open spdx'' (Msg e))), None)
      | Inr raw \<Rightarrow>
     (case sx_decode X raw of
        Inl e \<Rightarrow> (Inl (Err (Wrap ''read spdx'' (Msg e))), None)
      | Inr JNull \<Rightarrow> (Inl (Exit ''assignment to entry in nil map''), None)
      | Inr (JObj doc) \<Rightarrow>
          (let (resImageName, tagRef) = result_image X buildArtifactsPath artifact;
               (baseName, baseDigestHex) = base_image X artifact tagRef;
               doc = enrich toolVersion resImageName (result_digest X tagRef) baseName baseDigestHex doc;
               target = (if outFile = '''' then inFile else outFile)
           in case sx_encode X (JObj doc) of
                Inl e \<Rightarrow> (Inl (Err (Wrap ''marshal spdx'' (Msg e))), None)
              | Inr b \<Rightarrow>
                  (case sx_write X target b of
                     Some e \<Rightarrow> (Inl (Err (Wrap ''write spdx'' (Msg e))), Some (target, b))
                   | None \<Rightarrow> (Inr (), Some (target, b))))
      | Inr _ \<Rightarrow> (Inl (Err (Msg ''read spdx: json: cannot unmarshal into Go value of type map'')), None)))"

section \<open>What a document has\<close>

lemma update_same: "map_of al k = Some v \<Longrightarrow> AList.update k v al = al"
  by (induction al) (auto split: if_splits)

lemma ensureSlice_simps:
  "snd (ensureSlice doc k) = (case map_of doc k of Some (JArr xs) \<Rightarrow> xs | _ \<Rightarrow> [])"
  "map_of (fst (ensureSlice doc k)) k = Some (JArr (snd (ensureSlice doc k)))"
  "j \<noteq> k \<Longrightarrow> map_of (fst (ensureSlice doc k)) j = map_of doc j"
  "map_of doc k = Some (JArr xs) \<Longrightarrow> ensureSlice doc k = (doc, xs)"
  by (auto simp: ensureSlice_def update_conv' split: option.splits json.splits)

definition has_creator :: "string \<Rightarrow> jobj \<Rightarrow> bool" where
  "has_creator version doc \<longleftrightarrow> (\<exists>ci cs. map_of doc ''creationInfo'' = Some (JObj ci)
     \<and> map_of ci ''creators'' = Some (JArr cs) \<and> JStr (''Tool: '' @ toolName @ ''-'' @ version) \<in> set cs)"

definition has_described :: "string \<Rightarrow> jobj \<Rightarrow> bool" where
  "has_described sid doc \<longleftrightarrow> (\<exists>xs. map_of doc ''documentDescribes'' = Some (JArr xs) \<and> JStr sid \<in> set xs)"

definition has_relationship :: "string \<times> string \<times> string \<Rightarrow> jobj \<Rightarrow> bool" where
  "has_relationship r doc \<longleftrightarrow> (case r of (a, b, t) \<Rightarrow>
     \<exists>xs. map_of doc ''relationships'' = Some (JArr xs) \<and> list_ex (is_relationship a b t) xs)"

text \<open>A complete package for the name is found under the id.\<close>

definition has_package :: "string \<Rightarrow> string \<Rightarrow> string \<Rightarrow> jobj \<Rightarrow> bool" where
  "has_package name hex sid doc \<longleftrightarrow> (\<exists>xs. map_of doc ''packages'' = Some (JArr xs)
     \<and> find_package (trim_prefix name ''/'') hex xs = Some (xs, sid))"

subsection \<open>Each step adds what it is for, once\<close>

lemma ensureCreator_has: "has_creator v (ensureCreator doc v)"
proof -
  obtain doc1 ci where d: "ensureMap doc ''creationInfo'' = (doc1, ci)" by fastforce
  obtain ci1 cs where c: "ensureSlice ci ''creators'' = (ci1, cs)" by fastforce
  have "map_of ci1 ''creators'' = Some (JArr cs)" using ensureSlice_simps(2) [of ci "''creators''"] c by simp
  then show ?thesis by (auto simp: ensureCreator_def has_creator_def d c Let_def update_conv')
qed

lemma ensureCreator_again: "has_creator v doc \<Longrightarrow> ensureCreator doc v = doc"
  by (auto simp: has_creator_def ensureCreator_def ensureMap_def ensureSlice_def Let_def update_same)

lemma ensureCreator_other: "k \<noteq> ''creationInfo'' \<Longrightarrow> map_of (ensureCreator doc v) k = map_of doc k"
  by (auto simp: ensureCreator_def ensureMap_def Let_def update_conv' split: option.splits json.splits prod.splits)

lemma ensureDescribes_has: "has_described sid (ensureDocumentDescribesJSON doc sid)"
  using ensureSlice_simps(2) [of doc "''documentDescribes''"]
  by (auto simp: ensureDocumentDescribesJSON_def has_described_def Let_def update_conv' split: prod.splits)

lemma ensureDescribes_again: "has_described sid doc \<Longrightarrow> ensureDocumentDescribesJSON doc sid = doc"
  by (auto simp: has_described_def ensureDocumentDescribesJSON_def ensureSlice_def)

lemma ensureDescribes_other:
  "k \<noteq> ''documentDescribes'' \<Longrightarrow> map_of (ensureDocumentDescribesJSON doc sid) k = map_of doc k"
  using ensureSlice_simps(3) [of k "''documentDescribes''" doc]
  by (auto simp: ensureDocumentDescribesJSON_def Let_def update_conv' split: prod.splits)

lemma ensureRelationship_has: "has_relationship r (ensureRelationshipJSON doc r)"
  using ensureSlice_simps(2) [of doc "''relationships''"]
  by (cases r) (auto simp: ensureRelationshipJSON_def has_relationship_def is_relationship_def Let_def update_conv' split: prod.splits)

lemma ensureRelationship_again: "has_relationship r doc \<Longrightarrow> ensureRelationshipJSON doc r = doc"
  by (auto simp: has_relationship_def ensureRelationshipJSON_def ensureSlice_def split: prod.splits)

lemma ensureRelationship_keeps: "has_relationship r doc \<Longrightarrow> has_relationship r (ensureRelationshipJSON doc q)"
  by (cases q) (auto simp: has_relationship_def ensureRelationshipJSON_def ensureSlice_simps(4) Let_def update_conv')

lemma ensureRelationship_other:
  "k \<noteq> ''relationships'' \<Longrightarrow> map_of (ensureRelationshipJSON doc r) k = map_of doc k"
  using ensureSlice_simps(3) [of k "''relationships''" doc]
  by (cases r) (auto simp: ensureRelationshipJSON_def Let_def update_conv' split: prod.splits)

lemma add_relationships_other: "k \<noteq> ''relationships'' \<Longrightarrow> map_of (add_relationships rs doc) k = map_of doc k"
  unfolding add_relationships_def by (induction rs arbitrary: doc) (simp_all add: ensureRelationship_other)

lemma add_relationships_keeps: "has_relationship r doc \<Longrightarrow> has_relationship r (add_relationships rs doc)"
  unfolding add_relationships_def by (induction rs arbitrary: doc) (simp_all add: ensureRelationship_keeps)

lemma add_relationships_has: "r \<in> set rs \<Longrightarrow> has_relationship r (add_relationships rs doc)"
proof (induction rs arbitrary: doc)
  case (Cons q rs)
  then show ?case
    using add_relationships_keeps [OF ensureRelationship_has [of q doc], of rs]
    by (auto simp: add_relationships_def)
qed simp

lemma add_relationships_again: "(\<And>r. r \<in> set rs \<Longrightarrow> has_relationship r doc) \<Longrightarrow> add_relationships rs doc = doc"
  unfolding add_relationships_def by (induction rs) (simp_all add: ensureRelationship_again)

subsection \<open>Packages\<close>

text \<open>A package is left alone when it has an id and, if one is wanted, a checksum.\<close>

definition package_done :: "string \<Rightarrow> jobj \<Rightarrow> bool" where
  "package_done hex m \<longleftrightarrow> (\<exists>s. map_of m ''SPDXID'' = Some (JStr s) \<and> s \<noteq> '''')
     \<and> (hex \<noteq> '''' \<longrightarrow> (\<exists>xs. map_of m ''checksums'' = Some (JArr xs) \<and> list_ex is_sha256 xs))"

lemma makePackageID_nonempty [simp]: "makePackageID n \<noteq> []"
  by (simp add: makePackageID_def Let_def)

lemma ensureChecksum_has: "\<exists>xs. map_of (ensureChecksum m hex) ''checksums'' = Some (JArr xs) \<and> list_ex is_sha256 xs"
  by (auto simp: ensureChecksum_def Let_def update_conv' is_sha256_def split: option.splits json.splits)

lemma ensureChecksum_other: "k \<noteq> ''checksums'' \<Longrightarrow> map_of (ensureChecksum m hex) k = map_of m k"
  by (auto simp: ensureChecksum_def Let_def update_conv')

lemma ensureChecksum_keeps:
  "map_of m ''checksums'' = Some (JArr xs) \<and> list_ex is_sha256 xs \<Longrightarrow> ensureChecksum m hex = m"
  by (auto simp: ensureChecksum_def)

lemma complete_package_other:
  assumes "complete_package n hex m = (m', sid)" "k \<noteq> ''checksums''" "k \<noteq> ''SPDXID''"
  shows "map_of m' k = map_of m k"
  using assms by (auto simp: complete_package_def Let_def update_conv' ensureChecksum_other split: if_splits)

lemma complete_package_named:
  "complete_package n hex m = (m', sid) \<Longrightarrow> container_named p m' = container_named p m"
  by (simp add: container_named_def complete_package_other)

lemma complete_package_id:
  "complete_package n hex m = (m', sid) \<Longrightarrow> map_of m' ''SPDXID'' = Some (JStr sid) \<and> sid \<noteq> ''''"
  by (auto simp: complete_package_def Let_def update_conv' split: if_splits option.splits json.splits)

lemma complete_package_checksums:
  assumes "complete_package n hex m = (m', sid)"
  shows "map_of m' ''checksums'' = map_of (if hex \<noteq> '''' then ensureChecksum m hex else m) ''checksums''"
  using assms by (auto simp: complete_package_def Let_def update_conv' split: if_splits)

lemma complete_package_done:
  assumes "complete_package n hex m = (m', sid)"
  shows "package_done hex m' \<and> (package_done hex' m \<longrightarrow> package_done hex' m' \<and> map_of m' ''SPDXID'' = map_of m ''SPDXID'')"
proof (intro conjI impI)
  show "package_done hex m'"
    using complete_package_id [OF assms] complete_package_checksums [OF assms] ensureChecksum_has [of m hex]
    unfolding package_done_def by auto
  assume d: "package_done hex' m"
  then show "map_of m' ''SPDXID'' = map_of m ''SPDXID''"
    using assms by (auto simp: package_done_def complete_package_def Let_def ensureChecksum_other split: if_splits)
  with d show "package_done hex' m'"
    using complete_package_checksums [OF assms] ensureChecksum_keeps [of m _ hex]
    unfolding package_done_def by (auto split: if_splits)
qed

lemma complete_package_again:
  "package_done hex m \<Longrightarrow> map_of m ''SPDXID'' = Some (JStr sid) \<Longrightarrow> complete_package n hex m = (m, sid)"
  using ensureChecksum_keeps by (auto simp: package_done_def complete_package_def Let_def)

lemma complete_package_twice: "complete_package n hex m = (m', sid) \<Longrightarrow> complete_package n hex m' = (m', sid)"
  using complete_package_done complete_package_id complete_package_again by blast

lemma find_package_again:
  "find_package n hex xs = Some (xs', sid) \<Longrightarrow> find_package n hex xs' = Some (xs', sid)"
proof (induction xs arbitrary: xs')
  case (Cons p ps)
  show ?case
  proof (cases "\<exists>m. p = JObj m \<and> container_named n m")
    case True
    then obtain m m' where m: "container_named n m" "complete_package n hex m = (m', sid)" "xs' = JObj m' # ps"
      using Cons.prems by (auto split: prod.splits)
    then show ?thesis
      using complete_package_twice [OF m(2)] complete_package_named [OF m(2)] by simp
  next
    case False
    then obtain zs where "find_package n hex ps = Some (zs, sid)" "xs' = p # zs"
      using Cons.prems by (auto split: json.splits)
    with Cons.IH False show ?thesis by (auto split: json.splits)
  qed
qed simp

lemma find_package_id: "find_package n hex xs = Some (ys, sid) \<Longrightarrow> sid \<noteq> ''''"
  by (induction xs arbitrary: ys) (auto split: json.splits if_splits prod.splits dest: complete_package_id)

lemma find_package_append:
  "find_package n hex xs = Some (xs, sid) \<Longrightarrow> find_package n hex (xs @ ys) = Some (xs @ ys, sid)"
  by (induction xs) (auto split: json.splits if_splits prod.splits)

lemma new_package_found: "find_package n hex [JObj (new_package n hex)] = Some ([JObj (new_package n hex)], makePackageID n)"
proof -
  have "container_named n (new_package n hex)" "map_of (new_package n hex) ''SPDXID'' = Some (JStr (makePackageID n))"
    by (simp_all add: container_named_def new_package_def Let_def ensureChecksum_other)
  moreover have "package_done hex (new_package n hex)"
    using ensureChecksum_has by (auto simp: package_done_def new_package_def Let_def ensureChecksum_other)
  ultimately show ?thesis by (simp add: complete_package_again)
qed

lemma find_package_new:
  "find_package n hex xs = None \<Longrightarrow>
   find_package n hex (xs @ [JObj (new_package n hex)]) = Some (xs @ [JObj (new_package n hex)], makePackageID n)"
proof (induction xs)
  case Nil
  show ?case unfolding append_Nil by (rule new_package_found)
next
  case (Cons p ps)
  then show ?case by (auto split: json.splits if_splits prod.splits)
qed

lemma find_package_keeps:
  "find_package n h xs = Some (xs, sid) \<Longrightarrow> find_package n2 h2 xs = Some (ys, sid2) \<Longrightarrow> find_package n h ys = Some (ys, sid)"
proof (induction xs arbitrary: ys)
  case (Cons p ps)
  show ?case
  proof (cases p)
    case (JObj m)
    show ?thesis
    proof (cases "container_named n m")
      case named: True
      then have m: "complete_package n h m = (m, sid)"
        using Cons.prems(1) JObj by (auto split: prod.splits)
      show ?thesis
      proof (cases "container_named n2 m")
        case True
        then obtain m2 where m2: "complete_package n2 h2 m = (m2, sid2)" "ys = JObj m2 # ps"
          using Cons.prems(2) JObj by (auto split: prod.splits)
        have "package_done h m2" "map_of m2 ''SPDXID'' = Some (JStr sid)"
          using complete_package_done [OF m] complete_package_done [OF m2(1), of h] complete_package_id [OF m] by simp_all
        then show ?thesis
          using named by (simp add: m2 complete_package_named [OF m2(1)] complete_package_again)
      next
        case False
        then show ?thesis using Cons.prems JObj named m by auto
      qed
    next
      case False
      then have rest: "find_package n h ps = Some (ps, sid)" using Cons.prems(1) JObj by auto
      show ?thesis
      proof (cases "container_named n2 m")
        case True
        then obtain m2 where m2: "complete_package n2 h2 m = (m2, sid2)" "ys = JObj m2 # ps"
          using Cons.prems(2) JObj by (auto split: prod.splits)
        then show ?thesis using rest False by (simp add: complete_package_named [OF m2(1)])
      next
        case unnamed: False
        then obtain zs where "find_package n2 h2 ps = Some (zs, sid2)" "ys = p # zs"
          using Cons.prems(2) JObj by auto
        with Cons.IH [OF rest] JObj False show ?thesis by auto
      qed
    qed
  qed (use Cons in auto)
qed simp

lemma ensurePackage_has:
  assumes "ensureContainerPackageJSON doc name hex = (doc', sid)"
  shows "has_package name hex sid doc' \<and> sid \<noteq> ''''"
proof -
  let ?n = "trim_prefix name ''/''"
  obtain d xs where d: "ensureSlice doc ''packages'' = (d, xs)" by fastforce
  show ?thesis
  proof (cases "find_package ?n hex xs")
    case None
    then show ?thesis
      using assms find_package_new [OF None] by (auto simp: ensureContainerPackageJSON_def d Let_def has_package_def update_conv')
  next
    case (Some a)
    then obtain ys where ys: "find_package ?n hex xs = Some (ys, sid)" "doc' = AList.update ''packages'' (JArr ys) d"
      using assms by (cases a) (auto simp: ensureContainerPackageJSON_def d Let_def)
    then have "find_package ?n hex ys = Some (ys, sid)" by (blast intro: find_package_again)
    then show ?thesis using ys find_package_id by (auto simp: has_package_def update_conv')
  qed
qed

lemma ensurePackage_again: "has_package name hex sid doc \<Longrightarrow> ensureContainerPackageJSON doc name hex = (doc, sid)"
  by (auto simp: has_package_def ensureContainerPackageJSON_def ensureSlice_simps(4) Let_def update_same)

lemma ensurePackage_keeps:
  assumes "has_package n h sid doc" "ensureContainerPackageJSON doc name hex = (doc', sid')"
  shows "has_package n h sid doc'"
proof -
  obtain xs where xs: "map_of doc ''packages'' = Some (JArr xs)" "find_package (trim_prefix n ''/'') h xs = Some (xs, sid)"
    using assms(1) by (auto simp: has_package_def)
  show ?thesis
  proof (cases "find_package (trim_prefix name ''/'') hex xs")
    case None
    then show ?thesis
      using assms(2) xs find_package_append [OF xs(2)]
      by (auto simp: ensureContainerPackageJSON_def ensureSlice_simps(4) Let_def has_package_def update_conv')
  next
    case (Some a)
    then show ?thesis
      using assms(2) xs find_package_keeps [OF xs(2)]
      by (cases a) (auto simp: ensureContainerPackageJSON_def ensureSlice_simps(4) Let_def has_package_def update_conv')
  qed
qed

lemma ensurePackage_other:
  "ensureContainerPackageJSON doc name hex = (doc', sid) \<Longrightarrow> k \<noteq> ''packages'' \<Longrightarrow> map_of doc' k = map_of doc k"
  using ensureSlice_simps(3) [of k "''packages''" doc]
  by (auto simp: ensureContainerPackageJSON_def Let_def update_conv' split: prod.splits option.splits)

section \<open>Wrapping twice\<close>

lemma has_other:
  "(\<And>k. k \<noteq> ''relationships'' \<Longrightarrow> map_of d' k = map_of d k) \<Longrightarrow>
     has_creator v d' = has_creator v d \<and> has_described sid d' = has_described sid d \<and> has_package n h sid d' = has_package n h sid d
     \<and> prev_described d' = prev_described d"
  by (simp add: has_creator_def has_described_def has_package_def prev_described_def)

definition result_links :: "string \<Rightarrow> string list \<Rightarrow> (string \<times> string \<times> string) list" where
  "result_links rid ids = concat (map (\<lambda>sid. [(rid, sid, ''DEPENDS_ON''), (sid, rid, ''DEPENDENCY_OF'')])
     (filter (\<lambda>sid. sid \<noteq> '''' \<and> sid \<noteq> rid) ids))"

definition base_links :: "string \<Rightarrow> string \<Rightarrow> (string \<times> string \<times> string) list" where
  "base_links rid bid = [(rid, bid, ''DESCENDANT_OF''), (rid, bid, ''DEPENDS_ON''), (bid, rid, ''DEPENDENCY_OF'')]"

lemma prev_described_ensure:
  "set (prev_described (ensureDocumentDescribesJSON doc sid)) = insert sid (set (prev_described doc))"
  by (auto simp: prev_described_def ensureDocumentDescribesJSON_def ensureSlice_def Let_def update_conv' map_filter_def
      split: option.splits json.splits)

definition result_name :: "string \<Rightarrow> Hash \<Rightarrow> string" where
  "result_name nm h = nm @ ''@'' @ hs_algorithm h @ '':'' @ hs_hex h"

definition result_known :: "string \<Rightarrow> Hash \<Rightarrow> bool" where
  "result_known nm h \<longleftrightarrow> nm \<noteq> '''' \<and> hs_algorithm h = ''sha256'' \<and> hs_hex h \<noteq> ''''"

lemma describe_result_unfold:
  "describe_result nm h doc =
     (if result_known nm h then
        (let (d, rid) = ensureContainerPackageJSON doc (result_name nm h) '''' in
         (add_relationships (result_links rid (prev_described doc)) (ensureDocumentDescribesJSON d rid), rid))
      else (doc, ''''))"
  by (simp add: describe_result_def result_known_def result_name_def result_links_def Let_def split: prod.split)

lemma describe_result_settles:
  assumes "describe_result nm h doc = (d, rid)" "result_known nm h"
  shows "has_package (result_name nm h) '''' rid d" "has_described rid d" "rid \<noteq> ''''"
    "\<And>r. r \<in> set (result_links rid (prev_described doc)) \<Longrightarrow> has_relationship r d"
    "set (prev_described d) = insert rid (set (prev_described doc))"
proof -
  obtain d1 where d1: "ensureContainerPackageJSON doc (result_name nm h) '''' = (d1, rid)"
      and d: "d = add_relationships (result_links rid (prev_described doc)) (ensureDocumentDescribesJSON d1 rid)"
    using assms by (auto simp: describe_result_unfold Let_def split: prod.splits)
  note other = has_other [OF add_relationships_other]
  have "has_package (result_name nm h) '''' rid (ensureDocumentDescribesJSON d1 rid)"
    using ensurePackage_has [OF d1] by (simp add: has_package_def ensureDescribes_other)
  then show "has_package (result_name nm h) '''' rid d" using other d by simp
  show "has_described rid d" using other d ensureDescribes_has by simp
  show "rid \<noteq> ''''" using ensurePackage_has [OF d1] by simp
  show "has_relationship r d" if "r \<in> set (result_links rid (prev_described doc))" for r
    using add_relationships_has [OF that] d by simp
  have "prev_described d1 = prev_described doc"
    using ensurePackage_other [OF d1] by (simp add: prev_described_def)
  then show "set (prev_described d) = insert rid (set (prev_described doc))"
    using other d by (simp add: prev_described_ensure)
qed

lemma result_links_cong: "set ids = insert rid (set ids') \<Longrightarrow> set (result_links rid ids) = set (result_links rid ids')"
  by (auto simp: result_links_def)

lemma describe_result_again:
  assumes "has_package (result_name nm h) '''' rid d" "has_described rid d" "result_known nm h"
    and "\<And>r. r \<in> set (result_links rid (prev_described d)) \<Longrightarrow> has_relationship r d"
  shows "describe_result nm h d = (d, rid)"
  using assms by (simp add: describe_result_unfold ensurePackage_again ensureDescribes_again add_relationships_again)

lemma relate_base_unfold:
  "relate_base rid b x doc =
     (let (d, bid) = (if b \<noteq> '''' then ensureContainerPackageJSON doc b x else (doc, '''')) in
      if rid \<noteq> '''' \<and> bid \<noteq> '''' then add_relationships (base_links rid bid) d else d)"
  by (simp add: relate_base_def base_links_def split: prod.split)

lemma relate_base_keeps:
  shows "k \<noteq> ''packages'' \<Longrightarrow> k \<noteq> ''relationships'' \<Longrightarrow> map_of (relate_base rid b x doc) k = map_of doc k"
    "has_package n hx sid doc \<Longrightarrow> has_package n hx sid (relate_base rid b x doc)"
    "has_relationship r doc \<Longrightarrow> has_relationship r (relate_base rid b x doc)"
proof -
  obtain d bid where e: "ensureContainerPackageJSON doc b x = (d, bid)" by fastforce
  have d: "relate_base rid b x doc = (if b \<noteq> '''' then if rid \<noteq> '''' then add_relationships (base_links rid bid) d else d else doc)"
    using ensurePackage_has [OF e] by (auto simp: relate_base_unfold e)
  show "map_of (relate_base rid b x doc) k = map_of doc k" if "k \<noteq> ''packages''" "k \<noteq> ''relationships''"
    using that ensurePackage_other [OF e] by (simp add: d add_relationships_other)
  show "has_package n hx sid (relate_base rid b x doc)" if "has_package n hx sid doc"
    using that ensurePackage_keeps [OF that e] has_other [OF add_relationships_other] by (simp add: d)
  have "has_relationship r d" if "has_relationship r doc"
    using that ensurePackage_other [OF e, of "''relationships''"] by (simp add: has_relationship_def)
  then show "has_relationship r (relate_base rid b x doc)" if "has_relationship r doc"
    using that by (simp add: d add_relationships_keeps)
qed

lemma relate_base_again: "relate_base rid b x (relate_base rid b x doc) = relate_base rid b x doc"
proof (cases "b = ''''")
  case True
  then show ?thesis by (simp add: relate_base_unfold)
next
  case False
  obtain d bid where e: "ensureContainerPackageJSON doc b x = (d, bid)" by fastforce
  let ?d = "if rid \<noteq> '''' then add_relationships (base_links rid bid) d else d"
  have d: "relate_base rid b x doc = ?d"
    using ensurePackage_has [OF e] False by (simp add: relate_base_unfold e)
  have "has_package b x bid ?d"
    using ensurePackage_has [OF e] has_other [OF add_relationships_other] by simp
  from ensurePackage_again [OF this] have "relate_base rid b x ?d
      = (if rid \<noteq> '''' then add_relationships (base_links rid bid) ?d else ?d)"
    using ensurePackage_has [OF e] False by (simp add: relate_base_unfold)
  also have "\<dots> = ?d"
    using add_relationships_again [of "base_links rid bid" ?d] add_relationships_has by auto
  finally show ?thesis using d by simp
qed

text \<open>
  C35: wrapping a document again changes nothing. Enriching the enriched document, for the same tool,
  result and base, gives it back: no creator, package, checksum or relationship is ever added twice,
  whatever the document had before.
\<close>

theorem enrich_idempotent:
  "enrich v nm h b x (enrich v nm h b x doc) = enrich v nm h b x doc"
proof -
  let ?d0 = "ensureCreator doc v"
  obtain d1 rid where d1: "describe_result nm h ?d0 = (d1, rid)" by fastforce
  let ?d2 = "relate_base rid b x d1"
  have e: "enrich v nm h b x doc = ?d2" by (simp add: enrich_def d1)
  have "map_of ?d2 ''creationInfo'' = map_of ?d0 ''creationInfo''"
  proof -
    have "map_of d1 ''creationInfo'' = map_of ?d0 ''creationInfo''"
      using d1 ensurePackage_other [of ?d0 "result_name nm h" "''''" _ _ "''creationInfo''"]
      by (auto simp: describe_result_unfold add_relationships_other ensureDescribes_other split: if_splits prod.splits)
    then show ?thesis by (simp add: relate_base_keeps(1))
  qed
  then have "has_creator v ?d2" using ensureCreator_has [of v doc] by (simp add: has_creator_def)
  then have c: "ensureCreator ?d2 v = ?d2" by (rule ensureCreator_again)
  have "describe_result nm h ?d2 = (?d2, rid)"
  proof (cases "result_known nm h")
    case False
    then show ?thesis using d1 by (simp add: describe_result_unfold)
  next
    case True
    note s = describe_result_settles [OF d1 True]
    have prev: "prev_described ?d2 = prev_described d1"
      by (simp add: prev_described_def relate_base_keeps(1))
    have links: "has_relationship r ?d2" if "r \<in> set (result_links rid (prev_described ?d2))" for r
    proof -
      have "r \<in> set (result_links rid (prev_described ?d0))" using that result_links_cong [OF s(5)] prev by simp
      then show ?thesis by (rule relate_base_keeps(3) [OF s(4)])
    qed
    have "has_described rid ?d2" using s(2) by (simp add: has_described_def relate_base_keeps(1))
    then show ?thesis using links True s(1) by (blast intro: describe_result_again relate_base_keeps(2))
  qed
  then show ?thesis by (simp add: e) (simp add: enrich_def c relate_base_again)
qed

text \<open>
  Different names can have the same package id, and then two packages of one document share it, though
  SPDX identifiers are meant to be unique within a document.
\<close>

lemma package_ids_collide:
  "(let (d1, i1) = ensureContainerPackageJSON [] ''r/a-b'' '''';
        (d2, i2) = ensureContainerPackageJSON d1 ''r/a/b'' '''' in
    i1 = i2 \<and> (case map_of d2 ''packages'' of Some (JArr ps) \<Rightarrow> length ps | _ \<Rightarrow> 0) = 2)"
  by code_simp

end
