(* ===== verification/Pod_Sync.thy ===== *)
theory Pod_Sync
  imports Schema_Layers
begin

text \<open>
  Sync of a layer to a running container (\<open>pkg/run\<close>). \<open>kubectl\<close> and the decoding of its JSON are
  parameters. The state has what kubectl acts on and, in order, the listings that were read, the
  pauses and the copies.
\<close>

section \<open>Pods (getpods\_kubectl.go)\<close>

record RunpodMetadata =
  pm_name :: string
  pm_namespace :: string
  pm_created :: string

record RunpodContainerStatusState =
  cs_waiting :: string    \<comment> \<open>\<open>Waiting.Reason\<close>\<close>
  cs_running :: string    \<comment> \<open>\<open>Running.StartedAt\<close>\<close>
  cs_terminated :: string \<comment> \<open>\<open>Terminated.Reason\<close>\<close>

record RunpodContainerStatus =
  rc_name :: string
  rc_image :: string
  rc_ready :: bool
  rc_restarts :: int
  rc_started :: bool
  rc_state :: RunpodContainerStatusState

record Runpod =
  rp_metadata :: RunpodMetadata
  rp_phase :: string
  rp_statuses :: "RunpodContainerStatus list"

record SyncTarget =
  tg_pod :: RunpodMetadata
  tg_container :: RunpodContainerStatus

text \<open>
  \<open>kb_run\<close> starts kubectl with arguments and, maybe, a stdin and gives its error, if any, and its
  stdout; \<open>kb_pods\<close> decodes a listing, and what could be decoded counts (the error of
  \<open>json.Unmarshal\<close> is ignored); \<open>kb_compressed\<close> is \<open>Compressed()\<close> of a layer.
\<close>

record ('l, 'w) kube =
  kb_run :: "string list \<Rightarrow> bytes option \<Rightarrow> 'w \<Rightarrow> (string option \<times> bytes) \<times> 'w"
  kb_pods :: "bytes \<Rightarrow> Runpod list"
  kb_sleep :: "int \<Rightarrow> 'w \<Rightarrow> 'w"
  kb_compressed :: "'l \<Rightarrow> string + bytes"

datatype sync_event =
    Listed "string list" "Runpod list"
  | Slept int
  | Copied "string list" bytes

record 'w sync_state =
  ss_world :: 'w
  ss_events :: "sync_event list"

definition happens :: "sync_event \<Rightarrow> 'w \<Rightarrow> 'w sync_state \<Rightarrow> 'w sync_state" where
  "happens e w s = s\<lparr>ss_world := w, ss_events := ss_events s @ [e]\<rparr>"

definition get_args :: "ContainConfigSync \<Rightarrow> string list" where
  "get_args config =
     [''get'', ''pods'', ''-o'', ''json'', ''--selector'', sy_podSelector config]
     @ (if sy_namespace config \<noteq> '''' then [''-n'', sy_namespace config] else [])"

text \<open>\<open>PodInfo\<close>; a failed call is recorded as an empty listing, for which its caller takes it.\<close>

definition PodInfo ::
  "('l, 'w) kube \<Rightarrow> ContainConfigSync \<Rightarrow> 'w sync_state \<Rightarrow> (stop + Runpod list) \<times> 'w sync_state" where
  "PodInfo K config s =
     (if sy_podSelector config = '''' then (Inl (Exit ''pod selector is required''), s)
      else
       (case kb_run K (get_args config) None (ss_world s) of
          ((Some e, out), w) \<Rightarrow> (Inl (Err (Msg e)), happens (Listed (get_args config) []) w s)
        | ((None, out), w) \<Rightarrow> (Inr (kb_pods K out), happens (Listed (get_args config) (kb_pods K out)) w s)))"

section \<open>The copy (layercopy\_kubectl.go)\<close>

definition copy_args :: "SyncTarget \<Rightarrow> string list" where
  "copy_args target =
     [''exec'', pm_name (tg_pod target), ''--namespace'', pm_namespace (tg_pod target),
      ''-c'', rc_name (tg_container target), ''-i'', ''--'', ''tar'', ''xvzmf'', ''-'', ''-C'', ''/'',
      ''--no-same-owner'', ''--overwrite'']"

definition LayerToContainer ::
  "('l, 'w) kube \<Rightarrow> 'l \<Rightarrow> SyncTarget \<Rightarrow> 'w sync_state \<Rightarrow> (stop + unit) \<times> 'w sync_state" where
  "LayerToContainer K layer target s =
     (case kb_compressed K layer of
        Inl e \<Rightarrow> (Inl (Err (Msg e)), s)
      | Inr tgz \<Rightarrow>
          (case kb_run K (copy_args target) (Some tgz) (ss_world s) of
             ((Some e, out), w) \<Rightarrow> (Inl (Err (Msg e)), happens (Copied (copy_args target) tgz) w s)
           | ((None, out), w) \<Rightarrow> (Inr (), happens (Copied (copy_args target) tgz) w s)))"

section \<open>The target (containersync.go)\<close>

text \<open>The loop of \<open>MatchPod\<close> over the containers, with \<open>container\<close>.\<close>

fun match_containers ::
  "string \<Rightarrow> RunpodContainerStatus option \<Rightarrow> RunpodContainerStatus list \<Rightarrow> RunpodContainerStatus option" where
  "match_containers imagePrefix container [] = container"
| "match_containers imagePrefix container (cs # css) =
     (if has_prefix (rc_image cs) imagePrefix then
       (if cs_waiting (rc_state cs) \<noteq> '''' then None
        else if cs_running (rc_state cs) = '''' then None
        else if container \<noteq> None then None
        else match_containers imagePrefix (Some cs) css)
      else match_containers imagePrefix container css)"

definition MatchPod :: "string \<Rightarrow> Runpod \<Rightarrow> RunpodContainerStatus option" where
  "MatchPod imagePrefix pod =
     (if rp_phase pod \<noteq> ''Running'' then None
      else match_containers imagePrefix None (rp_statuses pod))"

text \<open>The loop of \<open>PodWait\<close> over the pods, with \<open>target\<close>.\<close>

fun pick_target :: "string \<Rightarrow> SyncTarget option \<Rightarrow> Runpod list \<Rightarrow> go_err + SyncTarget option" where
  "pick_target imagePrefix target [] = Inr target"
| "pick_target imagePrefix target (pod # pods) =
     (case MatchPod imagePrefix pod of
        None \<Rightarrow> pick_target imagePrefix target pods
      | Some container \<Rightarrow>
          (case target of
             Some t \<Rightarrow> Inl (Msg (''more than one target pod: '' @ pm_name (tg_pod t) @ '' and ''
                                 @ pm_name (rp_metadata pod)))
           | None \<Rightarrow> pick_target imagePrefix
                       (Some \<lparr>tg_pod = rp_metadata pod, tg_container = container\<rparr>) pods))"

function PodWait ::
  "('l, 'w) kube \<Rightarrow> ContainConfig \<Rightarrow> int \<Rightarrow> 'w sync_state \<Rightarrow> (stop + SyncTarget) \<times> 'w sync_state" where
  "PodWait K config attempt s =
     (let sync = cf_sync config in
      if attempt > sy_getAttemptsMax sync
      then (Inl (Err (Msg (''get sync pod max retries '' @ itoa (sy_getAttemptsMax sync)))), s)
      else
       (case PodInfo K sync s of
          (Inl (Exit e), s1) \<Rightarrow> (Inl (Exit e), s1)
        | (info, s1) \<Rightarrow>
            (case pick_target (cf_base config) None (case info of Inl e \<Rightarrow> [] | Inr pods \<Rightarrow> pods) of
               Inl e \<Rightarrow> (Inl (Err e), s1)
             | Inr (Some target) \<Rightarrow> (Inr target, s1)
             | Inr None \<Rightarrow>
                 PodWait K config (attempt + 1)
                   (happens (Slept (sy_getAttemptsWait sync)) (kb_sleep K (sy_getAttemptsWait sync) (ss_world s1)) s1))))"
  by pat_completeness auto
termination
  by (relation "measure (\<lambda>(K, config, attempt, s). nat (sy_getAttemptsMax (cf_sync config) + 1 - attempt))") auto

declare PodWait.simps [simp del]

definition sync_Run ::
  "('l, 'w) kube \<Rightarrow> ContainConfig \<Rightarrow> 'l list \<Rightarrow> 'w sync_state \<Rightarrow> (stop + SyncTarget) \<times> 'w sync_state" where
  "sync_Run K config layers s =
     (case layers of
        [layer] \<Rightarrow>
          (case PodWait K config 1 s of
             (Inl (Exit e), s1) \<Rightarrow> (Inl (Exit e), s1)
           | (Inl (Err e), s1) \<Rightarrow> (Inl (Err (Msg ''sync target not found'')), s1)
           | (Inr target, s1) \<Rightarrow>
               (case LayerToContainer K layer target s1 of
                  (Inl e, s2) \<Rightarrow> (Inl e, s2)
                | (Inr _, s2) \<Rightarrow> (Inr target, s2)))
      | _ \<Rightarrow> (Inl (Err (Msg (''only single layer sync is supported at the momemnt, got '' @ itoa (int (length layers))))), s))"

section \<open>Which container is chosen\<close>

definition running :: "RunpodContainerStatus \<Rightarrow> bool" where
  "running cs \<longleftrightarrow> cs_waiting (rc_state cs) = '''' \<and> cs_running (rc_state cs) \<noteq> ''''"

text \<open>The targets that the pods of a listing offer.\<close>

definition candidates :: "string \<Rightarrow> Runpod list \<Rightarrow> SyncTarget list" where
  "candidates imagePrefix pods =
     List.map_filter (\<lambda>pod. map_option (\<lambda>c. \<lparr>tg_pod = rp_metadata pod, tg_container = c\<rparr>)
                             (MatchPod imagePrefix pod)) pods"

lemma candidates_simps [simp]:
  "candidates p [] = []"
  "candidates p (pod # pods) =
     (case MatchPod p pod of None \<Rightarrow> candidates p pods
      | Some c \<Rightarrow> \<lparr>tg_pod = rp_metadata pod, tg_container = c\<rparr> # candidates p pods)"
  by (auto simp: candidates_def List.map_filter_def split: option.splits)

lemma match_containers_Some:
  "match_containers p (Some c) css = (if \<exists>cs \<in> set css. has_prefix (rc_image cs) p then None else Some c)"
  by (induction css) auto

text \<open>A pod is suited exactly if it runs and has one container of the image, and that one runs.\<close>

lemma MatchPod_iff:
  "MatchPod p pod = Some c \<longleftrightarrow>
     rp_phase pod = ''Running'' \<and> filter (\<lambda>cs. has_prefix (rc_image cs) p) (rp_statuses pod) = [c] \<and> running c"
proof -
  have "match_containers p None css = Some c \<longleftrightarrow> filter (\<lambda>cs. has_prefix (rc_image cs) p) css = [c] \<and> running c"
    for css
    by (induction css) (auto simp: match_containers_Some running_def filter_empty_conv)
  then show ?thesis by (simp add: MatchPod_def)
qed

lemma pick_target_Some:
  "pick_target p (Some t) pods = Inr x \<longleftrightarrow> candidates p pods = [] \<and> x = Some t"
  by (induction pods) (auto split: option.splits)

lemma pick_target_iff:
  "pick_target p None pods = Inr None \<longleftrightarrow> candidates p pods = []"
  "pick_target p None pods = Inr (Some t) \<longleftrightarrow> candidates p pods = [t]"
  by (induction pods) (auto simp: pick_target_Some split: option.splits)

lemma pick_target_Inl: "pick_target p None pods = Inl e \<Longrightarrow> 2 \<le> length (candidates p pods)"
  by (cases "candidates p pods" rule: list.exhaust; cases "tl (candidates p pods)")
    (auto simp flip: pick_target_iff)

section \<open>The wait\<close>

text \<open>Rounds that ended with a pause.\<close>

definition idle_rounds :: "ContainConfigSync \<Rightarrow> Runpod list list \<Rightarrow> sync_event list" where
  "idle_rounds sync ls = concat (map (\<lambda>ps. [Listed (get_args sync) ps, Slept (sy_getAttemptsWait sync)]) ls)"

lemma idle_rounds_simps [simp]:
  "idle_rounds sync [] = []"
  "idle_rounds sync (ps # ls) = Listed (get_args sync) ps # Slept (sy_getAttemptsWait sync) # idle_rounds sync ls"
  by (simp_all add: idle_rounds_def)

lemma PodInfo_cases:
  assumes "PodInfo K sync s = (r, s1)" and "sy_podSelector sync \<noteq> ''''"
  obtains ps where "(case r of Inl e \<Rightarrow> [] | Inr pods \<Rightarrow> pods) = ps"
    and "ss_events s1 = ss_events s @ [Listed (get_args sync) ps]" and "\<And>e. r \<noteq> Inl (Exit e)"
  using assms that
  by (cases "kb_run K (get_args sync) None (ss_world s)")
    (auto simp: PodInfo_def happens_def split: prod.splits option.splits)

text \<open>What a wait from \<open>attempt\<close> does: idle rounds \<open>ls\<close>, then the outcome \<open>r\<close> after the events \<open>es\<close>.\<close>

definition waited ::
  "ContainConfig \<Rightarrow> int \<Rightarrow> Runpod list list \<Rightarrow> stop + SyncTarget \<Rightarrow> sync_event list \<Rightarrow> bool" where
  "waited config attempt ls r es \<longleftrightarrow>
     (let sync = cf_sync config; p = cf_base config in
      (\<forall>ps \<in> set ls. candidates p ps = []) \<and>
      ((\<exists>e. r = Inl (Err e) \<and> es = idle_rounds sync ls \<and> length ls = nat (sy_getAttemptsMax sync + 1 - attempt)) \<or>
       (\<exists>ps. es = idle_rounds sync ls @ [Listed (get_args sync) ps] \<and>
             int (length ls) \<le> sy_getAttemptsMax sync - attempt \<and>
             (case r of Inl (Err e) \<Rightarrow> 2 \<le> length (candidates p ps) | Inl (Exit e) \<Rightarrow> False
              | Inr t \<Rightarrow> candidates p ps = [t]))))"

lemma waited_idle:
  assumes "waited config (attempt + 1) ls r es" and "candidates (cf_base config) ps = []"
    and "attempt \<le> sy_getAttemptsMax (cf_sync config)"
  shows "waited config attempt (ps # ls) r
           (Listed (get_args (cf_sync config)) ps # Slept (sy_getAttemptsWait (cf_sync config)) # es)"
  using assms by (auto simp: waited_def Let_def nat_eq_iff)

lemma waited_over:
  "attempt > sy_getAttemptsMax (cf_sync config) \<Longrightarrow> waited config attempt [] (Inl (Err e)) []"
  by (auto simp: waited_def Let_def)

lemma waited_now:
  "candidates (cf_base config) ps = [t] \<Longrightarrow> attempt \<le> sy_getAttemptsMax (cf_sync config) \<Longrightarrow>
   waited config attempt [] (Inr t) [Listed (get_args (cf_sync config)) ps]"
  "2 \<le> length (candidates (cf_base config) ps) \<Longrightarrow> attempt \<le> sy_getAttemptsMax (cf_sync config) \<Longrightarrow>
   waited config attempt [] (Inl (Err e)) [Listed (get_args (cf_sync config)) ps]"
  by (auto simp: waited_def Let_def)

lemma PodWait_waited:
  assumes "PodWait K config attempt s = (r, s')" and "sy_podSelector (cf_sync config) \<noteq> ''''"
  shows "\<exists>ls es. ss_events s' = ss_events s @ es \<and> waited config attempt ls r es"
  using assms
proof (induction K config attempt s arbitrary: r s' rule: PodWait.induct)
  case (1 K config attempt s)
  let ?sync = "cf_sync config" and ?p = "cf_base config"
  show ?case
  proof (cases "attempt > sy_getAttemptsMax ?sync")
    case True
    with 1(3) have "s' = s" "\<exists>e. r = Inl (Err e)"
      by (auto simp add: PodWait.simps [of K config attempt s] Let_def)
    with waited_over [OF True] show ?thesis by auto
  next
    case False
    obtain info s1 where pi: "PodInfo K ?sync s = (info, s1)" by fastforce
    obtain ps where ps: "(case info of Inl e \<Rightarrow> [] | Inr pods \<Rightarrow> pods) = ps"
        "ss_events s1 = ss_events s @ [Listed (get_args ?sync) ps]" "\<And>e. info \<noteq> Inl (Exit e)"
      using PodInfo_cases [OF pi 1(4)] by blast
    have run: "PodWait K config attempt s =
        (case pick_target ?p None ps of
           Inl e \<Rightarrow> (Inl (Err e), s1)
         | Inr (Some target) \<Rightarrow> (Inr target, s1)
         | Inr None \<Rightarrow> PodWait K config (attempt + 1)
             (happens (Slept (sy_getAttemptsWait ?sync)) (kb_sleep K (sy_getAttemptsWait ?sync) (ss_world s1)) s1))"
      using False pi ps(1,3) by (auto simp: PodWait.simps [of K config attempt s] Let_def split: sum.splits stop.splits)
    show ?thesis
    proof (cases "pick_target ?p None ps")
      case (Inl e)
      with run 1(3) have "s' = s1" "r = Inl (Err e)" by simp_all
      with ps(2) waited_now(2) [OF pick_target_Inl [OF Inl]] False show ?thesis
        by (intro exI [of _ "[]"] exI [of _ "[Listed (get_args ?sync) ps]"]) auto
    next
      case (Inr o')
      show ?thesis
      proof (cases o')
        case (Some t)
        with Inr run 1(3) have "s' = s1" "r = Inr t" by simp_all
        moreover have "candidates ?p ps = [t]" using Inr Some by (simp add: pick_target_iff)
        ultimately show ?thesis using ps(2) waited_now(1) [of config ps t attempt] False
          by (intro exI [of _ "[]"] exI [of _ "[Listed (get_args ?sync) ps]"]) auto
      next
        case None
        let ?s2 = "happens (Slept (sy_getAttemptsWait ?sync)) (kb_sleep K (sy_getAttemptsWait ?sync) (ss_world s1)) s1"
        have cand: "candidates ?p ps = []" using Inr None by (simp add: pick_target_iff)
        have next_round: "PodWait K config (attempt + 1) ?s2 = (r, s')" using run Inr None 1(3) by simp
        have "\<exists>ls es. ss_events s' = ss_events ?s2 @ es \<and> waited config (attempt + 1) ls r es"
        proof (cases info)
          case (Inl e)
          then obtain m where "e = Err m" using ps(3) by (cases e) auto
          with Inl pi ps(1) Inr None False show ?thesis
            by (intro 1(1) [OF refl _ _ _ _ _ _ next_round 1(4)]) auto
        next
          case Inr_info: (Inr pods)
          with pi ps(1) Inr None False show ?thesis
            by (intro 1(2) [OF refl _ _ _ _ _ next_round 1(4)]) auto
        qed
        then obtain ls es where rest: "ss_events s' = ss_events ?s2 @ es" "waited config (attempt + 1) ls r es"
          by blast
        have "ss_events s' = ss_events s @
            (Listed (get_args ?sync) ps # Slept (sy_getAttemptsWait ?sync) # es)"
          using rest(1) ps(2) by (simp add: happens_def)
        moreover have "attempt \<le> sy_getAttemptsMax ?sync" using False by simp
        ultimately show ?thesis using waited_idle [OF rest(2) cand] by blast
      qed
    qed
  qed
qed

section \<open>The sync\<close>

lemma LayerToContainer_events:
  assumes "LayerToContainer K layer t s = (r, s')"
  shows "(\<exists>tgz. kb_compressed K layer = Inr tgz \<and> ss_events s' = ss_events s @ [Copied (copy_args t) tgz]) \<or>
         (\<exists>e. r = Inl (Err (Msg e)) \<and> s' = s)"
  using assms by (auto simp: LayerToContainer_def happens_def split: sum.splits prod.splits option.splits)

lemma LayerToContainer_Inr:
  "LayerToContainer K layer t s = (Inr u, s') \<Longrightarrow>
   \<exists>tgz. kb_compressed K layer = Inr tgz \<and> ss_events s' = ss_events s @ [Copied (copy_args t) tgz]"
  by (auto simp: LayerToContainer_def happens_def split: sum.splits prod.splits option.splits)

lemma PodWait_found:
  assumes "PodWait K config 1 s = (Inr t, s1)" and "sy_podSelector (cf_sync config) \<noteq> ''''"
  shows "\<exists>ls ps. ss_events s1 = ss_events s @ idle_rounds (cf_sync config) ls @ [Listed (get_args (cf_sync config)) ps]
    \<and> candidates (cf_base config) ps = [t] \<and> int (length ls) \<le> max 0 (sy_getAttemptsMax (cf_sync config))
    \<and> (\<forall>ps \<in> set ls. candidates (cf_base config) ps = [])"
proof -
  obtain ls es where "ss_events s1 = ss_events s @ es" "waited config 1 ls (Inr t) es"
    using PodWait_waited [OF assms] by blast
  then show ?thesis by (intro exI [of _ ls]) (auto simp: waited_def Let_def)
qed

text \<open>After the target is found: the copy was made and the outcome is its, or the layer could not be read.\<close>

lemma copy_outcome:
  assumes "sync_Run K config [layer] s = (r, s')" and "PodWait K config 1 s = (Inr t, s1)"
  shows "case r of
      Inr t' \<Rightarrow> t' = t \<and> (\<exists>tgz. kb_compressed K layer = Inr tgz \<and> ss_events s' = ss_events s1 @ [Copied (copy_args t) tgz])
    | Inl e \<Rightarrow> ss_events s' = ss_events s1 \<or> (\<exists>tgz. ss_events s' = ss_events s1 @ [Copied (copy_args t) tgz])"
proof -
  obtain q s2 where copy: "LayerToContainer K layer t s1 = (q, s2)" by fastforce
  show ?thesis
  proof (cases q)
    case (Inl e)
    with assms copy LayerToContainer_events [OF copy] show ?thesis by (auto simp: sync_Run_def)
  next
    case (Inr u)
    with assms copy LayerToContainer_Inr [OF copy [unfolded Inr]] show ?thesis by (auto simp: sync_Run_def)
  qed
qed

text \<open>
  C40: a sync copies the layer at most once, after at most \<open>GetAttemptsMax\<close> listings, and only into the
  container that is the one candidate of the last listing: a pod that runs, with exactly one container
  of the base image, which runs. It gives up when every listing had no candidate and stops at a listing
  with several.
\<close>

theorem sync_one_target:
  assumes "sync_Run K config layers s = (r, s')" and "sy_podSelector (cf_sync config) \<noteq> ''''"
  shows "\<exists>ls more. ss_events s' = ss_events s @ idle_rounds (cf_sync config) ls @ more \<and>
     (\<forall>ps \<in> set ls. candidates (cf_base config) ps = []) \<and>
     int (length ls) \<le> max 0 (sy_getAttemptsMax (cf_sync config)) \<and>
     (case r of
        Inr t \<Rightarrow> \<exists>ps layer tgz. layers = [layer] \<and> kb_compressed K layer = Inr tgz \<and>
          candidates (cf_base config) ps = [t] \<and>
          more = [Listed (get_args (cf_sync config)) ps, Copied (copy_args t) tgz]
      | Inl e \<Rightarrow> (length layers \<noteq> 1 \<and> ls = [] \<and> more = []) \<or>
          (length ls = nat (sy_getAttemptsMax (cf_sync config)) \<and> more = []) \<or>
          (\<exists>ps. 2 \<le> length (candidates (cf_base config) ps) \<and> more = [Listed (get_args (cf_sync config)) ps]) \<or>
          (\<exists>ps t copy. candidates (cf_base config) ps = [t] \<and>
             more = Listed (get_args (cf_sync config)) ps # copy \<and> (copy = [] \<or> (\<exists>tgz. copy = [Copied (copy_args t) tgz]))))"
proof (cases "\<exists>layer. layers = [layer]")
  case False
  then have "s' = s" "\<exists>e. r = Inl e" "length layers \<noteq> 1"
    using assms(1) by (auto simp: sync_Run_def length_Suc_conv split: list.splits)
  then show ?thesis by (auto intro!: exI [of _ "[]"])
next
  case True
  then obtain layer where layers: "layers = [layer]" by blast
  obtain w s1 where wait: "PodWait K config 1 s = (w, s1)" by fastforce
  show ?thesis
  proof (cases w)
    case (Inl e)
    obtain ls es where ls: "ss_events s1 = ss_events s @ es" "waited config 1 ls w es"
      using PodWait_waited [OF wait assms(2)] by blast
    from Inl wait layers assms(1) have "s' = s1" "\<exists>e. r = Inl e"
      by (cases e; auto simp: sync_Run_def)+
    with ls Inl show ?thesis
      by (cases e) (auto simp: waited_def Let_def intro!: exI [of _ ls])
  next
    case (Inr t)
    obtain ls ps where ls: "ss_events s1 = ss_events s @ idle_rounds (cf_sync config) ls @ [Listed (get_args (cf_sync config)) ps]"
        "candidates (cf_base config) ps = [t]" "int (length ls) \<le> max 0 (sy_getAttemptsMax (cf_sync config))"
        "\<forall>ps \<in> set ls. candidates (cf_base config) ps = []"
      using PodWait_found [OF wait [unfolded Inr] assms(2)] by blast
    with copy_outcome [of K config layer s r s' t s1] Inr wait layers assms(1) show ?thesis
      by (intro exI [of _ ls]) (auto split: sum.splits)
  qed
qed

text \<open>A cluster in which the pod starts between the first and the second listing.\<close>

definition toy_status :: "string \<Rightarrow> string \<Rightarrow> RunpodContainerStatus" where
  "toy_status nm img =
     \<lparr>rc_name = nm, rc_image = img, rc_ready = True, rc_restarts = 0, rc_started = True,
      rc_state = \<lparr>cs_waiting = '''', cs_running = ''12:00'', cs_terminated = ''''\<rparr>\<rparr>"

definition toy_pod :: Runpod where
  "toy_pod = \<lparr>rp_metadata = \<lparr>pm_name = ''p1'', pm_namespace = ''dev'', pm_created = ''11:59''\<rparr>,
     rp_phase = ''Running'', rp_statuses = [toy_status ''app'' ''base:1'', toy_status ''proxy'' ''envoy:2'']\<rparr>"

definition toy_kube :: "(string, nat) kube" where
  "toy_kube = \<lparr>kb_run = (\<lambda>args stdin w. ((None, if w = 0 then [] else ''pods''), Suc w)),
     kb_pods = (\<lambda>out. if out = [] then [] else [toy_pod]), kb_sleep = (\<lambda>d w. w), kb_compressed = Inr\<rparr>"

definition toy_sync_config :: ContainConfig where
  "toy_sync_config =
     \<lparr>cf_status = \<lparr>st_template = False, st_md5 = '''', st_sha256 = '''', st_overridesBase = False\<rparr>,
      cf_base = ''base'', cf_tag = '''', cf_platforms = [], cf_layers = [], cf_env = [], cf_workingDir = '''',
      cf_entrypoint = [], cf_args = [],
      cf_sync = \<lparr>sy_podSelector = ''app=x'', sy_namespace = ''dev'', sy_getAttemptsMax = 20,
                 sy_getAttemptsWait = 3000000000\<rparr>\<rparr>"

lemma toy_sync_runs:
  "fst (sync_Run toy_kube toy_sync_config [''tar''] \<lparr>ss_world = 0, ss_events = []\<rparr>) =
     Inr \<lparr>tg_pod = rp_metadata toy_pod, tg_container = toy_status ''app'' ''base:1''\<rparr>"
  by (simp add: sync_Run_def PodWait.simps [of _ _ 1] PodWait.simps [of _ _ 2] PodInfo_def LayerToContainer_def
      happens_def toy_kube_def toy_sync_config_def toy_pod_def toy_status_def MatchPod_def has_prefix_def Let_def)

lemma sync_one_target_witness:
  "\<exists>t ls ps tgz.
     fst (sync_Run toy_kube toy_sync_config [''tar''] \<lparr>ss_world = 0, ss_events = []\<rparr>) = Inr t \<and>
     ss_events (snd (sync_Run toy_kube toy_sync_config [''tar''] \<lparr>ss_world = 0, ss_events = []\<rparr>)) =
       idle_rounds (cf_sync toy_sync_config) ls @
       [Listed (get_args (cf_sync toy_sync_config)) ps, Copied (copy_args t) tgz] \<and>
     candidates ''base'' ps = [t]"
  using sync_one_target [OF prod.collapse [symmetric], where K = toy_kube and config = toy_sync_config and
      layers = "[''tar'']" and s = "\<lparr>ss_world = 0, ss_events = []\<rparr>"]
  unfolding toy_sync_runs by (auto simp: toy_sync_config_def)

end
