(* ===== verification/Build_Command.thy ===== *)
theory Build_Command
  imports Build_Config Contain_Run Layer_Cache Sbom Pod_Sync
begin

text \<open>
  The build command (\<open>runBuild\<close> of \<open>cmd/contain/build.go\<close>) and the sbom command (\<open>sbom.go\<close>). The state
  has the current directory, the output files in the order in which they were opened (each write
  truncates), stdout, and the states of the registry side and of the pod side. \<open>Exit\<close> is
  \<open>zap.L().Fatal\<close>, after which no deferred function runs.
\<close>

section \<open>State\<close>

datatype written =
    SkaffoldJSON "Artifact list" "string option"
  | BuildctlJSON MetadataSimilarToBuildctlFile

text \<open>
  What the command uses of its process: the tools of a run (they read files from the current directory),
  kubectl, the layer cache, the clock before and after, the SPDX side (which reads the written files) and
  the build id. \<open>pr_open\<close> is the error of opening or writing an output file.
\<close>

record ('img, 'idx, 'l, 'w, 'k) process =
  pr_host :: host
  pr_environ :: "string list"
  pr_tools :: "string \<Rightarrow> ('img, 'idx, 'l, 'w) tools"
  pr_kube :: "('l, 'k) kube"
  pr_cache :: "string + ('img \<Rightarrow> 'img)"
  pr_open :: "string \<Rightarrow> string option"
  pr_spdx :: "string \<Rightarrow> (string \<times> written) list \<Rightarrow> spdx_env"
  pr_start :: int
  pr_end :: int
  pr_build :: string

record ('img, 'w, 'k) build_state =
  bd_cwd :: string
  bd_chdir :: "Chdir option"
  bd_files :: "(string \<times> written) list"
  bd_spdx :: "(string \<times> bytes) list"
  bd_stdout :: "string list"
  bd_run :: "('img, 'w) bst"
  bd_pods :: "'k sync_state"

type_synonym ('a, 'img, 'w, 'k) build_res = "(stop + 'a) \<times> ('img, 'w, 'k) build_state"

section \<open>Output files\<close>

definition no_metadata :: MetadataSimilarToBuildctlFile where
  "no_metadata =
     \<lparr>mb_configDigest = '''',
      mb_descriptor = \<lparr>ci_mediaType = '''', ci_digest = '''', ci_size = 0,
        ci_platform = \<lparr>bp_architecture = '''', bp_os = ''''\<rparr>\<rparr>,
      mb_digest = '''', mb_imageName = ''''\<rparr>"

text \<open>\<open>WriteSkaffoldJSON\<close> and \<open>WriteBuildctlJSON\<close>: a nil section is written as its empty value.\<close>

definition WriteSkaffoldJSON :: "BuildOutput \<Rightarrow> written" where
  "WriteSkaffoldJSON b =
     (case bo_builds b of None \<Rightarrow> SkaffoldJSON [] None | Some as \<Rightarrow> SkaffoldJSON as (bo_turborepo b))"

definition WriteBuildctlJSON :: "BuildOutput \<Rightarrow> written" where
  "WriteBuildctlJSON b =
     (case bo_buildctl b of None \<Rightarrow> BuildctlJSON no_metadata | Some m \<Rightarrow> BuildctlJSON m)"

definition write_output ::
  "('img, 'idx, 'l, 'w, 'k) process \<Rightarrow> string \<Rightarrow> written \<Rightarrow> ('img, 'w, 'k) build_state \<Rightarrow>
   (unit, 'img, 'w, 'k) build_res" where
  "write_output P path what s =
     (let p = path_abs (bd_cwd s) path in
      case pr_open P p of
        Some e \<Rightarrow> (Inl (Exit ''output file''), s)
      | None \<Rightarrow> (Inr (), s\<lparr>bd_files := bd_files s @ [(p, what)]\<rparr>))"

definition writeBuildOutput ::
  "('img, 'idx, 'l, 'w, 'k) process \<Rightarrow> build_flags \<Rightarrow> BuildOutput \<Rightarrow> ('img, 'w, 'k) build_state \<Rightarrow>
   (unit, 'img, 'w, 'k) build_res" where
  "writeBuildOutput P f b s =
     (case (if bf_fileOutput f \<noteq> '''' then write_output P (bf_fileOutput f) (WriteSkaffoldJSON b) s else (Inr (), s)) of
        (Inl e, s1) \<Rightarrow> (Inl e, s1)
      | (Inr _, s1) \<Rightarrow>
          (if bf_metadataFile f \<noteq> '''' then write_output P (bf_metadataFile f) (WriteBuildctlJSON b) s1
           else (Inr (), s1)))"

definition setArtifactOutput :: "string \<Rightarrow> string \<Rightarrow> string \<Rightarrow> string \<Rightarrow> BuildOutput \<Rightarrow> BuildOutput" where
  "setArtifactOutput cwd fileOutput outputPath format b =
     b\<lparr>bo_builds := map_option
         (map (\<lambda>a. a\<lparr>af_output := Some \<lparr>ao_path = resolveOutputPath cwd outputPath fileOutput, ao_format = format\<rparr>\<rparr>))
         (bo_builds b)\<rparr>"

section \<open>The steps of the command\<close>

text \<open>\<open>-r\<close>: the layers go to a running container.\<close>

definition sync_line :: "SyncTarget \<Rightarrow> string" where
  "sync_line t =
     ''{'' @ go_quote ''namespace'' @ '':'' @ [CHR 0x22] @ pm_namespace (tg_pod t) @ [CHR 0x22] @ '',''
     @ go_quote ''pod'' @ '':'' @ [CHR 0x22] @ pm_name (tg_pod t) @ [CHR 0x22]
     @ '',container:'' @ [CHR 0x22] @ rc_name (tg_container t) @ [CHR 0x22] @ ''}''"

definition build_sync ::
  "('img, 'idx, 'l, 'w, 'k) process \<Rightarrow> build_flags \<Rightarrow> ContainConfig \<Rightarrow> 'l builder list \<Rightarrow>
   ('img, 'w, 'k) build_state \<Rightarrow> (unit, 'img, 'w, 'k) build_res" where
  "build_sync P f config builders s =
     (let config = config\<lparr>cf_sync := TemplateSync (bf_runNamespace f) (bf_runSelector f)\<rparr>;
          T = pr_tools P (bd_cwd s)
      in case Build (ts_build T) builders zero_platform (ts_fs T) of
           Inl e \<Rightarrow> (Inl (Exit ''layers build''), s)
         | Inr syncLayers \<Rightarrow>
             (case sync_Run (pr_kube P) config syncLayers (bd_pods s) of
                (Inl e, p) \<Rightarrow> (Inl (Exit ''containersync run''), s\<lparr>bd_pods := p\<rparr>)
              | (Inr target, p) \<Rightarrow>
                  (Inr (), s\<lparr>bd_pods := p, bd_stdout := bd_stdout s @ [sync_line target]\<rparr>)))"

definition layer_cache :: "('img, 'idx, 'l, 'w, 'k) process \<Rightarrow> ('img \<Rightarrow> 'img) option" where
  "layer_cache P =
     (if Enabled (getenv (pr_host P) ''CONTAIN_CACHE'')
      then (case pr_cache P of Inl e \<Rightarrow> None | Inr c \<Rightarrow> Some c) else None)"

definition write_options ::
  "('img, 'idx, 'l, 'w, 'k) process \<Rightarrow> string \<times> string \<times> bool \<Rightarrow> string option \<Rightarrow> 'img WriteOptions" where
  "write_options P choice lock =
     (case choice of (out, format, push) \<Rightarrow>
        \<lparr>wo_push = push, wo_outputPath = out, wo_outputFormat = format, wo_pushLock = lock \<noteq> None,
         wo_layerCache = layer_cache P\<rparr>)"

text \<open>From the options to the description of the result.\<close>

definition build_append ::
  "('img, 'idx, 'l, 'w, 'k) process \<Rightarrow> ContainConfig \<Rightarrow> 'l builder list \<Rightarrow> 'img WriteOptions \<Rightarrow>
   ('img, 'w, 'k) build_state \<Rightarrow> (BuildOutput, 'img, 'w, 'k) build_res" where
  "build_append P config builders opts s =
     (case RunAppend (pr_tools P (bd_cwd s)) config builders opts (bd_run s) of
        (Inl e, r) \<Rightarrow> (Inl (Exit ''append''), s\<lparr>bd_run := r\<rparr>)
      | (Inr b, r) \<Rightarrow>
          (case BuildTraceEnv (pr_environ P) of
             Inl e \<Rightarrow> (Inl e, s\<lparr>bd_run := r\<rparr>)
           | Inr env \<Rightarrow>
               (Inr (b\<lparr>bo_trace := Some \<lparr>bt_start = Some (pr_start P), bt_end = Some (pr_end P), bt_env = env\<rparr>\<rparr>),
                s\<lparr>bd_run := r, bd_stdout := bd_stdout s @ output_Print (Some b)\<rparr>)))"

definition describe_output ::
  "('img, 'idx, 'l, 'w, 'k) process \<Rightarrow> build_flags \<Rightarrow> 'img WriteOptions \<Rightarrow> string \<Rightarrow> BuildOutput \<Rightarrow> BuildOutput" where
  "describe_output P f opts cwd b =
     (let h = TurboHash (ho_lookup (pr_host P));
          b = (if h \<noteq> '''' then b\<lparr>bo_turborepo := Some h\<rparr> else b)
      in if wo_outputPath opts \<noteq> ''''
         then setArtifactOutput cwd (bf_fileOutput f) (wo_outputPath opts) (wo_outputFormat opts) b
         else b)"

definition wrap_sbom ::
  "('img, 'idx, 'l, 'w, 'k) process \<Rightarrow> build_flags \<Rightarrow> BuildOutput \<Rightarrow> ('img, 'w, 'k) build_state \<Rightarrow>
   (unit, 'img, 'w, 'k) build_res" where
  "wrap_sbom P f b s =
     (if bf_sbomIn f = '''' then (Inr (), s)
      else
       (case bo_builds b of
          Some (a # as) \<Rightarrow>
            (case WrapSPDX (pr_spdx P (bd_cwd s) (bd_files s)) (bf_fileOutput f) (bf_sbomIn f) (bf_sbomOut f)
                    (Some a) (pr_build P) of
               (r, out) \<Rightarrow>
                 ((case r of Inl e \<Rightarrow> Inl (Exit ''sbom wrap'') | Inr _ \<Rightarrow> Inr ()),
                  s\<lparr>bd_spdx := bd_spdx s @ (case out of None \<Rightarrow> [] | Some o' \<Rightarrow> [o'])\<rparr>))
        | _ \<Rightarrow> (Inl (Exit ''index out of range''), s)))"

text \<open>\<open>chdir.Cleanup()\<close>, if there is a \<open>chdir\<close>.\<close>

definition restore_cwd ::
  "('img, 'idx, 'l, 'w, 'k) process \<Rightarrow> ('img, 'w, 'k) build_state \<Rightarrow> (unit, 'img, 'w, 'k) build_res" where
  "restore_cwd P s =
     (case bd_chdir s of
        None \<Rightarrow> (Inr (), s)
      | Some c \<Rightarrow>
          (case Cleanup (pr_host P) c (bd_cwd s) of
             Inl e \<Rightarrow> (Inl e, s)
           | Inr (c', cwd) \<Rightarrow> (Inr (), s\<lparr>bd_chdir := Some c', bd_cwd := cwd\<rparr>)))"

text \<open>After \<open>RunAppend\<close>: back to the first directory, the output files, the SBOM.\<close>

definition finish_build ::
  "('img, 'idx, 'l, 'w, 'k) process \<Rightarrow> build_flags \<Rightarrow> 'img WriteOptions \<Rightarrow> BuildOutput \<Rightarrow>
   ('img, 'w, 'k) build_state \<Rightarrow> (unit, 'img, 'w, 'k) build_res" where
  "finish_build P f opts b s =
     (case restore_cwd P s of
        (Inl e, s1) \<Rightarrow> (Inl e, s1)
      | (Inr _, s1) \<Rightarrow>
          (let b = describe_output P f opts (bd_cwd s) b in
           case writeBuildOutput P f b s1 of
             (Inl e, s2) \<Rightarrow> (Inl e, s2)
           | (Inr _, s2) \<Rightarrow> wrap_sbom P f b s2))"

definition build_image ::
  "('img, 'idx, 'l, 'w, 'k) process \<Rightarrow> build_flags \<Rightarrow> ContainConfig \<Rightarrow> 'l builder list \<Rightarrow>
   ('img, 'w, 'k) build_state \<Rightarrow> (unit, 'img, 'w, 'k) build_res" where
  "build_image P f config builders s =
     (case choose_output (pr_host P) f of
        Inl e \<Rightarrow> (Inl (Err e), s)
      | Inr choice \<Rightarrow>
     (case choose_lock (pr_host P) f of
        Inl e \<Rightarrow> (Inl (Err e), s)
      | Inr lock \<Rightarrow>
     (case build_append P config builders (write_options P choice lock) s of
        (Inl e, s1) \<Rightarrow> (Inl e, s1)
      | (Inr b, s1) \<Rightarrow> finish_build P f (write_options P choice lock) b s1)))"

text \<open>From the config on.\<close>

definition run_config ::
  "('img, 'idx, 'l, 'w, 'k) process \<Rightarrow> build_flags \<Rightarrow> ('img, 'w, 'k) build_state \<Rightarrow>
   (unit, 'img, 'w, 'k) build_res" where
  "run_config P f s =
     (case build_config (pr_host P) f (bd_cwd s) of
        Inl e \<Rightarrow> (Inl e, s)
      | Inr config \<Rightarrow>
     (case RunLayers (ts_build (pr_tools P (bd_cwd s))) (cf_layers config) of
        Inl e \<Rightarrow> (Inl (Exit ''layers''), s)
      | Inr builders \<Rightarrow>
          (if bf_runSelector f \<noteq> '''' then build_sync P f config builders s
           else build_image P f config builders s)))"

text \<open>The deferred \<open>chdir.Cleanup\<close> runs when the command returns, with an error or without.\<close>

definition deferred_cleanup ::
  "('img, 'idx, 'l, 'w, 'k) process \<Rightarrow> (unit, 'img, 'w, 'k) build_res \<Rightarrow> (unit, 'img, 'w, 'k) build_res" where
  "deferred_cleanup P res =
     (case res of
        (Inl (Exit e), s) \<Rightarrow> (Inl (Exit e), s)
      | (r, s) \<Rightarrow> (case restore_cwd P s of (Inl e, s1) \<Rightarrow> (Inl e, s1) | (Inr _, s1) \<Rightarrow> (r, s1)))"

definition runBuild ::
  "('img, 'idx, 'l, 'w, 'k) process \<Rightarrow> build_flags \<Rightarrow> string list \<Rightarrow> ('img, 'w, 'k) build_state \<Rightarrow>
   (unit, 'img, 'w, 'k) build_res" where
  "runBuild P f args s =
     (if length args > 1 then (Inl (Err (Msg ''too many args: at most one context path'')), s)
      else if bf_version f then (Inr (), s)
      else if bf_watch f then (Inl (Exit ''watch not implemented''), s)
      else
       (case writeBuildOutput P f \<lparr>bo_builds = None, bo_turborepo = None, bo_buildctl = None,
               bo_trace = Some \<lparr>bt_start = Some (pr_start P), bt_end = None, bt_env = []\<rparr>\<rparr> s of
          (Inl e, s1) \<Rightarrow> (Inl e, s1)
        | (Inr _, s1) \<Rightarrow>
            (case enter_context (pr_host P) args (bd_cwd s1) of
               Inl e \<Rightarrow> (Inl e, s1)
             | Inr (chdir, cwd) \<Rightarrow> deferred_cleanup P (run_config P f (s1\<lparr>bd_cwd := cwd, bd_chdir := chdir\<rparr>)))))"

section \<open>What each step leaves alone\<close>

lemma writeBuildOutput_effect:
  assumes "writeBuildOutput P f b s = (r, s')"
  shows "\<exists>ws. s' = s\<lparr>bd_files := bd_files s @ ws\<rparr>
    \<and> (\<forall>(p, w) \<in> set ws. (p = path_abs (bd_cwd s) (bf_fileOutput f) \<and> w = WriteSkaffoldJSON b) \<or> w = WriteBuildctlJSON b)
    \<and> (bf_fileOutput f \<noteq> '''' \<longrightarrow> ws = [] \<or> hd ws = (path_abs (bd_cwd s) (bf_fileOutput f), WriteSkaffoldJSON b))
    \<and> (r = Inr () \<longrightarrow> bf_fileOutput f \<noteq> '''' \<longrightarrow> ws \<noteq> [])"
proof -
  have one: "write_output P p w t = (q, t') \<Longrightarrow>
      (q = Inr () \<and> t' = t\<lparr>bd_files := bd_files t @ [(path_abs (bd_cwd t) p, w)]\<rparr>) \<or> (\<exists>e. q = Inl e \<and> t' = t)"
    for p w t q t'
    by (auto simp: write_output_def Let_def split: option.splits)
  obtain q s1 where q: "(if bf_fileOutput f \<noteq> '''' then write_output P (bf_fileOutput f) (WriteSkaffoldJSON b) s else (Inr (), s)) = (q, s1)"
    by fastforce
  show ?thesis
  proof (cases q)
    case (Inl e)
    with q assms show ?thesis
      by (auto simp: writeBuildOutput_def split: if_splits dest!: one intro!: exI [of _ "[]"])
  next
    case (Inr u)
    define first where "first = (if bf_fileOutput f \<noteq> '''' then [(path_abs (bd_cwd s) (bf_fileOutput f), WriteSkaffoldJSON b)] else [])"
    have s1: "s1 = s\<lparr>bd_files := bd_files s @ first\<rparr>"
      using q Inr by (auto simp: first_def split: if_splits dest!: one)
    have "\<exists>rest. s' = s1\<lparr>bd_files := bd_files s1 @ rest\<rparr> \<and> (\<forall>(p, w) \<in> set rest. w = WriteBuildctlJSON b)"
      using assms q Inr
      by (auto simp: writeBuildOutput_def split: if_splits dest!: one intro: exI [of _ "[]"] exI [of _ "[_]"])
    then obtain rest where "s' = s1\<lparr>bd_files := bd_files s1 @ rest\<rparr>" "\<forall>(p, w) \<in> set rest. w = WriteBuildctlJSON b"
      by blast
    with s1 show ?thesis by (intro exI [of _ "first @ rest"]) (auto simp: first_def)
  qed
qed

lemma restore_cwd_effect:
  "restore_cwd P s = (r, s') \<Longrightarrow>
   bd_files s' = bd_files s \<and> bd_run s' = bd_run s \<and> bd_pods s' = bd_pods s \<and> bd_stdout s' = bd_stdout s"
  by (auto simp: restore_cwd_def split: option.splits sum.splits)

lemma wrap_sbom_effect:
  "wrap_sbom P f b s = (r, s') \<Longrightarrow> bd_files s' = bd_files s \<and> bd_run s' = bd_run s"
  by (auto simp: wrap_sbom_def split: if_splits option.splits list.splits prod.splits)

lemma build_sync_effect:
  "build_sync P f config builders s = (r, s') \<Longrightarrow> bd_files s' = bd_files s \<and> bd_run s' = bd_run s"
  by (auto simp: build_sync_def Let_def split: sum.splits prod.splits)

lemma deferred_cleanup_effect:
  "deferred_cleanup P (q, s) = (r, s') \<Longrightarrow> bd_files s' = bd_files s \<and> bd_run s' = bd_run s"
  by (auto simp: deferred_cleanup_def split: sum.splits stop.splits prod.splits dest: restore_cwd_effect)

text \<open>The directory in which the output files are opened.\<close>

definition first_cwd :: "('img, 'w, 'k) build_state \<Rightarrow> string" where
  "first_cwd s = (case bd_chdir s of Some c \<Rightarrow> if cd_restored c then bd_cwd s else cd_pwd c | None \<Rightarrow> bd_cwd s)"

lemma restore_cwd_first: "restore_cwd P s = (Inr u, s') \<Longrightarrow> bd_cwd s' = first_cwd s"
  by (auto simp: restore_cwd_def first_cwd_def Cleanup_def split: option.splits sum.splits if_splits)

section \<open>The registry side of a build\<close>

lemma build_append_effect:
  assumes "build_append P config builders opts s = (r, s')"
  shows "bd_files s' = bd_files s \<and> bd_cwd s' = bd_cwd s \<and> bd_chdir s' = bd_chdir s
    \<and> (\<exists>q. RunAppend (pr_tools P (bd_cwd s)) config builders opts (bd_run s) = (q, bd_run s')
         \<and> (\<forall>b. r = Inr b \<longrightarrow> (\<exists>out. q = Inr out \<and> bo_builds b = bo_builds out)))"
  using assms by (auto simp: build_append_def split: prod.splits sum.splits)

lemma finish_build_run: "finish_build P f opts b s = (r, s') \<Longrightarrow> bd_run s' = bd_run s"
  using writeBuildOutput_effect [of P f]
  by (fastforce simp: finish_build_def Let_def split: sum.splits prod.splits dest: restore_cwd_effect wrap_sbom_effect)

text \<open>The ways through the three layers of the command.\<close>

lemma build_image_cases:
  assumes "build_image P f config builders s = (r, s')"
  obtains (refused) e where "r = Inl e" and "s' = s"
  | (failed) choice lock e where "choose_output (pr_host P) f = Inr choice" "choose_lock (pr_host P) f = Inr lock"
      "build_append P config builders (write_options P choice lock) s = (Inl e, s')" "r = Inl e"
  | (appended) choice lock b s1 where "choose_output (pr_host P) f = Inr choice" "choose_lock (pr_host P) f = Inr lock"
      "build_append P config builders (write_options P choice lock) s = (Inr b, s1)"
      "finish_build P f (write_options P choice lock) b s1 = (r, s')"
  using assms by (auto simp: build_image_def split: sum.splits prod.splits)

lemma run_config_cases:
  assumes "run_config P f s = (r, s')"
  obtains (refused) e where "r = Inl e" and "s' = s"
  | (sync) config builders where "bf_runSelector f \<noteq> ''''" "build_sync P f config builders s = (r, s')"
  | (img) config builders where "build_config (pr_host P) f (bd_cwd s) = Inr config"
      "RunLayers (ts_build (pr_tools P (bd_cwd s))) (cf_layers config) = Inr builders"
      "build_image P f config builders s = (r, s')"
  using assms by (auto simp: run_config_def split: sum.splits if_splits)

abbreviation started :: "('img, 'idx, 'l, 'w, 'k) process \<Rightarrow> BuildOutput" where
  "started P \<equiv> \<lparr>bo_builds = None, bo_turborepo = None, bo_buildctl = None,
     bo_trace = Some \<lparr>bt_start = Some (pr_start P), bt_end = None, bt_env = []\<rparr>\<rparr>"

lemma runBuild_cases:
  assumes "runBuild P f args s = (r, s')"
  obtains (nothing) "s' = s" "r = Inr () \<Longrightarrow> bf_version f"
  | (written) q e where "writeBuildOutput P f (started P) s = (q, s')" "r = Inl e"
  | (entered) s1 chdir cwd q s2 where "writeBuildOutput P f (started P) s = (Inr (), s1)"
      "enter_context (pr_host P) args (bd_cwd s1) = Inr (chdir, cwd)"
      "run_config P f (s1\<lparr>bd_cwd := cwd, bd_chdir := chdir\<rparr>) = (q, s2)"
      "deferred_cleanup P (q, s2) = (r, s')"
proof -
  obtain q s1 where w: "writeBuildOutput P f (started P) s = (q, s1)" by fastforce
  obtain c where c: "enter_context (pr_host P) args (bd_cwd s1) = c" by blast
  show ?thesis
  proof (cases "length args > 1 \<or> bf_version f \<or> bf_watch f")
    case True
    with assms have "s' = s" "r = Inr () \<Longrightarrow> bf_version f" by (auto simp: runBuild_def split: if_splits)
    then show ?thesis by (rule nothing)
  next
    case False
    with assms w c written entered show ?thesis
      by (cases q; cases c; cases "run_config P f (s1\<lparr>bd_cwd := snd (projr c), bd_chdir := fst (projr c)\<rparr>)")
        (auto simp: runBuild_def)
  qed
qed

lemma build_image_run:
  assumes "build_image P f config builders s = (r, s')"
  shows "bd_run s' = bd_run s \<or>
    (\<exists>choice lock q. choose_output (pr_host P) f = Inr choice \<and> choose_lock (pr_host P) f = Inr lock
       \<and> RunAppend (pr_tools P (bd_cwd s)) config builders (write_options P choice lock) (bd_run s) = (q, bd_run s'))"
  using assms
proof (cases rule: build_image_cases)
  case (failed choice lock e)
  with build_append_effect [OF failed(3)] show ?thesis by auto
next
  case (appended choice lock b s1)
  with build_append_effect [OF appended(3)] finish_build_run [OF appended(4)] show ?thesis by fastforce
qed simp

lemma runBuild_run:
  assumes "runBuild P f args s = (r, s')"
  shows "bd_run s' = bd_run s \<or>
    (\<exists>cwd config builders choice lock q. choose_output (pr_host P) f = Inr choice \<and> choose_lock (pr_host P) f = Inr lock
       \<and> RunAppend (pr_tools P cwd) config builders (write_options P choice lock) (bd_run s) = (q, bd_run s'))"
  using assms
proof (cases rule: runBuild_cases)
  case (written q e)
  with writeBuildOutput_effect [OF written(1)] show ?thesis by auto
next
  case (entered s1 chdir cwd q s2)
  have run1: "bd_run s1 = bd_run s" using writeBuildOutput_effect [OF entered(1)] by auto
  have run2: "bd_run s' = bd_run s2" using deferred_cleanup_effect [OF entered(4)] by simp
  from entered(3) show ?thesis
  proof (cases rule: run_config_cases)
    case (sync config builders)
    with build_sync_effect [OF sync(2)] run1 run2 show ?thesis by simp
  next
    case (img config builders)
    with build_image_run [OF img(3)] run1 run2 show ?thesis by auto
  qed (use run1 run2 in simp)
qed simp


section \<open>Flags and variables govern the registry side\<close>

definition push_off :: "host \<Rightarrow> build_flags \<Rightarrow> bool" where
  "push_off H f \<longleftrightarrow>
     (if bf_changed f ''push'' then \<not> bf_push f
      else case ho_lookup H ''CONTAIN_PUSH'' of None \<Rightarrow> \<not> bf_push f | Some v \<Rightarrow> parse_bool v = Some False)"

lemma choose_output_push:
  "choose_output H f = Inr (out, format, push) \<Longrightarrow> push_off H f \<longleftrightarrow> \<not> push"
  by (auto simp: choose_output_def push_off_def PushOption_def Let_def split: if_splits sum.splits option.splits)

text \<open>
  C38: with pushing off (\<open>--push=false\<close>, or \<open>CONTAIN_PUSH\<close> false and no flag) a build changes no registry,
  however it ends; with a push lock chosen every image it writes is written under the lock, which is
  given back.
\<close>

theorem flags_govern_registry:
  assumes "runBuild P f args s = (r, s')"
  shows "(push_off (pr_host P) f \<longrightarrow> quiet (bd_run s) (bd_run s')) \<and>
    (\<forall>l. choose_lock (pr_host P) f = Inr (Some l) \<longrightarrow> along (locked_writes False) (bd_run s) (bd_run s'))"
  using runBuild_run [OF assms]
proof (elim disjE exE conjE)
  fix cwd config builders choice lock q
  assume c: "choose_output (pr_host P) f = Inr choice" "choose_lock (pr_host P) f = Inr lock"
    and run: "RunAppend (pr_tools P cwd) config builders (write_options P choice lock) (bd_run s) = (q, bd_run s')"
  have "push_off (pr_host P) f \<Longrightarrow> \<not> wo_push (write_options P choice lock)"
    using choose_output_push [of "pr_host P" f] c(1) by (cases choice) (auto simp: write_options_def)
  moreover have "lock \<noteq> None \<Longrightarrow> wo_pushLock (write_options P choice lock)"
    by (simp add: write_options_def split: prod.split)
  ultimately show ?thesis
    using RunAppend_quiet [OF run] RunAppend_locked [OF run] c(2) by auto
qed simp

section \<open>What the file output tells\<close>

abbreviation bare :: "Artifact \<Rightarrow> Artifact" where
  "bare a \<equiv> a\<lparr>af_output := None\<rparr>"

lemma describe_output_builds:
  "map_option (map bare) (bo_builds (describe_output P f opts cwd b)) = map_option (map bare) (bo_builds b)"
  by (auto simp: describe_output_def setArtifactOutput_def Let_def option.map_comp comp_def)

text \<open>The artifacts of a file output are those of the run that took the registry where it is.\<close>

definition reported ::
  "('img, 'idx, 'l, 'w, 'k) process \<Rightarrow> string \<Rightarrow> ('img, 'w, 'k) build_state \<Rightarrow> ('img, 'w, 'k) build_state \<Rightarrow> Artifact list \<Rightarrow> bool" where
  "reported P cwd s s' as \<longleftrightarrow>
     (\<exists>config builders opts out a b. RunAppend (pr_tools P cwd) config builders opts (bd_run s) = (Inr out, bd_run s')
        \<and> bo_builds out = Some [a] \<and> as = [b] \<and> bare b = bare a)"

lemma finish_build_files:
  assumes fin: "finish_build P f opts b s = (r, s')" and b: "bo_builds b = Some [a]"
  shows "\<exists>ws. bd_files s' = bd_files s @ ws
    \<and> (\<forall>p as h. (p, SkaffoldJSON as h) \<in> set ws \<longrightarrow> p = path_abs (first_cwd s) (bf_fileOutput f) \<and> (\<exists>a'. as = [a'] \<and> bare a' = bare a))
    \<and> (r = Inr () \<longrightarrow> bf_fileOutput f \<noteq> '''' \<longrightarrow> (\<exists>as h. (path_abs (first_cwd s) (bf_fileOutput f), SkaffoldJSON as h) \<in> set ws))"
proof -
  let ?d = "describe_output P f opts (bd_cwd s) b"
  have "map_option (map bare) (bo_builds ?d) = Some [bare a]" using describe_output_builds [of P f opts "bd_cwd s" b] b by simp
  then obtain a' where d: "bo_builds ?d = Some [a']" "bare a' = bare a" by auto
  obtain q s1 where q: "restore_cwd P s = (q, s1)" by fastforce
  show ?thesis
  proof (cases q)
    case (Inl e)
    with fin q restore_cwd_effect [OF q] show ?thesis
      by (auto simp: finish_build_def intro!: exI [of _ "[]"])
  next
    case (Inr u)
    with q have cwd: "bd_cwd s1 = first_cwd s" using restore_cwd_first by blast
    obtain w s2 where w: "writeBuildOutput P f ?d s1 = (w, s2)" by fastforce
    obtain ws where ws: "s2 = s1\<lparr>bd_files := bd_files s1 @ ws\<rparr>"
        "\<forall>(p, w) \<in> set ws. (p = path_abs (bd_cwd s1) (bf_fileOutput f) \<and> w = WriteSkaffoldJSON ?d) \<or> w = WriteBuildctlJSON ?d"
        "bf_fileOutput f \<noteq> '''' \<longrightarrow> ws = [] \<or> hd ws = (path_abs (bd_cwd s1) (bf_fileOutput f), WriteSkaffoldJSON ?d)"
        "w = Inr () \<longrightarrow> bf_fileOutput f \<noteq> '''' \<longrightarrow> ws \<noteq> []"
      using writeBuildOutput_effect [OF w] by blast
    have skaffold: "WriteSkaffoldJSON ?d = SkaffoldJSON [a'] (bo_turborepo ?d)"
      "\<And>as h. WriteBuildctlJSON ?d \<noteq> SkaffoldJSON as h"
      using d by (auto simp: WriteSkaffoldJSON_def WriteBuildctlJSON_def split: option.splits)
    have rest: "(case w of Inl e \<Rightarrow> (Inl e, s2) | Inr _ \<Rightarrow> wrap_sbom P f ?d s2) = (r, s')"
      using fin q Inr w by (simp add: finish_build_def Let_def)
    have "bd_files s' = bd_files s2 \<and> (r = Inr () \<longrightarrow> w = Inr ())"
      using rest wrap_sbom_effect [of P f ?d s2] by (cases w) auto
    then have files: "bd_files s' = bd_files s @ ws" "r = Inr () \<Longrightarrow> w = Inr ()"
      using ws(1) restore_cwd_effect [OF q] by simp_all
    have "(p, SkaffoldJSON as h) \<in> set ws \<Longrightarrow> p = path_abs (first_cwd s) (bf_fileOutput f) \<and> as = [a']" for p as h
      using bspec [OF ws(2), of "(p, SkaffoldJSON as h)"] skaffold(2) [symmetric] unfolding skaffold(1) cwd by simp
    moreover have "(path_abs (first_cwd s) (bf_fileOutput f), SkaffoldJSON [a'] (bo_turborepo ?d)) \<in> set ws"
      if "r = Inr ()" "bf_fileOutput f \<noteq> ''''"
      using ws(3,4) files(2) that skaffold(1) cwd by (metis list.set_sel(1))
    ultimately show ?thesis using files(1) d(2) by blast
  qed
qed

lemma RunAppend_builds:
  "RunAppend T config builders opts s = (Inr out, s') \<Longrightarrow> \<exists>a. bo_builds out = Some [a]"
  by (auto simp: RunAppend_def split: if_splits prod.splits sum.splits dest: run_output_Inr)

lemma reported_one: "reported P cwd s s' as \<Longrightarrow> \<exists>a. as = [a]"
  by (auto simp: reported_def)

lemma run_config_files:
  assumes "run_config P f s = (r, s')"
  shows "\<exists>ws. bd_files s' = bd_files s @ ws
    \<and> (\<forall>p as h. (p, SkaffoldJSON as h) \<in> set ws \<longrightarrow>
         p = path_abs (first_cwd s) (bf_fileOutput f) \<and> reported P (bd_cwd s) s s' as)
    \<and> (r = Inr () \<longrightarrow> bf_runSelector f = '''' \<longrightarrow> bf_fileOutput f \<noteq> '''' \<longrightarrow>
         (\<exists>as h. (path_abs (first_cwd s) (bf_fileOutput f), SkaffoldJSON as h) \<in> set ws))"
  using assms
proof (cases rule: run_config_cases)
  case (sync config builders)
  with build_sync_effect [OF sync(2)] show ?thesis by (auto intro!: exI [of _ "[]"])
next
  case (img config builders)
  from img(3) show ?thesis
  proof (cases rule: build_image_cases)
    case (failed choice lock e)
    with build_append_effect [OF failed(3)] show ?thesis by (auto intro!: exI [of _ "[]"])
  next
    case (appended choice lock b s1)
    from build_append_effect [OF appended(3)] obtain out where
        same: "bd_files s1 = bd_files s" "bd_cwd s1 = bd_cwd s" "bd_chdir s1 = bd_chdir s"
        and run: "RunAppend (pr_tools P (bd_cwd s)) config builders (write_options P choice lock) (bd_run s) = (Inr out, bd_run s1)"
          "bo_builds b = bo_builds out"
      by auto
    obtain a where a: "bo_builds out = Some [a]" using RunAppend_builds [OF run(1)] by blast
    have "bd_run s' = bd_run s1" using finish_build_run [OF appended(4)] .
    then have rep: "bare a' = bare a \<Longrightarrow> reported P (bd_cwd s) s s' [a']" for a'
      using run(1) a unfolding reported_def by metis
    have "first_cwd s1 = first_cwd s" using same by (simp add: first_cwd_def split: option.split)
    with finish_build_files [OF appended(4)] a run(2) same(1) rep show ?thesis by fastforce
  qed (auto intro!: exI [of _ "[]"])
qed (auto intro!: exI [of _ "[]"])

lemma deferred_cleanup_Inr: "deferred_cleanup P (q, s) = (Inr (), s') \<Longrightarrow> q = Inr ()"
  by (auto simp: deferred_cleanup_def split: sum.splits stop.splits prod.splits)

lemma enter_context_first:
  "enter_context H args (bd_cwd s) = Inr (chdir, cwd) \<Longrightarrow> first_cwd (s\<lparr>bd_cwd := cwd, bd_chdir := chdir\<rparr>) = bd_cwd s"
  by (auto simp: enter_context_def NewChdir_def first_cwd_def Let_def split: if_splits sum.splits option.splits)

lemma WriteSkaffoldJSON_started: "WriteSkaffoldJSON (started P) = SkaffoldJSON [] None"
  by (simp add: WriteSkaffoldJSON_def)

lemma started_files:
  assumes "writeBuildOutput P f (started P) s = (q, s1)"
  obtains ws where "s1 = s\<lparr>bd_files := bd_files s @ ws\<rparr>"
    and "\<And>p as h. (p, SkaffoldJSON as h) \<in> set ws \<Longrightarrow> p = path_abs (bd_cwd s) (bf_fileOutput f) \<and> as = []"
    and "bf_fileOutput f \<noteq> '''' \<Longrightarrow> ws = [] \<or> hd ws = (path_abs (bd_cwd s) (bf_fileOutput f), SkaffoldJSON [] None)"
    and "q = Inr () \<Longrightarrow> bf_fileOutput f \<noteq> '''' \<Longrightarrow> ws \<noteq> []"
proof -
  have meta: "SkaffoldJSON as h \<noteq> WriteBuildctlJSON (started P)" for as h
    by (simp add: WriteBuildctlJSON_def)
  obtain ws where ws: "s1 = s\<lparr>bd_files := bd_files s @ ws\<rparr>"
    "\<forall>(p, w) \<in> set ws. (p = path_abs (bd_cwd s) (bf_fileOutput f) \<and> w = SkaffoldJSON [] None) \<or> w = WriteBuildctlJSON (started P)"
    "bf_fileOutput f \<noteq> '''' \<longrightarrow> ws = [] \<or> hd ws = (path_abs (bd_cwd s) (bf_fileOutput f), SkaffoldJSON [] None)"
    "q = Inr () \<longrightarrow> bf_fileOutput f \<noteq> '''' \<longrightarrow> ws \<noteq> []"
    using writeBuildOutput_effect [OF assms] unfolding WriteSkaffoldJSON_started by blast
  have "(p, SkaffoldJSON as h) \<in> set ws \<Longrightarrow> p = path_abs (bd_cwd s) (bf_fileOutput f) \<and> as = []" for p as h
    using bspec [OF ws(2), of "(p, SkaffoldJSON as h)"] meta by simp
  with ws that show ?thesis by blast
qed

lemma entered_files:
  assumes s1: "s1 = s\<lparr>bd_files := bd_files s @ ws\<rparr>"
    and enter: "enter_context (pr_host P) args (bd_cwd s1) = Inr (chdir, cwd)"
    and run: "run_config P f (s1\<lparr>bd_cwd := cwd, bd_chdir := chdir\<rparr>) = (q, s2)"
    and clean: "deferred_cleanup P (q, s2) = (r, s')"
  shows "\<exists>vs. bd_files s' = bd_files s @ ws @ vs
    \<and> (\<forall>p as h. (p, SkaffoldJSON as h) \<in> set vs \<longrightarrow>
         p = path_abs (bd_cwd s) (bf_fileOutput f) \<and> reported P cwd s s' as)
    \<and> (r = Inr () \<longrightarrow> bf_runSelector f = '''' \<longrightarrow> bf_fileOutput f \<noteq> '''' \<longrightarrow>
         (\<exists>as h. (path_abs (bd_cwd s) (bf_fileOutput f), SkaffoldJSON as h) \<in> set vs))"
proof -
  let ?t = "s1\<lparr>bd_cwd := cwd, bd_chdir := chdir\<rparr>"
  have "first_cwd ?t = bd_cwd s" using enter_context_first [OF enter] s1 by simp
  moreover have "bd_files s' = bd_files s2" "bd_run s' = bd_run s2" "r = Inr () \<Longrightarrow> q = Inr ()"
    using deferred_cleanup_effect [OF clean] deferred_cleanup_Inr clean by auto
  moreover have "reported P cwd ?t s2 as = reported P cwd s s' as" for as
    using calculation(3) s1 by (simp add: reported_def)
  ultimately show ?thesis using run_config_files [OF run] s1 by auto
qed


section \<open>A build\<close>

definition toy_host :: host where
  "toy_host =
     \<lparr>ho_lookup = map_of [(''CONTAIN_PUSH'', ''false''), (''CONTAIN_PUSH_LOCK_PATH'', ''/run/push.lock'')],
      ho_stat = (\<lambda>p. Inr True), ho_chdir = (\<lambda>p. None), ho_read = (\<lambda>p. Inr ''config''),
      ho_stdin = Inl ''closed'', ho_yaml = (\<lambda>b. Inr toy_config), ho_templates = Inr,
      ho_sha256 = (\<lambda>b. st_sha256 (cf_status toy_config)), ho_md5 = (\<lambda>b. st_md5 (cf_status toy_config))\<rparr>"

definition toy_spdx :: spdx_env where
  "toy_spdx =
     \<lparr>sx_parse = (\<lambda>b r. Inl ''offline''), sx_name = rf_string, sx_hash_string = (\<lambda>h. ''''),
      sx_new_hash = (\<lambda>s. Inl ''no hash''), sx_head = (\<lambda>r. Inl ''offline''), sx_index = (\<lambda>r. Inl ''offline''),
      sx_image = (\<lambda>r. Inl ''offline''), sx_loopback = (\<lambda>s. None), sx_read = (\<lambda>p. Inl ''missing''),
      sx_write = (\<lambda>p b. None), sx_decode = (\<lambda>b. Inl ''no json''), sx_encode = (\<lambda>j. Inr ''''),
      sx_builds = (\<lambda>b. []), sx_baseName = '''', sx_baseDigest = ''''\<rparr>"

definition toy_process :: "(toy_img, toy_idx, toy_layer, nat, nat) process" where
  "toy_process =
     \<lparr>pr_host = toy_host, pr_environ = [], pr_tools = (\<lambda>cwd. toy_tools),
      pr_kube = \<lparr>kb_run = (\<lambda>args stdin w. ((None, []), w)), kb_pods = (\<lambda>out. []), kb_sleep = (\<lambda>d w. w),
                 kb_compressed = (\<lambda>l. Inr [])\<rparr>,
      pr_cache = Inl ''read-only'', pr_open = (\<lambda>p. None), pr_spdx = (\<lambda>cwd files. toy_spdx), pr_start = 0, pr_end = 1,
      pr_build = ''test''\<rparr>"

definition toy_flags :: build_flags where
  "toy_flags = newBuildCmd\<lparr>bf_fileOutput := ''builds.json'', bf_output := ''out''\<rparr>"

definition toy_begin :: "(toy_img, nat, nat) build_state" where
  "toy_begin =
     \<lparr>bd_cwd = ''/work'', bd_chdir = None, bd_files = [], bd_spdx = [], bd_stdout = [], bd_run = toy_start,
      bd_pods = \<lparr>ss_world = 0, ss_events = []\<rparr>\<rparr>"

lemma toy_choices:
  "push_off toy_host toy_flags" "choose_output toy_host toy_flags = Inr (''out'', ''oci'', False)"
  "choose_lock toy_host toy_flags = Inr (Some ''/run/push.lock'')"
  by code_simp+

lemma toy_build_config: "build_config toy_host toy_flags ''/work'' = Inr toy_config"
proof -
  have "cf_base toy_config \<noteq> ''''" "cf_tag toy_config \<noteq> ''''" by (simp_all add: toy_config_def plain_config_def)
  moreover have "toy_config\<lparr>cf_status := (cf_status toy_config)\<lparr>st_sha256 := st_sha256 (cf_status toy_config),
      st_md5 := st_md5 (cf_status toy_config)\<rparr>\<rparr> = toy_config"
    by simp
  ultimately show ?thesis
    by (simp add: build_config_def base_config_def flag_base_def toy_flags_def newBuildCmd_def getenv_def toy_host_def
        ParseConfig_def ReadConfiguration_def Parse_def parseConfig_def with_tag_def with_platforms_def Let_def)
qed

lemma toy_build_runs: "\<exists>s'. runBuild toy_process toy_flags [] toy_begin = (Inr (), s')"
proof -
  let ?opts = "write_options toy_process (''out'', ''oci'', False) (Some ''/run/push.lock'')"
  obtain builders out r where run: "RunLayers toy_build (cf_layers toy_config) = Inr builders"
      "RunAppend toy_tools toy_config builders ?opts toy_start = (Inr out, r)"
    by (rule toy_run_runs [of ?opts]) (simp_all add: write_options_def)
  obtain s1 where w: "writeBuildOutput toy_process toy_flags (started toy_process) toy_begin = (Inr (), s1)"
      "bd_cwd s1 = ''/work''" "bd_run s1 = toy_start"
    by (simp add: writeBuildOutput_def write_output_def toy_process_def toy_flags_def newBuildCmd_def toy_begin_def Let_def)
  let ?t = "s1\<lparr>bd_cwd := ''/work'', bd_chdir := None\<rparr>"
  have "\<exists>b s2. build_append toy_process toy_config builders ?opts ?t = (Inr b, s2) \<and> bd_chdir s2 = None"
    using run(2) w(2,3) by (simp add: build_append_def toy_process_def BuildTraceEnv_def)
  then obtain b s2 where b: "build_append toy_process toy_config builders ?opts ?t = (Inr b, s2)" "bd_chdir s2 = None"
    by blast
  have "\<exists>s3. finish_build toy_process toy_flags ?opts b s2 = (Inr (), s3) \<and> bd_chdir s3 = None"
    using b(2) by (simp add: finish_build_def restore_cwd_def writeBuildOutput_def write_output_def wrap_sbom_def
        toy_process_def toy_flags_def newBuildCmd_def Let_def)
  then obtain s3 where s3: "finish_build toy_process toy_flags ?opts b s2 = (Inr (), s3)" "bd_chdir s3 = None" by blast
  have "run_config toy_process toy_flags ?t = (Inr (), s3)"
  proof -
    have "bf_runSelector toy_flags = ''''" "pr_host toy_process = toy_host" "pr_tools toy_process = (\<lambda>cwd. toy_tools)"
      by (simp_all add: toy_flags_def newBuildCmd_def toy_process_def)
    with run(1) toy_build_config toy_choices b(1) s3(1) w(2) show ?thesis
      by (simp add: run_config_def build_image_def)
  qed
  moreover have "enter_context (pr_host toy_process) [] ''/work'' = Inr (None, ''/work'')"
    by (simp add: enter_context_def)
  moreover have "\<not> bf_version toy_flags" "\<not> bf_watch toy_flags" by (simp_all add: toy_flags_def newBuildCmd_def)
  ultimately have "runBuild toy_process toy_flags [] toy_begin = deferred_cleanup toy_process (Inr (), s3)"
    using w(1,2) by (simp add: runBuild_def)
  also have "\<dots> = (Inr (), s3)" using s3(2) by (simp add: deferred_cleanup_def restore_cwd_def)
  finally show ?thesis by blast
qed

lemma flags_govern_registry_witness:
  "\<exists>r es. runBuild toy_process toy_flags [] toy_begin = r \<and> fst r = Inr ()
     \<and> bs_events (bd_run (snd r)) = bs_events (bd_run toy_begin) @ es \<and> silent es"
proof -
  obtain s' where run: "runBuild toy_process toy_flags [] toy_begin = (Inr (), s')" using toy_build_runs by blast
  have "push_off (pr_host toy_process) toy_flags" using toy_choices(1) by (simp add: toy_process_def)
  with flags_govern_registry [OF run] run show ?thesis by (auto simp: along_def)
qed


end
