(* ===== verification/Log_Output.thy ===== *)
theory Log_Output
  imports Prelude
begin

text \<open>
  Logging of the commands (\<open>cmd/contain/logger.go\<close>): the effective mode and level, and the plain
  encoder. A field is zap's struct: which of its parts has the value depends on the constructor.
\<close>

section \<open>Mode and level\<close>

datatype level = DebugLevel | InfoLevel | WarnLevel | ErrorLevel | DPanicLevel | PanicLevel | FatalLevel

instantiation level :: linorder
begin

fun level_number :: "level \<Rightarrow> int" where
  "level_number DebugLevel = -1"
| "level_number InfoLevel = 0"
| "level_number WarnLevel = 1"
| "level_number ErrorLevel = 2"
| "level_number DPanicLevel = 3"
| "level_number PanicLevel = 4"
| "level_number FatalLevel = 5"

definition less_eq_level :: "level \<Rightarrow> level \<Rightarrow> bool" where
  "a \<le> b \<longleftrightarrow> level_number a \<le> level_number b"

definition less_level :: "level \<Rightarrow> level \<Rightarrow> bool" where
  "a < b \<longleftrightarrow> level_number a < level_number b"

instance
proof
  fix a b :: level
  show "a \<le> b \<Longrightarrow> b \<le> a \<Longrightarrow> a = b"
    by (cases a; cases b) (simp_all add: less_eq_level_def)
qed (auto simp: less_eq_level_def less_level_def)

end

text \<open>
  \<open>strings.ToLower\<close>, as far as a comparison with ASCII text can tell: beside the ASCII letters two
  characters have an ASCII lower case, the dotted capital I and the Kelvin sign.
\<close>

function to_lower :: "string \<Rightarrow> string" where
  "to_lower s =
     (case s of
        [] \<Rightarrow> []
      | c # rest \<Rightarrow>
          if has_prefix s [CHR 0xC4, CHR 0xB0] then CHR ''i'' # to_lower (drop 2 s)
          else if has_prefix s [CHR 0xE2, CHR 0x84, CHR 0xAA] then CHR ''k'' # to_lower (drop 3 s)
          else to_lower_ascii c # to_lower rest)"
  by pat_completeness auto
termination
  by (relation "measure length") auto

declare to_lower.simps [simp del]

text \<open>The level and whether it was recognised.\<close>

definition parseLogLevel :: "string \<Rightarrow> level \<times> bool" where
  "parseLogLevel s =
     (let l = to_lower s in
      if l = ''debug'' then (DebugLevel, True)
      else if l = ''info'' then (InfoLevel, True)
      else if l = ''warn'' \<or> l = ''warning'' then (WarnLevel, True)
      else if l = ''error'' then (ErrorLevel, True)
      else if l = ''dpanic'' then (DPanicLevel, True)
      else if l = ''panic'' then (PanicLevel, True)
      else if l = ''fatal'' then (FatalLevel, True)
      else (InfoLevel, False))"

text \<open>\<open>newLogger\<close> from the flags \<open>--logger\<close> and \<open>-x\<close> and the two variables.\<close>

definition effective_mode :: "string \<Rightarrow> string \<Rightarrow> string" where
  "effective_mode loggerMode env =
     (if loggerMode = ''dev'' \<and> trim_space env \<noteq> '''' then trim_space env else loggerMode)"

definition effective_level :: "bool \<Rightarrow> string \<Rightarrow> level" where
  "effective_level debug env =
     (if debug then DebugLevel
      else if trim_space env \<noteq> '''' then
        (case parseLogLevel (trim_space env) of (l, ok) \<Rightarrow> if ok then l else InfoLevel)
      else InfoLevel)"

datatype encoder = Plain | Console

definition newLogger :: "string \<Rightarrow> bool \<Rightarrow> (string \<Rightarrow> string) \<Rightarrow> encoder \<times> (level \<Rightarrow> bool)" where
  "newLogger loggerMode debug getenv =
     (let effMode = effective_mode loggerMode (getenv ''CONTAIN_LOG_MODE'');
          effLevel = effective_level debug (getenv ''CONTAIN_LOG_LEVEL'')
      in (if effMode = ''plain'' then Plain else Console, \<lambda>lvl. effLevel \<le> lvl))"

section \<open>The plain encoder\<close>

datatype field_type =
    StringType | BoolType | Int64Type | Int32Type | Int16Type | Int8Type
  | Uint64Type | Uint32Type | Uint16Type | Uint8Type | Float64Type | Float32Type | ErrorType | OtherType

text \<open>
  \<open>fd_interface\<close> is what \<open>%v\<close> prints of \<open>Interface\<close>, and for an error its message; \<open>None\<close> in
  \<open>fd_error\<close> if \<open>Interface\<close> is no error.
\<close>

record field =
  fd_key :: string
  fd_type :: field_type
  fd_integer :: i64
  fd_string :: string
  fd_interface :: string
  fd_error :: "string option"

fun level_name :: "level \<Rightarrow> string" where
  "level_name DebugLevel = ''DEBUG''"
| "level_name InfoLevel = ''INFO''"
| "level_name WarnLevel = ''WARN''"
| "level_name ErrorLevel = ''ERROR''"
| "level_name DPanicLevel = ''DPANIC''"
| "level_name PanicLevel = ''PANIC''"
| "level_name FatalLevel = ''FATAL''"

definition quote_spaced :: "string \<Rightarrow> string" where
  "quote_spaced v = (if contains_any v [CHR '' '', CHR 0x09] then [CHR 0x22] @ v @ [CHR 0x22] else v)"

definition field_value :: "field \<Rightarrow> string" where
  "field_value f =
     (case fd_type f of
        StringType \<Rightarrow> quote_spaced (fd_string f)
      | BoolType \<Rightarrow> if fd_integer f = 0 then ''false'' else ''true''
      | Int64Type \<Rightarrow> itoa (sint (fd_integer f))
      | Int32Type \<Rightarrow> itoa (sint (fd_integer f))
      | Int16Type \<Rightarrow> itoa (sint (fd_integer f))
      | Int8Type \<Rightarrow> itoa (sint (fd_integer f))
      | Uint64Type \<Rightarrow> itoa (uint (fd_integer f))
      | Uint32Type \<Rightarrow> itoa (uint (fd_integer f))
      | Uint16Type \<Rightarrow> itoa (uint (fd_integer f))
      | Uint8Type \<Rightarrow> itoa (uint (fd_integer f))
      | Float64Type \<Rightarrow> fd_interface f
      | Float32Type \<Rightarrow> fd_interface f
      | ErrorType \<Rightarrow> (case fd_error f of Some v \<Rightarrow> quote_spaced v | None \<Rightarrow> ''<error>'')
      | OtherType \<Rightarrow> fd_interface f)"

definition levelWidth :: nat where "levelWidth = 6"

definition pad_level :: "string \<Rightarrow> string" where
  "pad_level level =
     level @ (if length level < levelWidth then replicate (levelWidth - length level) (CHR '' '') else [])"

definition EncodeEntry :: "level \<Rightarrow> string \<Rightarrow> field list \<Rightarrow> string" where
  "EncodeEntry lvl message fs =
     pad_level (level_name lvl) @ '' '' @ message
     @ concat (map (\<lambda>f. '' '' @ fd_key f @ ''='' @ field_value f) fs) @ [CHR 0x0A]"

section \<open>Properties\<close>

text \<open>Messages align: the message starts in column 7 whatever the level.\<close>

lemma message_column: "take (length message) (drop 7 (EncodeEntry lvl message fs)) = message"
  by (cases lvl) (simp_all add: EncodeEntry_def pad_level_def levelWidth_def)

text \<open>An unknown level in the environment counts as none, and \<open>-x\<close> wins over every level.\<close>

lemma effective_level_spec:
  "effective_level True env = DebugLevel"
  "snd (parseLogLevel (trim_space env)) = False \<Longrightarrow> effective_level False env = InfoLevel"
  by (auto simp: effective_level_def split: prod.splits)

lemma parseLogLevel_examples:
  "parseLogLevel ''Warning'' = (WarnLevel, True)" "parseLogLevel ''verbose'' = (InfoLevel, False)"
  "parseLogLevel [CHR 0xC4, CHR 0xB0, CHR ''n'', CHR ''f'', CHR ''o''] = (InfoLevel, True)"
  by code_simp+

lemma debug_logs_all: "snd (newLogger mode True getenv) lvl"
  by (cases lvl) (simp_all add: newLogger_def effective_level_def less_eq_level_def Let_def)

text \<open>
  The number of a field that is neither an integer nor a bool, such as a duration, does not reach the
  line: two entries that differ in nothing else print the same.
\<close>

lemma number_not_printed:
  assumes "fd_type f \<in> {Float64Type, Float32Type, OtherType}"
  shows "EncodeEntry lvl message [f\<lparr>fd_integer := n\<rparr>] = EncodeEntry lvl message [f]"
  using assms by (auto simp: EncodeEntry_def field_value_def)

text \<open>A quote inside a value is not escaped: two values and one can print the same.\<close>

lemma quotes_ambiguous:
  "quote_spaced ([CHR ''a'', CHR 0x22] @ '' b='' @ [CHR 0x22, CHR ''c'']) =
     [CHR 0x22] @ ''a'' @ [CHR 0x22] @ '' b='' @ [CHR 0x22] @ ''c'' @ [CHR 0x22]"
  by (simp add: quote_spaced_def contains_any_def)

text \<open>The mode \<open>dev\<close> gives way to the environment, also where the flag was given.\<close>

lemma dev_flag_overridden: "effective_mode ''dev'' ''plain'' = ''plain''"
  by code_simp

end
