(* ===== verification/Commands.thy ===== *)
theory Commands
  imports Build_Command Layout_Push Image_Mirror Oci_Proxy Log_Output
begin

text \<open>
  The other commands (\<open>cmd/contain\<close>): push, mirror and registry-proxy with their flags, sbom, cache and
  the root. Each checks its arguments and calls the operation of its package with the options its flags
  stand for.
\<close>

section \<open>Flags of the registry commands (directpushflags.go)\<close>

record direct_flags =
  df_directThreshold :: "i64 option"  \<comment> \<open>\<open>None\<close>: not given\<close>
  df_partSize :: "i64 option"
  df_stagingDir :: "string option"

definition direct_options :: "direct_flags \<Rightarrow> Options" where
  "direct_options f =
     \<lparr>o_auth = None, o_keychain = None,
      o_extThreshold = (case df_directThreshold f of None \<Rightarrow> DefaultExtThreshold | Some n \<Rightarrow> n),
      o_partSize = (case df_partSize f of None \<Rightarrow> 0 | Some n \<Rightarrow> n),
      o_stagingDir = (case df_stagingDir f of None \<Rightarrow> '''' | Some d \<Rightarrow> d)\<rparr>"

text \<open>Whether \<open>cobra.ExactArgs(n)\<close> accepts.\<close>

definition exact_args :: "nat \<Rightarrow> string list \<Rightarrow> go_err + unit" where
  "exact_args n args =
     (if length args = n then Inr ()
      else Inl (Msg (''accepts '' @ itoa (int n) @ '' arg(s), received '' @ itoa (int (length args)))))"

section \<open>push, mirror, registry-proxy\<close>

text \<open>\<open>push\<close> has no staging flag.\<close>

definition runPush ::
  "lib \<Rightarrow> 'w env \<Rightarrow> names \<Rightarrow> nat \<Rightarrow> nat \<Rightarrow> direct_flags \<Rightarrow> string list \<Rightarrow> 'w st \<Rightarrow> (unit, 'w) result option" where
  "runPush L E N fuel i f args s =
     (case exact_args 2 args of
        Inl e \<Rightarrow> Some (Inl e, s)
      | Inr _ \<Rightarrow> push L E N fuel i (args ! 0) (args ! 1) (direct_options (f\<lparr>df_stagingDir := None\<rparr>)) s)"

definition runMirror ::
  "lib \<Rightarrow> 'w env \<Rightarrow> names \<Rightarrow> nat \<Rightarrow> nat \<Rightarrow> nat \<Rightarrow> bool \<Rightarrow> direct_flags \<Rightarrow> string list \<Rightarrow> 'w st \<Rightarrow>
   (unit, 'w) result option" where
  "runMirror L E N fuel i j srcPlainHTTP f args s =
     (case exact_args 2 args of
        Inl e \<Rightarrow> Some (Inl e, s)
      | Inr _ \<Rightarrow>
          mirror L E N fuel i j (args ! 0) (args ! 1)
            \<lparr>mo_src = \<lparr>so_auth = None, so_keychain = None, so_plainHTTP = srcPlainHTTP\<rparr>,
             mo_dst = direct_options f\<rparr> s)"

text \<open>\<open>--upstream\<close> is required; the server that runs the handler is not modelled.\<close>

definition runRegistryProxy ::
  "(string \<Rightarrow> string + parsed_ref) \<Rightarrow> names \<Rightarrow> nat \<Rightarrow> string option \<Rightarrow> string \<Rightarrow> direct_flags \<Rightarrow> string list \<Rightarrow>
   'w st \<Rightarrow> go_err + (Proxy \<times> 'w pst)" where
  "runRegistryProxy new_registry N i upstream pre f args s =
     (if args \<noteq> [] then Inl (Msg ''unknown command for contain registry-proxy'')
      else
       (case upstream of
          None \<Rightarrow> Inl (Msg (''required flag(s) '' @ go_quote ''upstream'' @ '' not set''))
        | Some u \<Rightarrow> newProxy new_registry N i u pre (direct_options f) s))"

section \<open>sbom (sbom.go)\<close>

record sbom_flags =
  sb_buildArtifacts :: string
  sb_in :: string
  sb_out :: string
  sb_given :: nat  \<comment> \<open>\<open>NFlag()\<close>\<close>

definition runSbom ::
  "spdx_env \<Rightarrow> string \<Rightarrow> sbom_flags \<Rightarrow> string list \<Rightarrow> (stop + unit) \<times> (string \<times> bytes) option" where
  "runSbom X build f args =
     (if length args > 1
      then (Inl (Err (Msg (''accepts at most 1 arg(s), received '' @ itoa (int (length args))))), None)
      else if sb_given f = 0 \<and> length args = 0 then (Inr (), None)
      else
       (let out = (if sb_out f = '''' \<and> length args > 0 then args ! 0 else sb_out f)
        in if sb_in f = '''' then (Inl (Err (Msg ''--in is required (path to input SPDX json)'')), None)
           else WrapSPDX X (sb_buildArtifacts f) (sb_in f) out None build))"

section \<open>cache (cache.go)\<close>

text \<open>\<open>New\<close> of \<open>pkg/cache\<close> up to the directory; \<open>mkdir\<close> is \<open>os.MkdirAll\<close>.\<close>

definition open_cache ::
  "(string \<Rightarrow> string) \<Rightarrow> string + string \<Rightarrow> (string \<Rightarrow> string option) \<Rightarrow> go_err + string" where
  "open_cache vars home mkdir =
     (case resolveDir (vars ''CONTAIN_CACHE_DIR'') (vars ''XDG_CACHE_HOME'') home of
        Inl e \<Rightarrow> Inl e
      | Inr dir \<Rightarrow>
          (case mkdir dir of
             Some e \<Rightarrow> Inl (Wrap (''create cache dir '' @ dir) (Msg e))
           | None \<Rightarrow> Inr dir))"

text \<open>The numbers that \<open>cache info\<close> and \<open>cache purge\<close> print.\<close>

definition cache_info_cmd ::
  "(string \<Rightarrow> string) \<Rightarrow> string + string \<Rightarrow> (string \<Rightarrow> string option) \<Rightarrow> cache_os \<Rightarrow> go_err + string \<times> int \<times> int" where
  "cache_info_cmd vars home mkdir OS =
     (case open_cache vars home mkdir of
        Inl e \<Rightarrow> Inl e
      | Inr dir \<Rightarrow> (case cache_Info OS dir of Inl e \<Rightarrow> Inl e | Inr (n, b) \<Rightarrow> Inr (dir, n, b)))"

definition cache_purge_cmd ::
  "(string \<Rightarrow> string) \<Rightarrow> string + string \<Rightarrow> (string \<Rightarrow> string option) \<Rightarrow> cache_os \<Rightarrow> PurgeStrategy \<Rightarrow>
   (go_err + PurgeResult) \<times> string list" where
  "cache_purge_cmd vars home mkdir OS strategy =
     (case open_cache vars home mkdir of
        Inl e \<Rightarrow> (Inl e, [])
      | Inr dir \<Rightarrow>
          (case Purge OS dir strategy of
             ((Some e, res), gone) \<Rightarrow> (Inl e, gone)
           | ((None, res), gone) \<Rightarrow> (Inr res, gone)))"

section \<open>Properties\<close>

text \<open>The commands do nothing on wrong arguments.\<close>

lemma wrong_args_nothing:
  "length args \<noteq> 2 \<Longrightarrow> \<exists>e. runPush L E N fuel i f args s = Some (Inl e, s)"
  "length args \<noteq> 2 \<Longrightarrow> \<exists>e. runMirror L E N fuel i j h f args s = Some (Inl e, s)"
  by (auto simp: runPush_def runMirror_def exact_args_def)

text \<open>Without flags the threshold is the documented default, and the registry chooses the part size.\<close>

lemma direct_defaults:
  "o_extThreshold (direct_options \<lparr>df_directThreshold = None, df_partSize = None, df_stagingDir = None\<rparr>) = DefaultExtThreshold"
  "o_partSize (direct_options \<lparr>df_directThreshold = None, df_partSize = None, df_stagingDir = None\<rparr>) = 0"
  by (simp_all add: direct_options_def)

end
