(* ===== verification/Ignore_File.thy ===== *)
theory Ignore_File
  imports Go_Path
begin

text \<open>
  Reading of a \<open>.dockerignore\<close> file (\<open>pkg/dockerignore/dockerignore.go\<close>). \<open>bufio.ScanLines\<close> is written
  out: a line ends at a newline or at the end of the file, loses one carriage return, and a line that does
  not fit the buffer of 64 KiB ends the scan with an error.
\<close>

section \<open>Lines\<close>

definition drop_cr :: "bytes \<Rightarrow> bytes" where
  "drop_cr l = (if l \<noteq> [] \<and> last l = CHR 0x0D then butlast l else l)"

definition MaxScanTokenSize :: nat where "MaxScanTokenSize = 64 * 1024"

text \<open>The raw lines; an empty rest after the last newline is no line.\<close>

definition raw_lines :: "bytes \<Rightarrow> bytes list" where
  "raw_lines content =
     (let ls = split_on (CHR 0x0A) content in if last ls = [] then butlast ls else ls)"

text \<open>The lines up to the first that is too long, and whether there is one.\<close>

definition scan_lines :: "bytes \<Rightarrow> bytes list \<times> bool" where
  "scan_lines content =
     (let ls = raw_lines content; fits = (\<lambda>l. length l < MaxScanTokenSize)
      in (map drop_cr (takeWhile fits ls), dropWhile fits ls \<noteq> []))"

section \<open>ReadAll\<close>

definition utf8bom :: bytes where "utf8bom = [CHR 0xEF, CHR 0xBB, CHR 0xBF]"

definition clean_pattern :: "string \<Rightarrow> string" where
  "clean_pattern pattern =
     (if length pattern > 0 then
       (let pattern = path_clean pattern
        in if length pattern > 1 \<and> hd pattern = CHR ''/'' then tl pattern else pattern)
      else pattern)"

text \<open>One line after the byte order mark: \<open>None\<close> for \<open>continue\<close>.\<close>

definition exclude_of :: "string \<Rightarrow> string option" where
  "exclude_of pattern =
     (if has_prefix pattern ''#'' then None
      else
       (let pattern = trim_space pattern in
        if pattern = '''' then None
        else
         (let invert = hd pattern = CHR ''!'';
              pattern = (if invert then trim_space (tl pattern) else pattern);
              pattern = clean_pattern pattern
          in Some (if invert then ''!'' @ pattern else pattern))))"

text \<open>\<open>None\<close> is the nil reader, and the value for it a nil slice.\<close>

definition ReadAll :: "bytes option \<Rightarrow> string + string list" where
  "ReadAll reader =
     (case reader of
        None \<Rightarrow> Inr []
      | Some content \<Rightarrow>
          (case scan_lines content of
             (ls, tooLong) \<Rightarrow>
               (if tooLong then Inl ''bufio.Scanner: token too long''
                else
                 Inr (List.map_filter exclude_of
                   (case ls of [] \<Rightarrow> [] | l # rest \<Rightarrow> trim_prefix l utf8bom # rest)))))"

section \<open>What a pattern looks like\<close>

text \<open>
  Every pattern, without its exclamation mark, is empty (a lone mark), the root, or a cleaned path
  relative to the context, so that it can match the relative names of a walk.
\<close>

definition usable_pattern :: "string \<Rightarrow> bool" where
  "usable_pattern p \<longleftrightarrow> p = '''' \<or> p = ''/'' \<or> \<not> is_abs p"

lemma relative_join:
  assumes "\<And>x. x \<in> set segs \<Longrightarrow> CHR ''/'' \<notin> set x \<and> x \<noteq> ''''"
  shows "\<not> is_abs (str_join segs ''/'')"
proof (cases segs)
  case (Cons x xs)
  then have "x \<noteq> ''''" "CHR ''/'' \<notin> set x" using assms [of x] by simp_all
  then obtain c cs where "x = c # cs" "c \<noteq> CHR ''/''" by (cases x) auto
  then show ?thesis unfolding Cons by (cases xs) (simp_all add: is_abs_def has_prefix_def)
qed (simp add: is_abs_def has_prefix_def)

lemma no_double_slash:
  assumes "is_abs (path_clean p)"
  shows "\<not> is_abs (tl (path_clean p))"
proof (rule clean_segs_shape [of "is_abs p" p])
  fix k names
  let ?segs = "clean_segs (is_abs p) (split_on (CHR ''/'') p)"
  assume segs: "?segs = replicate k ''..'' @ names" and names: "list_all plain_seg names"
  have join: "\<not> is_abs (str_join ?segs ''/'')"
    unfolding segs
  proof (rule relative_join)
    fix x
    assume "x \<in> set (replicate k ''..'' @ names)"
    then have "x = ''..'' \<or> plain_seg x" using names by (auto simp: list_all_iff)
    then show "CHR ''/'' \<notin> set x \<and> x \<noteq> ''''" by (elim disjE) (simp_all add: plain_seg_def)
  qed
  show ?thesis
  proof (cases "is_abs p")
    case True
    with join show ?thesis by (simp add: path_clean_def Let_def)
  next
    case False
    with join assms show ?thesis by (simp add: path_clean_def Let_def is_abs_def has_prefix_def split: if_splits)
  qed
qed

lemma clean_pattern_usable: "usable_pattern (clean_pattern p)"
proof (cases "is_abs (path_clean p) \<and> length (path_clean p) > 1")
  case True
  then have "hd (path_clean p) = CHR ''/''" by (cases "path_clean p") (auto simp: is_abs_def has_prefix_def)
  with True no_double_slash [of p] show ?thesis by (auto simp: clean_pattern_def usable_pattern_def Let_def)
next
  case False
  then show ?thesis
    by (cases "path_clean p") (auto simp: clean_pattern_def usable_pattern_def Let_def is_abs_def has_prefix_def)
qed

lemma exclude_of_usable:
  assumes "exclude_of l = Some x"
  shows "\<exists>p. usable_pattern p \<and> (x = p \<or> x = ''!'' @ p)"
proof -
  have "x = clean_pattern (trim_space l) \<or> x = ''!'' @ clean_pattern (trim_space (tl (trim_space l)))"
    using assms by (simp add: exclude_of_def Let_def split: if_splits)
  with clean_pattern_usable show ?thesis by blast
qed

lemma patterns_usable:
  assumes "ReadAll (Some content) = Inr excludes" and "x \<in> set excludes"
  shows "\<exists>p. usable_pattern p \<and> (x = p \<or> x = ''!'' @ p)"
proof -
  have "\<exists>ls. excludes = List.map_filter exclude_of ls"
    using assms(1) by (simp add: ReadAll_def split: prod.splits if_splits) blast
  then obtain l where "exclude_of l = Some x"
    using assms(2) by (auto simp: List.map_filter_def)
  then show ?thesis by (rule exclude_of_usable)
qed

text \<open>The comment mark counts only at the very start of a line.\<close>

lemma comment_after_space:
  "exclude_of ''# a'' = None" "exclude_of '' # b'' = Some ''# b''"
  by code_simp+

end
