(* ===== verification/Release_Script.thy ===== *)
theory Release_Script
  imports Go_Path Go_Regexp "HOL-Library.AList"
begin

text \<open>
  The release script (\<open>scripts/publish.go\<close>): it turns the files of a GitHub release into the npm packages
  of the platforms, under the directory \<open>npm\<close>, and prints what is left to do by hand. The answers of
  GitHub, of the download server and of the JSON library are parameters; the disk is a list of paths with
  their nodes, without links, and a call to it may fail at any point.
\<close>

section \<open>Operating systems and processors\<close>

type_synonym OS = int
type_synonym CPU = int

definition Darwin :: OS where "Darwin = 1"
definition Linux :: OS where "Linux = 2"
definition Win32 :: OS where "Win32 = 3"
definition X64 :: CPU where "X64 = 1"
definition Arm64 :: CPU where "Arm64 = 2"

lemmas platform_defs = Darwin_def Linux_def Win32_def X64_def Arm64_def

text \<open>A panic is \<open>Exit\<close>.\<close>

definition OS_String :: "OS \<Rightarrow> stop + string" where
  "OS_String os =
     (if os = Darwin then Inr ''darwin''
      else if os = Linux then Inr ''linux''
      else if os = Win32 then Inr ''win32''
      else Inl (Exit (''os name '' @ itoa os)))"

definition CPU_String :: "CPU \<Rightarrow> stop + string" where
  "CPU_String c =
     (if c = X64 then Inr ''x64''
      else if c = Arm64 then Inr ''arm64''
      else Inl (Exit (''cpu name '' @ itoa c)))"

definition NewCPU :: "string \<Rightarrow> stop + CPU" where
  "NewCPU arch =
     (if arch = ''amd64'' then Inr X64
      else if arch = ''arm64'' then Inr Arm64
      else Inl (Exit (''arch: '' @ arch)))"

definition NewOs :: "string \<Rightarrow> stop + OS" where
  "NewOs os =
     (if os = ''darwin'' then Inr Darwin
      else if os = ''linux'' then Inr Linux
      else if os = ''windows'' then Inr Win32
      else Inl (Exit (''os: '' @ os)))"

text \<open>The names of the platforms that exist, and what the constructors accept.\<close>

definition os_names :: "string list" where "os_names = [''darwin'', ''linux'', ''win32'']"
definition cpu_names :: "string list" where "cpu_names = [''x64'', ''arm64'']"

lemma NewOs_String: "NewOs s = Inr os \<Longrightarrow> \<exists>n \<in> set os_names. OS_String os = Inr n"
  by (auto simp: NewOs_def OS_String_def os_names_def platform_defs split: if_splits)

lemma NewCPU_String: "NewCPU s = Inr c \<Longrightarrow> \<exists>n \<in> set cpu_names. CPU_String c = Inr n"
  by (auto simp: NewCPU_def CPU_String_def cpu_names_def platform_defs split: if_splits)

section \<open>The names of release files\<close>

definition release_char :: "char \<Rightarrow> bool" where
  "release_char c \<longleftrightarrow> is_lower c \<or> is_digit c"

definition release_digits :: rx where "release_digits = rplus (RCls is_digit)"

definition release_word :: rx where "release_word = rplus (RCls release_char)"

definition release_version :: rx where
  "release_version =
     RSeq release_digits (RSeq (rchar CHR ''.'') (RSeq release_digits (RSeq (rchar CHR ''.'') release_digits)))"

definition release_ext :: rx where "release_ext = ropt (rstr ''.exe'')"

definition release_checksum :: rx where "release_checksum = ropt (RSeq (rchar CHR ''.'') release_word)"

text \<open>The expression \<open>releaseBinaryName\<close> between its anchors.\<close>

definition releaseBinaryName :: rx where
  "releaseBinaryName =
     RSeq (rstr ''contain-v'') (RSeq release_version (RSeq (rchar CHR ''-'') (RSeq release_word
       (RSeq (rchar CHR ''-'') (RSeq release_word (RSeq release_ext release_checksum))))))"

text \<open>
  \<open>FindStringSubmatch\<close>, specialised to this expression: the whole match and the five groups. The repeated
  classes have no character in common with what follows them, so taking all they can is the only way to
  match; of the two optional groups at the end the first is tried with its text before it is tried empty.
\<close>

definition expect :: "string \<Rightarrow> string \<Rightarrow> string option" where
  "expect lit s = (if has_prefix s lit then Some (drop (length lit) s) else None)"

definition run_of :: "(char \<Rightarrow> bool) \<Rightarrow> string \<Rightarrow> (string \<times> string) option" where
  "run_of p s = (if takeWhile p s = [] then None else Some (takeWhile p s, dropWhile p s))"

definition version_of :: "string \<Rightarrow> (string \<times> string) option" where
  "version_of s =
     Option.bind (run_of is_digit s) (\<lambda>(a, s).
     Option.bind (expect ''.'' s) (\<lambda>s.
     Option.bind (run_of is_digit s) (\<lambda>(b, s).
     Option.bind (expect ''.'' s) (\<lambda>s.
     Option.bind (run_of is_digit s) (\<lambda>(c, s).
       Some (a @ ''.'' @ b @ ''.'' @ c, s))))))"

definition checksum_of :: "string \<Rightarrow> string option" where
  "checksum_of s =
     (case s of
        [] \<Rightarrow> Some []
      | c # w \<Rightarrow> if c = CHR ''.'' \<and> w \<noteq> [] \<and> list_all release_char w then Some s else None)"

definition endings_of :: "string \<Rightarrow> (string \<times> string) option" where
  "endings_of s =
     (case Option.bind (expect ''.exe'' s) checksum_of of
        Some k \<Rightarrow> Some (''.exe'', k)
      | None \<Rightarrow> map_option (\<lambda>k. ('''', k)) (checksum_of s))"

definition FindStringSubmatch :: "string \<Rightarrow> string list option" where
  "FindStringSubmatch name =
     Option.bind (expect ''contain-v'' name) (\<lambda>s.
     Option.bind (version_of s) (\<lambda>(version, s).
     Option.bind (expect ''-'' s) (\<lambda>s.
     Option.bind (run_of release_char s) (\<lambda>(os, s).
     Option.bind (expect ''-'' s) (\<lambda>s.
     Option.bind (run_of release_char s) (\<lambda>(arch, s).
     Option.bind (endings_of s) (\<lambda>(ext, checksum).
       Some [name, version, os, arch, ext, checksum])))))))"

text \<open>Each piece of the parser finds exactly the words of its expression, in the only possible place.\<close>

lemma star_class: "star {[c] | c. p c} = {w. list_all p w}"
proof (intro set_eqI iffI; simp)
  fix w
  show "w \<in> star {[c] | c. p c} \<Longrightarrow> list_all p w" by (induction rule: star.induct) auto
  show "list_all p w \<Longrightarrow> w \<in> star {[c] | c. p c}"
  proof (induction w)
    case (Cons c w)
    then show ?case using star.star_app [of "[c]" "{[c] | c. p c}" w] by simp
  qed (simp add: star.star_nil)
qed

lemma lang_rplus_class: "lang (rplus (RCls p)) = {w. w \<noteq> [] \<and> list_all p w}"
proof (intro set_eqI)
  fix w
  show "w \<in> lang (rplus (RCls p)) \<longleftrightarrow> w \<in> {w. w \<noteq> [] \<and> list_all p w}"
    unfolding rplus_def lang_seq_cls by (cases w) (simp_all add: star_class)
qed

lemma expect_Some: "expect lit s = Some t \<longleftrightarrow> s = lit @ t"
  by (auto simp: expect_def has_prefix_iff)

lemma run_of_Some:
  "run_of p s = Some (w, t) \<longleftrightarrow> s = w @ t \<and> w \<in> lang (rplus (RCls p)) \<and> (t = [] \<or> \<not> p (hd t))"
  (is "?l \<longleftrightarrow> ?r")
proof
  assume ?l
  then have "w = takeWhile p s" "t = dropWhile p s" "w \<noteq> []" by (auto simp: run_of_def split: if_splits)
  then show ?r
    using hd_dropWhile [of p s] by (auto simp: lang_rplus_class list_all_iff dest: set_takeWhileD)
next
  assume r: ?r
  then have "takeWhile p s = w \<and> dropWhile p s = t"
    by (cases t) (auto simp: lang_rplus_class list_all_iff takeWhile_append dropWhile_append)
  with r show ?l by (simp add: run_of_def lang_rplus_class)
qed

lemma lang_seqI: "u \<in> lang r \<Longrightarrow> v \<in> lang s \<Longrightarrow> u @ v \<in> lang (RSeq r s)"
  by auto

lemma lang_version:
  "v \<in> lang release_version \<longleftrightarrow>
     (\<exists>a b c. v = a @ ''.'' @ b @ ''.'' @ c \<and> a \<in> lang release_digits \<and> b \<in> lang release_digits \<and> c \<in> lang release_digits)"
  (is "?l \<longleftrightarrow> ?r")
proof
  show "?l \<Longrightarrow> ?r" by (auto simp: release_version_def)
  assume ?r
  then obtain a b c where "v = a @ ''.'' @ b @ ''.'' @ c" "a \<in> lang release_digits" "b \<in> lang release_digits"
      "c \<in> lang release_digits"
    by blast
  then show ?l unfolding release_version_def by (simp only:) (intro lang_seqI; simp)
qed

lemma run_of_append:
  "w \<in> lang (rplus (RCls p)) \<Longrightarrow> t = [] \<or> \<not> p (hd t) \<Longrightarrow> run_of p (w @ t) = Some (w, t)"
  by (simp add: run_of_Some)

lemma expect_append: "expect lit (lit @ t) = Some t"
  by (simp add: expect_Some)

lemma release_separators:
  "\<not> is_digit CHR ''.''" "\<not> is_digit CHR ''-''" "\<not> release_char CHR ''.''" "\<not> release_char CHR ''-''"
  by (simp_all add: release_char_def is_lower_def is_digit_def in_range_def)

lemmas piece_simps = run_of_append expect_append [of "''.''", simplified] expect_append [of "''-''", simplified]
  expect_append [of "''contain-v''", simplified] release_separators

lemma version_of_Some:
  "version_of s = Some (v, t) \<longleftrightarrow>
     s = v @ t \<and> v \<in> lang release_version \<and> (t = [] \<or> \<not> is_digit (hd t))"
  (is "?l \<longleftrightarrow> ?r")
proof
  assume ?l
  then show ?r
    unfolding lang_version
    by (auto simp: version_of_def Option.bind_eq_Some_conv run_of_Some expect_Some release_digits_def)
next
  assume r: ?r
  then obtain a b c where "v = a @ ''.'' @ b @ ''.'' @ c" "a \<in> lang release_digits"
      "b \<in> lang release_digits" "c \<in> lang release_digits"
    by (auto simp: lang_version)
  with r show ?l by (simp add: version_of_def release_digits_def piece_simps)
qed

lemma lang_checksum:
  "lang release_checksum = insert '''' {CHR ''.'' # w | w. w \<noteq> [] \<and> list_all release_char w}"
  by (auto simp: release_checksum_def release_word_def lang_rplus_class)

lemma lang_ext: "lang release_ext = {'''', ''.exe''}"
  by (auto simp: release_ext_def)

lemma checksum_of_Some: "checksum_of s = Some k \<longleftrightarrow> k = s \<and> s \<in> lang release_checksum"
  by (auto simp: checksum_of_def lang_checksum split: list.split)

lemma endings_exe:
  "k \<in> lang release_checksum \<Longrightarrow> endings_of (''.exe'' @ k) = Some (''.exe'', k)"
  unfolding endings_of_def expect_append using checksum_of_Some [of k k] by simp

lemma endings_no_exe:
  assumes "k \<in> lang release_checksum" and "k \<noteq> ''.exe''"
  shows "endings_of k = Some ('''', k)"
proof (cases "expect ''.exe'' k")
  case None
  with assms show ?thesis by (simp add: endings_of_def checksum_of_Some)
next
  case (Some t)
  then have "k = ''.exe'' @ t" by (simp only: expect_Some)
  with assms have "list_all release_char t" "t \<noteq> ''''" by (auto simp: lang_checksum)
  then have "checksum_of t = None"
    using release_separators(3) by (auto simp: checksum_of_def split: list.split)
  with Some assms show ?thesis by (simp add: endings_of_def checksum_of_Some)
qed

lemma endings_of_Some:
  "endings_of s = Some (e, k) \<longleftrightarrow>
     s = e @ k \<and> e \<in> lang release_ext \<and> k \<in> lang release_checksum \<and> (e, k) \<noteq> ('''', ''.exe'')"
  (is "?l \<longleftrightarrow> ?r")
proof
  assume l: ?l
  show ?r
  proof (cases "Option.bind (expect ''.exe'' s) checksum_of")
    case None
    with l have "e = ''''" "k = s" "k \<in> lang release_checksum" by (auto simp: endings_of_def checksum_of_Some)
    moreover from this None have "k \<noteq> ''.exe''" using endings_exe [of "''''"] l by (auto simp: lang_checksum)
    ultimately show ?thesis by (simp add: lang_ext)
  next
    case (Some k')
    with l have "e = ''.exe''" "k' = k" by (simp_all add: endings_of_def)
    moreover from Some have "s = ''.exe'' @ k'" "k' \<in> lang release_checksum"
      unfolding Option.bind_eq_Some_conv expect_Some checksum_of_Some by auto
    ultimately show ?thesis by (simp add: lang_ext)
  qed
next
  assume r: ?r
  then consider "e = ''.exe''" | "e = ''''" "k \<noteq> ''.exe''" by (auto simp: lang_ext)
  then show ?l using r endings_exe endings_no_exe by cases auto
qed

text \<open>The groups of a match.\<close>

definition release_groups :: "string \<Rightarrow> string list \<Rightarrow> bool" where
  "release_groups name m \<longleftrightarrow>
     (\<exists>version os arch ext checksum. m = [name, version, os, arch, ext, checksum]
        \<and> name = ''contain-v'' @ version @ ''-'' @ os @ ''-'' @ arch @ ext @ checksum
        \<and> version \<in> lang release_version \<and> os \<in> lang release_word \<and> arch \<in> lang release_word
        \<and> ext \<in> lang release_ext \<and> checksum \<in> lang release_checksum \<and> (ext, checksum) \<noteq> ('''', ''.exe''))"

lemma FindStringSubmatch_groups: "FindStringSubmatch name = Some m \<longleftrightarrow> release_groups name m"
proof
  assume "FindStringSubmatch name = Some m"
  then show "release_groups name m"
    unfolding release_groups_def FindStringSubmatch_def release_word_def
    by (auto simp: Option.bind_eq_Some_conv run_of_Some version_of_Some expect_Some endings_of_Some)
next
  assume "release_groups name m"
  then obtain version os arch ext checksum where m: "m = [name, version, os, arch, ext, checksum]"
      "name = ''contain-v'' @ version @ ''-'' @ os @ ''-'' @ arch @ ext @ checksum"
    and w: "version \<in> lang release_version" "os \<in> lang (rplus (RCls release_char))"
      "arch \<in> lang (rplus (RCls release_char))"
    and e: "ext \<in> lang release_ext" "checksum \<in> lang release_checksum" "(ext, checksum) \<noteq> ('''', ''.exe'')"
    by (auto simp: release_groups_def release_word_def)
  have "ext @ checksum = [] \<or> \<not> release_char (hd (ext @ checksum))"
    using e release_separators by (auto simp: lang_ext lang_checksum)
  then have "run_of release_char (arch @ ext @ checksum) = Some (arch, ext @ checksum)"
    using w by (intro run_of_append) simp_all
  moreover have "endings_of (ext @ checksum) = Some (ext, checksum)" using e by (simp add: endings_of_Some)
  moreover have "version_of (version @ ''-'' @ t) = Some (version, ''-'' @ t)" for t
    using w release_separators by (simp add: version_of_Some)
  ultimately show "FindStringSubmatch name = Some m"
    using w by (simp add: FindStringSubmatch_def m piece_simps)
qed

section \<open>The world of the script\<close>

record ParentPackage =
  pp_name :: string
  pp_version :: string
  pp_homepage :: string
  pp_licence :: string

record BinPackage =
  bp_name :: string
  bp_version :: string
  bp_description :: string
  bp_homepage :: string
  bp_repository :: string
  bp_licence :: string
  bp_bin :: "(string \<times> string) list"
  bp_os :: "OS list"
  bp_cpu :: "CPU list"

record asset =
  as_name :: string
  as_url :: string

record repo_release =
  rl_tag :: string
  rl_assets :: "asset list"

datatype node = NDir | NFile bytes "32 word"

type_synonym rdisk = "(string \<times> node) list"

datatype disk_call =
    MkdirC string
  | ReadDirC string
  | RemoveC string
  | WriteC string
  | CreateC string
  | CopyC string
  | ChmodC string

text \<open>
  \<open>re_fail d c\<close> is the error of the call \<open>c\<close> on the disk \<open>d\<close>, if it fails, and how far it came;
  \<open>re_get\<close> is the body of an answer as far as it arrived and the error that ended it, whatever its status.
\<close>

record release_env =
  re_parent :: "string + bytes"  \<comment> \<open>\<open>package.json\<close>\<close>
  re_unmarshal :: "bytes \<Rightarrow> string + ParentPackage"
  re_client :: "string option"
  re_repository :: "string option"
  re_tags :: "string + string list"
  re_releases :: "string + repo_release list"
  re_getwd :: "string + string"
  re_get :: "string \<Rightarrow> string + bytes \<times> string option"
  re_marshal :: "json \<Rightarrow> string + bytes"
  re_umask :: "32 word"
  re_fail :: "rdisk \<Rightarrow> disk_call \<Rightarrow> (string \<times> nat) option"

type_synonym rstep = "rdisk \<Rightarrow> (stop + unit) \<times> rdisk"

section \<open>The package of a file\<close>

definition OS_MarshalJSON :: "OS \<Rightarrow> stop + json" where
  "OS_MarshalJSON os = (case OS_String os of Inl e \<Rightarrow> Inl e | Inr n \<Rightarrow> Inr (JStr n))"

definition CPU_MarshalJSON :: "CPU \<Rightarrow> stop + json" where
  "CPU_MarshalJSON c = (case CPU_String c of Inl e \<Rightarrow> Inl e | Inr n \<Rightarrow> Inr (JStr n))"

fun marshal_all :: "('a \<Rightarrow> stop + json) \<Rightarrow> 'a list \<Rightarrow> stop + json list" where
  "marshal_all f [] = Inr []"
| "marshal_all f (x # xs) =
     (case f x of
        Inl e \<Rightarrow> Inl e
      | Inr j \<Rightarrow> (case marshal_all f xs of Inl e \<Rightarrow> Inl e | Inr js \<Rightarrow> Inr (j # js)))"

text \<open>The value that is marshalled: the tags of \<open>BinPackage\<close>, \<open>omitempty\<close> included; map keys are sorted.\<close>

definition omit_empty :: "string \<Rightarrow> string \<Rightarrow> (string \<times> json) list" where
  "omit_empty key value = (if value = '''' then [] else [(key, JStr value)])"

definition BinPackage_json :: "BinPackage \<Rightarrow> stop + json" where
  "BinPackage_json p =
     (case marshal_all OS_MarshalJSON (bp_os p) of
        Inl e \<Rightarrow> Inl e
      | Inr os \<Rightarrow>
         (case marshal_all CPU_MarshalJSON (bp_cpu p) of
            Inl e \<Rightarrow> Inl e
          | Inr cpu \<Rightarrow>
              Inr (JObj ([(''name'', JStr (bp_name p)), (''version'', JStr (bp_version p))]
                @ omit_empty ''description'' (bp_description p) @ omit_empty ''homepage'' (bp_homepage p)
                @ omit_empty ''repository'' (bp_repository p) @ omit_empty ''license'' (bp_licence p)
                @ [(''bin'', JObj (map (\<lambda>(k, v). (k, JStr v)) (sort_key fst (bp_bin p)))),
                   (''os'', JArr os), (''cpu'', JArr cpu)]))))"

text \<open>From the groups of a match to the package and the key of its only binary.\<close>

definition platform_package :: "ParentPackage \<Rightarrow> string list \<Rightarrow> stop + BinPackage \<times> string" where
  "platform_package parent m =
     (case NewOs (m ! 2) of
        Inl e \<Rightarrow> Inl e
      | Inr o' \<Rightarrow>
     (case NewCPU (m ! 3) of
        Inl e \<Rightarrow> Inl e
      | Inr cpu \<Rightarrow>
     (case OS_String o' of
        Inl e \<Rightarrow> Inl e
      | Inr os_s \<Rightarrow>
     (case CPU_String cpu of
        Inl e \<Rightarrow> Inl e
      | Inr cpu_s \<Rightarrow>
          let exename = ''contain'';
              binname = exename @ ''-'' @ os_s @ ''-'' @ cpu_s;
              (exename, binname) =
                (if os_s = ''win32'' then (exename @ ''.exe'', binname @ ''.exe'') else (exename, binname))
          in Inr (\<lparr>bp_name = ''contain-'' @ os_s @ ''-'' @ cpu_s, bp_version = m ! 1,
               bp_description =
                 ''Platform specific ('' @ os_s @ ''-'' @ cpu_s @ '') binary package for '' @ pp_name parent,
               bp_homepage = pp_homepage parent, bp_repository = '''', bp_licence = pp_licence parent,
               bp_bin = [(binname, ''bin/'' @ exename)], bp_os = [o'], bp_cpu = [cpu]\<rparr>, binname)))))"

section \<open>The disk\<close>

text \<open>The directory of a path, its parents first.\<close>

definition ancestors :: "string \<Rightarrow> string list" where
  "ancestors p = map (\<lambda>i. take i p) (filter (\<lambda>i. p ! i = CHR ''/'') [1..<length p]) @ [p]"

definition child_name :: "string \<Rightarrow> string \<Rightarrow> string option" where
  "child_name dir p =
     (if has_prefix p (dir @ ''/'') \<and> plain_seg (drop (length dir + 1) p)
      then Some (drop (length dir + 1) p) else None)"

text \<open>\<open>os.ReadDir\<close>: the names in a directory, sorted.\<close>

definition children :: "rdisk \<Rightarrow> string \<Rightarrow> string list" where
  "children d dir = sort (remdups (List.map_filter (child_name dir) (map fst d)))"

definition make_dirs :: "string list \<Rightarrow> rdisk \<Rightarrow> rdisk" where
  "make_dirs ps d = foldl (\<lambda>d p. AList.update p NDir d) d ps"

fun is_file :: "node option \<Rightarrow> bool" where
  "is_file (Some (NFile _ _)) = True"
| "is_file _ = False"

definition MkdirAll :: "release_env \<Rightarrow> string \<Rightarrow> rstep" where
  "MkdirAll E p d =
     (let missing = filter (\<lambda>a. map_of d a = None) (ancestors p) in
      if list_ex (\<lambda>a. is_file (map_of d a)) (ancestors p) then (Inl (Exit ''package dir''), d)
      else case re_fail E d (MkdirC p) of
        Some (e, n) \<Rightarrow> (Inl (Exit ''package dir''), make_dirs (take n missing) d)
      | None \<Rightarrow> (Inr (), make_dirs missing d))"

text \<open>\<open>os.Remove\<close> refuses a directory that is not empty.\<close>

definition remove_entry :: "release_env \<Rightarrow> string \<Rightarrow> string \<Rightarrow> rstep" where
  "remove_entry E dir name d =
     (let p = path_join [dir, name] in
      if map_of d p = Some NDir \<and> children d p \<noteq> [] \<or> re_fail E d (RemoveC p) \<noteq> None
      then (Inl (Exit ''remove existing''), d)
      else (Inr (), AList.delete p d))"

definition clear_dir :: "release_env \<Rightarrow> string \<Rightarrow> rstep" where
  "clear_dir E dir d =
     (if map_of d dir \<noteq> Some NDir \<or> re_fail E d (ReadDirC dir) \<noteq> None
      then (Inl (Exit ''list existing''), d)
      else for_each (remove_entry E dir) (children d dir) d)"

text \<open>Opening for writing with truncation; a file that exists keeps its mode. \<open>None\<close> is an error.\<close>

definition open_trunc :: "32 word \<Rightarrow> string \<Rightarrow> rdisk \<Rightarrow> rdisk option" where
  "open_trunc perm p d =
     (case map_of d p of
        Some NDir \<Rightarrow> None
      | Some (NFile _ m) \<Rightarrow> Some (AList.update p (NFile [] m) d)
      | None \<Rightarrow>
          if map_of d (path_dir p) = Some NDir then Some (AList.update p (NFile [] perm) d) else None)"

definition set_data :: "string \<Rightarrow> bytes \<Rightarrow> rdisk \<Rightarrow> rdisk" where
  "set_data p data d =
     (case map_of d p of Some (NFile _ m) \<Rightarrow> AList.update p (NFile data m) d | _ \<Rightarrow> d)"

definition set_mode :: "string \<Rightarrow> 32 word \<Rightarrow> rdisk \<Rightarrow> rdisk" where
  "set_mode p mode d =
     (case map_of d p of Some (NFile data _) \<Rightarrow> AList.update p (NFile data mode) d | _ \<Rightarrow> d)"

unbundle bit_operations_syntax

definition masked :: "release_env \<Rightarrow> 32 word \<Rightarrow> 32 word" where
  "masked E perm = perm AND NOT (re_umask E)"

text \<open>\<open>os.WriteFile(p, j, 0644)\<close>: it can fail before the file is open or after some of the bytes.\<close>

definition WriteFile :: "release_env \<Rightarrow> string \<Rightarrow> bytes \<Rightarrow> rstep" where
  "WriteFile E p data d =
     (case open_trunc (masked E 420) p d of
        None \<Rightarrow> (Inl (Exit ''write package.json''), d)
      | Some opened \<Rightarrow>
         (case re_fail E d (WriteC p) of
            Some (e, 0) \<Rightarrow> (Inl (Exit ''write package.json''), d)
          | Some (e, Suc n) \<Rightarrow> (Inl (Exit ''write package.json''), set_data p (take n data) opened)
          | None \<Rightarrow> (Inr (), set_data p data opened)))"

definition Create :: "release_env \<Rightarrow> string \<Rightarrow> rstep" where
  "Create E p d =
     (case open_trunc (masked E 438) p d of
        None \<Rightarrow> (Inl (Exit ''create download target''), d)
      | Some opened \<Rightarrow>
          if re_fail E d (CreateC p) \<noteq> None then (Inl (Exit ''create download target''), d)
          else (Inr (), opened))"

text \<open>\<open>http.Get\<close> and \<open>io.Copy\<close> to the open file. The status of the answer is not looked at.\<close>

definition download :: "release_env \<Rightarrow> string \<Rightarrow> string \<Rightarrow> rstep" where
  "download E url p d =
     (case re_get E url of
        Inl e \<Rightarrow> (Inl (Exit ''download''), d)
      | Inr (body, broken) \<Rightarrow>
         (case re_fail E d (CopyC p) of
            Some (e, n) \<Rightarrow> (Inl (Exit ''download body''), set_data p (take n body) d)
          | None \<Rightarrow>
              ((case broken of Some e \<Rightarrow> Inl (Exit ''download body'') | None \<Rightarrow> Inr ()), set_data p body d)))"

definition Chmod :: "release_env \<Rightarrow> string \<Rightarrow> rstep" where
  "Chmod E p d =
     (if re_fail E d (ChmodC p) \<noteq> None then (Inl (Exit ''bin chmod''), d)
      else (Inr (), set_mode p 493 d))"

section \<open>main\<close>

definition write_package_json :: "release_env \<Rightarrow> string \<Rightarrow> BinPackage \<Rightarrow> rstep" where
  "write_package_json E dir p d =
     (case BinPackage_json p of
        Inl e \<Rightarrow> (Inl e, d)
      | Inr j \<Rightarrow>
         (case re_marshal E j of
            Inl e \<Rightarrow> (Inl (Exit ''marshal package.json''), d)
          | Inr b \<Rightarrow> WriteFile E (path_join [dir, ''package.json'']) b d))"

text \<open>The body of the loop for a file that is published; the steps in the order of the code.\<close>

definition package_steps :: "release_env \<Rightarrow> string \<Rightarrow> BinPackage \<Rightarrow> string \<Rightarrow> asset \<Rightarrow> rstep list" where
  "package_steps E npm p binname a =
     (let dir = path_join [npm, bp_name p];
          bindir = path_join [dir, ''bin''];
          bin = path_join [dir, (case map_of (bp_bin p) binname of None \<Rightarrow> '''' | Some f \<Rightarrow> f)]
      in [MkdirAll E bindir, clear_dir E bindir, write_package_json E dir p, Create E bin,
          download E (as_url a) bin, Chmod E bin])"

definition publish_line :: "BinPackage \<Rightarrow> string" where
  "publish_line p = ''(cd npm/'' @ bp_name p @ ''; npm publish --access public)''"

definition publish_asset ::
  "release_env \<Rightarrow> ParentPackage \<Rightarrow> string \<Rightarrow> asset \<Rightarrow> rdisk \<Rightarrow> (stop + string list) \<times> rdisk" where
  "publish_asset E parent npm a d =
     (case FindStringSubmatch (as_name a) of
        None \<Rightarrow> (Inr [], d)
      | Some m \<Rightarrow>
          if m ! 5 \<noteq> '''' then (Inr [], d)
          else
           (case platform_package parent m of
              Inl e \<Rightarrow> (Inl e, d)
            | Inr (p, binname) \<Rightarrow>
               (case for_each (\<lambda>step d. step d) (package_steps E npm p binname a) d of
                  (Inl e, d1) \<Rightarrow> (Inl e, d1)
                | (Inr _, d1) \<Rightarrow> (Inr [publish_line p], d1))))"

fun publish_assets ::
  "release_env \<Rightarrow> ParentPackage \<Rightarrow> string \<Rightarrow> asset list \<Rightarrow> rdisk \<Rightarrow> (stop + string list) \<times> rdisk" where
  "publish_assets E parent npm [] d = (Inr [], d)"
| "publish_assets E parent npm (a # as) d =
     (case publish_asset E parent npm a d of
        (Inl e, d1) \<Rightarrow> (Inl e, d1)
      | (Inr work, d1) \<Rightarrow>
         (case publish_assets E parent npm as d1 of
            (Inl e, d2) \<Rightarrow> (Inl e, d2)
          | (Inr rest, d2) \<Rightarrow> (Inr (work @ rest), d2)))"

text \<open>\<open>releaseFromTag\<close> never returns.\<close>

definition releaseFromTag :: "string \<Rightarrow> stop + repo_release" where
  "releaseFromTag tag = Inl (Exit ''TODO publish manually'')"

definition choose_release :: "release_env \<Rightarrow> string \<Rightarrow> stop + repo_release" where
  "choose_release E publishVersion =
     (case re_client E of
        Some e \<Rightarrow> Inl (Exit ''github client'')
      | None \<Rightarrow>
     (case re_repository E of
        Some e \<Rightarrow> Inl (Exit ''repository access'')
      | None \<Rightarrow>
     (case re_tags E of
        Inl e \<Rightarrow> Inl (Exit ''tags access'')
      | Inr tags \<Rightarrow>
          let publishTagName = ''v'' @ publishVersion;
              found = filter (\<lambda>t. t = publishTagName) tags in
          if found = [] then Inl (Exit ''tag not found'')
          else
           (case re_releases E of
              Inl e \<Rightarrow> Inl (Exit ''releases access'')
            | Inr releases \<Rightarrow>
                let released = filter (\<lambda>r. rl_tag r = last found) releases in
                if released = [] then releaseFromTag (last found) else Inr (last released)))))"

definition read_parent :: "release_env \<Rightarrow> stop + ParentPackage" where
  "read_parent E =
     (case re_parent E of
        Inl e \<Rightarrow> Inl (Exit ''read package.json'')
      | Inr b \<Rightarrow>
         (case re_unmarshal E b of
            Inl e \<Rightarrow> Inl (Exit ''unmarshal package.json'')
          | Inr parent \<Rightarrow>
              if pp_version parent = '''' then Inl (Exit ''package.json has no version'') else Inr parent))"

text \<open>What is printed, and the disk.\<close>

definition release_main :: "release_env \<Rightarrow> rdisk \<Rightarrow> (stop + string) \<times> rdisk" where
  "release_main E d =
     (case read_parent E of
        Inl e \<Rightarrow> (Inl e, d)
      | Inr parent \<Rightarrow>
     (case choose_release E (pp_version parent) of
        Inl e \<Rightarrow> (Inl e, d)
      | Inr rel \<Rightarrow>
     (case re_getwd E of
        Inl e \<Rightarrow> (Inl (Exit ''parent dir''), d)
      | Inr cwd \<Rightarrow>
     (case publish_assets E parent (path_abs cwd ''npm'') (rl_assets rel) d of
        (Inl e, d1) \<Rightarrow> (Inl e, d1)
      | (Inr work, d1) \<Rightarrow>
          (Inr (str_join (work @ [''npm publish --access public'']) [CHR 10] @ [CHR 10]), d1)))))"

section \<open>Names\<close>

text \<open>
  The files that are published are exactly those whose names match the expression. The groups of a
  match put the name together again, and an ending \<open>.exe\<close> is the extension, not a checksum.
\<close>

theorem release_names_exact:
  "(FindStringSubmatch name = Some m \<longleftrightarrow> release_groups name m)
   \<and> (rmatch releaseBinaryName name \<longleftrightarrow> FindStringSubmatch name \<noteq> None)"
proof (intro conjI)
  show "FindStringSubmatch name = Some m \<longleftrightarrow> release_groups name m" by (rule FindStringSubmatch_groups)
  have "name \<in> lang releaseBinaryName \<longleftrightarrow> (\<exists>m. release_groups name m)"
  proof
    assume "name \<in> lang releaseBinaryName"
    then obtain version os arch ext checksum
      where n: "name = ''contain-v'' @ version @ ''-'' @ os @ ''-'' @ arch @ ext @ checksum"
      and w: "version \<in> lang release_version" "os \<in> lang release_word" "arch \<in> lang release_word"
      and e: "ext \<in> lang release_ext" "checksum \<in> lang release_checksum"
      by (auto simp: releaseBinaryName_def)
    obtain ext' checksum' where e': "ext' @ checksum' = ext @ checksum" "ext' \<in> lang release_ext"
        "checksum' \<in> lang release_checksum" "(ext', checksum') \<noteq> ('''', ''.exe'')"
      using that [of "''.exe''" "''''"] that [of ext checksum] e
      by (cases "(ext, checksum) = ('''', ''.exe'')") (auto simp: lang_ext lang_checksum)
    with n w show "\<exists>m. release_groups name m" unfolding release_groups_def by metis
  next
    assume "\<exists>m. release_groups name m"
    then show "name \<in> lang releaseBinaryName"
      unfolding release_groups_def releaseBinaryName_def
      by (elim exE conjE) (simp only:, intro lang_seqI; simp)
  qed
  then show "rmatch releaseBinaryName name \<longleftrightarrow> FindStringSubmatch name \<noteq> None"
    by (simp add: rmatch_lang flip: FindStringSubmatch_groups)
qed

text \<open>A file name with an extension is told from the checksum beside it.\<close>

lemma release_names_examples:
  "FindStringSubmatch ''contain-v1.10.0-windows-amd64.exe''
     = Some [''contain-v1.10.0-windows-amd64.exe'', ''1.10.0'', ''windows'', ''amd64'', ''.exe'', '''']"
  "FindStringSubmatch ''contain-v1.10.0-linux-arm64.sha256''
     = Some [''contain-v1.10.0-linux-arm64.sha256'', ''1.10.0'', ''linux'', ''arm64'', '''', ''.sha256'']"
  "FindStringSubmatch ''contain-v1.10-linux-arm64'' = None"
  by code_simp+

section \<open>Paths\<close>

definition rooted :: "string \<Rightarrow> bool" where
  "rooted p \<longleftrightarrow> (\<exists>segs. segs \<noteq> [] \<and> list_all plain_seg segs \<and> p = ''/'' @ str_join segs ''/'')"

lemma str_join_append:
  "xs \<noteq> [] \<Longrightarrow> ys \<noteq> [] \<Longrightarrow> str_join (xs @ ys) sep = str_join xs sep @ sep @ str_join ys sep"
  by (induction xs sep rule: str_join.induct) (auto simp: neq_Nil_conv)

lemma rooted_join:
  assumes "rooted p" and "list_all plain_seg ns" and "ns \<noteq> []"
  shows "path_join [p, str_join ns ''/''] = p @ ''/'' @ str_join ns ''/''"
    and "rooted (p @ ''/'' @ str_join ns ''/'')"
proof -
  obtain segs where segs: "segs \<noteq> []" "list_all plain_seg segs" "p = ''/'' @ str_join segs ''/''"
    using assms(1) by (auto simp: rooted_def)
  have slash: "CHR ''/'' \<notin> set x" if "x \<in> set segs \<or> x \<in> set ns" for x
    using that segs(2) assms(2) by (auto simp: plain_seg_def list_all_iff)
  have ne: "str_join ns ''/'' \<noteq> []"
    using assms(2,3) by (intro str_join_ne_Nil) (auto simp: plain_seg_def neq_Nil_conv)
  have "split_on CHR ''/'' (p @ ''/'' @ str_join ns ''/'') = '''' # segs @ ns"
    using slash segs assms(3) by (simp add: split_on_append_sep split_on_join)
  moreover have "clean_segs True ('''' # segs @ ns) = segs @ ns"
    using clean_segs_plain [of "segs @ ns" True] segs(2) assms(2)
    by (simp add: clean_segs_def clean_step_def)
  moreover have joined: "str_join (segs @ ns) ''/'' = str_join segs ''/'' @ ''/'' @ str_join ns ''/''"
    using segs(1) assms(3) by (rule str_join_append)
  ultimately have "path_clean (p @ ''/'' @ str_join ns ''/'') = p @ ''/'' @ str_join ns ''/''"
    using segs(3) by (simp add: path_clean_def is_abs_def has_prefix_def Let_def)
  then show "path_join [p, str_join ns ''/''] = p @ ''/'' @ str_join ns ''/''"
    using segs(3) ne by (simp add: path_join_def)
  show "rooted (p @ ''/'' @ str_join ns ''/'')"
    unfolding rooted_def by (rule exI [of _ "segs @ ns"]) (use segs assms joined in simp)
qed

lemma rooted_join1:
  assumes "rooted p" and "plain_seg n"
  shows "path_join [p, n] = p @ ''/'' @ n" and "rooted (p @ ''/'' @ n)"
  using rooted_join [OF assms(1), of "[n]"] assms(2) by simp_all

lemma rooted_abs:
  assumes "is_abs cwd"
  shows "rooted (path_abs cwd ''npm'')"
proof (rule clean_segs_shape [of True cwd])
  fix k names
  assume segs: "clean_segs True (split_on CHR ''/'' cwd) = replicate k ''..'' @ names"
    and names: "list_all plain_seg names" and k: "True \<Longrightarrow> k = 0"
  have npm: "plain_seg ''npm''" by (simp add: plain_seg_def)
  have "split_on CHR ''/'' (cwd @ ''/npm'') = split_on CHR ''/'' cwd @ [''npm'']"
    using split_on_append_sep [of "CHR ''/''" cwd "''npm''"] by simp
  then have "clean_segs True (split_on CHR ''/'' (cwd @ ''/npm'')) = names @ [''npm'']"
    using clean_segs_append [of "[''npm'']"] npm segs k by simp
  moreover have "is_abs (cwd @ ''/npm'')" "cwd \<noteq> ''''" using assms by (auto simp: is_abs_def has_prefix_iff)
  ultimately have "path_abs cwd ''npm'' = ''/'' @ str_join (names @ [''npm'']) ''/''"
    by (simp add: path_abs_def path_join_def path_clean_def is_abs_def has_prefix_def Let_def)
  then show ?thesis unfolding rooted_def using names npm by (intro exI [of _ "names @ [''npm'']"]) simp
qed

section \<open>What the steps leave alone\<close>

definition package_names :: "string list" where
  "package_names = concat (map (\<lambda>o'. map (\<lambda>c. ''contain-'' @ o' @ ''-'' @ c) cpu_names) os_names)"

definition exe_name :: "string \<Rightarrow> string" where
  "exe_name package = (if has_prefix package ''contain-win32-'' then ''contain.exe'' else ''contain'')"

lemma platform_package_Some:
  assumes "platform_package parent m = Inr (p, b)"
  shows "bp_name p \<in> set package_names \<and> map_of (bp_bin p) b = Some (''bin/'' @ exe_name (bp_name p))
    \<and> bp_version p = m ! 1"
  using assms
  by (auto simp: platform_package_def NewOs_def NewCPU_def OS_String_def CPU_String_def platform_defs package_names_def
      os_names_def cpu_names_def exe_name_def has_prefix_def Let_def split: if_splits)

lemma plain_names: "n \<in> set package_names \<Longrightarrow> plain_seg n" "plain_seg (exe_name n)" "plain_seg ''bin''"
    "plain_seg ''package.json''"
  by (auto simp: package_names_def os_names_def cpu_names_def exe_name_def plain_seg_def)

text \<open>
  Of what is there, a package changes its \<open>package.json\<close> and what is in its \<open>bin\<close>; besides, it makes the
  directories that are missing on the way.
\<close>

definition untouched :: "string \<Rightarrow> string \<Rightarrow> bool" where
  "untouched D q \<longleftrightarrow> q \<noteq> D @ ''/package.json'' \<and> \<not> has_prefix q (D @ ''/bin/'')"

definition spares :: "string \<Rightarrow> rdisk \<Rightarrow> rdisk \<Rightarrow> bool" where
  "spares D d d' \<longleftrightarrow>
     (\<forall>q. untouched D q \<longrightarrow>
        map_of d' q = map_of d q
        \<or> map_of d q = None \<and> map_of d' q = Some NDir \<and> q \<in> set (ancestors (D @ ''/bin'')))"

lemma spares_refl [simp, intro]: "spares D d d"
  by (simp add: spares_def)

lemma spares_trans: "spares D d d1 \<Longrightarrow> spares D d1 d2 \<Longrightarrow> spares D d d2"
  unfolding spares_def by (metis option.distinct(1))

lemma spares_update: "\<not> untouched D p \<Longrightarrow> spares D d (AList.update p n d)"
  by (auto simp: spares_def AList.update_conv)

lemma spares_delete: "\<not> untouched D p \<Longrightarrow> spares D d (AList.delete p d)"
  by (auto simp: spares_def AList.delete_conv)

lemma touched [simp]:
  "\<not> untouched D (D @ ''/package.json'')" "\<not> untouched D (D @ ''/bin/'' @ n)"
  using has_prefix_append [of "D @ ''/bin/''" n] by (simp_all add: untouched_def)

lemma make_dirs_conv: "map_of (make_dirs ps d) q = (if q \<in> set ps then Some NDir else map_of d q)"
proof -
  have "map_of (foldl (\<lambda>d p. AList.update p NDir d) d ps) q = (if q \<in> set ps then Some NDir else map_of d q)"
    by (induction ps arbitrary: d) (auto simp: AList.update_conv)
  then show ?thesis by (simp add: make_dirs_def)
qed

lemma MkdirAll_spares: "MkdirAll E (D @ ''/bin'') d = (r, d') \<Longrightarrow> spares D d d'"
  by (auto simp: MkdirAll_def spares_def make_dirs_conv Let_def dest!: in_set_takeD split: if_splits option.splits)

lemma child_name_Some: "child_name dir p = Some n \<longleftrightarrow> p = dir @ ''/'' @ n \<and> plain_seg n"
  by (auto simp: child_name_def has_prefix_iff)

lemma children_iff: "n \<in> set (children d dir) \<longleftrightarrow> plain_seg n \<and> map_of d (dir @ ''/'' @ n) \<noteq> None"
proof -
  have "n \<in> set (children d dir) \<longleftrightarrow> (\<exists>p \<in> set (map fst d). child_name dir p = Some n)"
    by (force simp: children_def List.map_filter_def)
  also have "\<dots> \<longleftrightarrow> plain_seg n \<and> map_of d (dir @ ''/'' @ n) \<noteq> None"
    by (auto simp: child_name_Some map_of_eq_None_iff)
  finally show ?thesis .
qed

lemma remove_entry_spares:
  assumes "rooted D" and "remove_entry E (D @ ''/bin'') n d = (r, d')" and "plain_seg n"
  shows "spares D d d'"
proof -
  have "rooted (D @ ''/bin'')" using rooted_join1 [OF assms(1) plain_names(3)] by simp
  then have p: "path_join [D @ ''/bin'', n] = D @ ''/bin/'' @ n"
    using rooted_join1 [OF _ assms(3)] by simp
  have "d' = d \<or> d' = AList.delete (D @ ''/bin/'' @ n) d"
    using assms(2) unfolding remove_entry_def p by (auto simp: Let_def split: if_splits)
  then show ?thesis using spares_delete [OF touched(2)] by blast
qed

lemma clear_dir_spares:
  assumes "rooted D" and "clear_dir E (D @ ''/bin'') d = (r, d')"
  shows "spares D d d'"
proof (cases "map_of d (D @ ''/bin'') \<noteq> Some NDir \<or> re_fail E d (ReadDirC (D @ ''/bin'')) \<noteq> None")
  case True
  with assms(2) show ?thesis by (auto simp: clear_dir_def)
next
  case False
  with assms(2) have "for_each (remove_entry E (D @ ''/bin'')) (children d (D @ ''/bin'')) d = (r, d')"
    by (simp add: clear_dir_def)
  then show ?thesis
  proof (rule for_each_invariant [where I = "spares D d", rotated 2])
    show "spares D d s'"
      if "x \<in> set (children d (D @ ''/bin''))" "spares D d s" "remove_entry E (D @ ''/bin'') x s = (r, s')" for x s r s'
      using that spares_trans remove_entry_spares [OF assms(1)] by (meson children_iff)
  qed simp
qed

lemma file_steps_keep:
  assumes "\<not> untouched D p"
  shows "WriteFile E p data d = (r, d') \<Longrightarrow> spares D d d'" and "Create E p d = (r, d') \<Longrightarrow> spares D d d'"
    and "download E url p d = (r, d') \<Longrightarrow> spares D d d'" and "Chmod E p d = (r, d') \<Longrightarrow> spares D d d'"
proof -
  have data: "spares D e (set_data p b e)" for b e
    using spares_update [OF assms] by (auto simp: set_data_def split: option.split node.split)
  have opened: "spares D e e'" if "open_trunc m p e = Some e'" for m e e'
    using that spares_update [OF assms] by (auto simp: open_trunc_def split: option.splits node.splits if_splits)
  show "WriteFile E p data d = (r, d') \<Longrightarrow> spares D d d'"
    using data opened spares_trans by (auto simp: WriteFile_def split: option.splits nat.splits) blast+
  show "Create E p d = (r, d') \<Longrightarrow> spares D d d'"
    using opened by (auto simp: Create_def split: option.splits if_splits)
  show "download E url p d = (r, d') \<Longrightarrow> spares D d d'"
    using data by (auto simp: download_def split: sum.splits option.splits)
  show "Chmod E p d = (r, d') \<Longrightarrow> spares D d d'"
    using spares_update [OF assms] by (auto simp: Chmod_def set_mode_def split: option.splits node.splits if_splits)
qed

section \<open>What the steps establish\<close>

lemma clear_dir_empties:
  assumes "rooted D" and "clear_dir E D d = (Inr (), d')" and "plain_seg n"
  shows "map_of d' (D @ ''/'' @ n) = None"
proof -
  let ?names = "children d D"
  let ?I = "\<lambda>s. \<forall>n. plain_seg n \<longrightarrow> n \<notin> set ?names \<longrightarrow> map_of s (D @ ''/'' @ n) = None"
  have run: "for_each (remove_entry E D) ?names d = (Inr (), d')"
    using assms(2) by (simp add: clear_dir_def split: if_splits)
  have step: "s' = s \<and> r \<noteq> Inr () \<or> s' = AList.delete (D @ ''/'' @ x) s"
    if "x \<in> set ?names" "remove_entry E D x s = (r, s')" for x s r s'
    using that rooted_join1 [OF assms(1)]
    by (auto simp: remove_entry_def children_iff Let_def split: if_splits)
  have inv: "?I s'" if "x \<in> set ?names" "?I s" "remove_entry E D x s = (r, s')" for x s r s'
    using step [OF that(1,3)] that(2) by (auto simp: AList.delete_conv)
  have init: "?I d" by (simp add: children_iff)
  have "\<forall>x \<in> set ?names. map_of d' (D @ ''/'' @ x) = None"
  proof (rule for_each_establishes [where I = ?I, OF inv _ _ init run])
    show "map_of s' (D @ ''/'' @ x) = None"
      if "x \<in> set ?names" "remove_entry E D x s = (Inr (), s')" for x s s'
      using step [OF that] by (auto simp: AList.delete_conv)
    show "map_of s' (D @ ''/'' @ x) = None"
      if "y \<in> set ?names" "remove_entry E D y s = (r, s')" "map_of s (D @ ''/'' @ x) = None" for x y s s' r
      using step [OF that(1,2)] that(3) by (auto simp: AList.delete_conv)
  qed
  moreover have "?I d'"
    by (rule for_each_invariant [where I = ?I, OF inv init run])
  ultimately show ?thesis using assms(3) by blast
qed

lemma open_trunc_Some:
  "open_trunc m p d = Some d' \<Longrightarrow> \<exists>mode. map_of d' p = Some (NFile [] mode) \<and> (\<forall>q. q \<noteq> p \<longrightarrow> map_of d' q = map_of d q)"
  by (auto simp: open_trunc_def AList.update_conv split: option.splits node.splits if_splits)

lemma set_data_conv:
  "map_of d p = Some (NFile b m) \<Longrightarrow>
   map_of (set_data p data d) q = (if q = p then Some (NFile data m) else map_of d q)"
  by (simp add: set_data_def AList.update_conv)

lemma WriteFile_ok:
  assumes "WriteFile E p data d = (Inr (), d')"
  shows "\<exists>mode. map_of d' p = Some (NFile data mode) \<and> (\<forall>q. q \<noteq> p \<longrightarrow> map_of d' q = map_of d q)"
proof -
  obtain opened where o: "open_trunc (masked E 420) p d = Some opened" "d' = set_data p data opened"
    using assms by (auto simp: WriteFile_def split: option.splits nat.splits prod.splits)
  with open_trunc_Some [OF o(1)] show ?thesis using set_data_conv by fastforce
qed

lemma Create_ok:
  assumes "Create E p d = (Inr (), d')"
  shows "\<exists>mode. map_of d' p = Some (NFile [] mode) \<and> (\<forall>q. q \<noteq> p \<longrightarrow> map_of d' q = map_of d q)"
  using assms open_trunc_Some by (auto simp: Create_def split: option.splits if_splits)

lemma download_ok:
  assumes "download E url p d = (Inr (), d')" and "map_of d p = Some (NFile b m)"
  shows "\<exists>body. re_get E url = Inr (body, None) \<and> map_of d' p = Some (NFile body m)
    \<and> (\<forall>q. q \<noteq> p \<longrightarrow> map_of d' q = map_of d q)"
  using assms by (auto simp: download_def set_data_conv split: sum.splits option.splits)

lemma Chmod_ok:
  assumes "Chmod E p d = (Inr (), d')" and "map_of d p = Some (NFile b m)"
  shows "map_of d' p = Some (NFile b 493) \<and> (\<forall>q. q \<noteq> p \<longrightarrow> map_of d' q = map_of d q)"
  using assms by (auto simp: Chmod_def set_mode_def AList.update_conv split: if_splits)

text \<open>
  The package \<open>p\<close> stands in \<open>D\<close>: its description, and as its only binary the downloaded file, executable.
\<close>

definition package_stands :: "release_env \<Rightarrow> string \<Rightarrow> BinPackage \<Rightarrow> string \<Rightarrow> rdisk \<Rightarrow> bool" where
  "package_stands E D p url d \<longleftrightarrow>
     (\<exists>j cont mode. BinPackage_json p = Inr j \<and> re_marshal E j = Inr cont
        \<and> map_of d (D @ ''/package.json'') = Some (NFile cont mode))
     \<and> children d (D @ ''/bin'') = [exe_name (bp_name p)]
     \<and> (\<exists>body. re_get E url = Inr (body, None)
          \<and> map_of d (D @ ''/bin/'' @ exe_name (bp_name p)) = Some (NFile body 493))"

lemma children_single:
  assumes "\<And>n. plain_seg n \<Longrightarrow> map_of d (dir @ ''/'' @ n) \<noteq> None \<longleftrightarrow> n = x" and "plain_seg x"
  shows "children d dir = [x]"
proof -
  have "n \<in> set (children d dir) \<longleftrightarrow> n \<in> {x}" for n
    unfolding children_iff using assms by (cases "plain_seg n") auto
  then have s: "set (children d dir) = {x}" by blast
  have "distinct (children d dir)" by (simp add: children_def)
  from distinct_card [OF this] have "length (children d dir) = 1" unfolding s by simp
  then obtain y where "children d dir = [y]" by (metis One_nat_def length_0_conv length_Suc_conv)
  with s show ?thesis by simp
qed

lemma package_steps_eq:
  assumes "rooted npm" and p: "platform_package parent m = Inr (p, b)"
  defines "D \<equiv> npm @ ''/'' @ bp_name p"
  shows "rooted D"
    and "package_steps E npm p b a =
      [MkdirAll E (D @ ''/bin''), clear_dir E (D @ ''/bin''), write_package_json E D p,
       Create E (D @ ''/bin/'' @ exe_name (bp_name p)), download E (as_url a) (D @ ''/bin/'' @ exe_name (bp_name p)),
       Chmod E (D @ ''/bin/'' @ exe_name (bp_name p))]"
proof -
  note names = platform_package_Some [OF p]
  have plain: "plain_seg (bp_name p)" using names plain_names(1) by blast
  from rooted_join1 [OF assms(1) plain]
  have D: "path_join [npm, bp_name p] = D" "rooted D" unfolding D_def .
  have bindir: "path_join [D, ''bin''] = D @ ''/bin''" using rooted_join1(1) [OF D(2) plain_names(3)] by simp
  have bin: "path_join [D, ''bin/'' @ exe_name (bp_name p)] = D @ ''/bin/'' @ exe_name (bp_name p)"
    using rooted_join(1) [OF D(2), of "[''bin'', exe_name (bp_name p)]"] plain_names by simp
  show "rooted D" by (rule D(2))
  show "package_steps E npm p b a =
      [MkdirAll E (D @ ''/bin''), clear_dir E (D @ ''/bin''), write_package_json E D p,
       Create E (D @ ''/bin/'' @ exe_name (bp_name p)), download E (as_url a) (D @ ''/bin/'' @ exe_name (bp_name p)),
       Chmod E (D @ ''/bin/'' @ exe_name (bp_name p))]"
    by (simp only: package_steps_def Let_def D bindir names option.case bin)
qed

lemma write_package_json_path:
  assumes "rooted D"
  shows "path_join [D, ''package.json''] = D @ ''/package.json''"
  using rooted_join1(1) [OF assms plain_names(4)] by simp

lemma package_steps_ok:
  assumes "rooted npm" and p: "platform_package parent m = Inr (p, b)"
    and run: "for_each (\<lambda>step d. step d) (package_steps E npm p b a) d = (Inr (), d')"
  shows "package_stands E (npm @ ''/'' @ bp_name p) p (as_url a) d'"
proof -
  let ?D = "npm @ ''/'' @ bp_name p" and ?exe = "exe_name (bp_name p)"
  let ?bin = "?D @ ''/bin/'' @ ?exe" and ?json = "?D @ ''/package.json''"
  note D = package_steps_eq(1) [OF assms(1) p]
  have binD: "rooted (?D @ ''/bin'')" using rooted_join1(2) [OF D plain_names(3)] by simp
  from run obtain d1 d2 d3 d4 d5 where s1: "clear_dir E (?D @ ''/bin'') d1 = (Inr (), d2)"
    and s2: "write_package_json E ?D p d2 = (Inr (), d3)"
    and s3: "Create E ?bin d3 = (Inr (), d4)" and s4: "download E (as_url a) ?bin d4 = (Inr (), d5)"
    and s5: "Chmod E ?bin d5 = (Inr (), d')"
    unfolding package_steps_eq(2) [OF assms(1) p] for_each_Inr_Cons for_each.simps(1) prod.inject by blast
  from s2 obtain j cont where j: "BinPackage_json p = Inr j" "re_marshal E j = Inr cont"
    and w: "WriteFile E ?json cont d2 = (Inr (), d3)"
    unfolding write_package_json_def write_package_json_path [OF D] by (auto split: sum.splits)
  from WriteFile_ok [OF w] obtain mode where f3: "map_of d3 ?json = Some (NFile cont mode)"
      "\<And>q. q \<noteq> ?json \<Longrightarrow> map_of d3 q = map_of d2 q"
    by blast
  from Create_ok [OF s3] obtain m4 where f4: "map_of d4 ?bin = Some (NFile [] m4)"
      "\<And>q. q \<noteq> ?bin \<Longrightarrow> map_of d4 q = map_of d3 q"
    by blast
  from download_ok [OF s4 f4(1)] obtain body where f5: "re_get E (as_url a) = Inr (body, None)"
      "map_of d5 ?bin = Some (NFile body m4)" "\<And>q. q \<noteq> ?bin \<Longrightarrow> map_of d5 q = map_of d4 q"
    by blast
  note f6 = Chmod_ok [OF s5 f5(2)]
  have later: "map_of d' q = map_of d3 q" if "q \<noteq> ?bin" for q using that f4(2) f5(3) f6 by simp
  have "children d' (?D @ ''/bin'') = [?exe]"
  proof (rule children_single)
    show "map_of d' ((?D @ ''/bin'') @ ''/'' @ n) \<noteq> None \<longleftrightarrow> n = ?exe" if "plain_seg n" for n
      using clear_dir_empties [OF binD s1 that] later [of "?D @ ''/bin/'' @ n"] f3(2) [of "?D @ ''/bin/'' @ n"] f6
      by (cases "n = ?exe") simp_all
  qed (rule plain_names)
  moreover have "map_of d' ?json = Some (NFile cont mode)" using later [of ?json] f3(1) by simp
  ultimately show ?thesis unfolding package_stands_def using j f5(1) f6 by blast
qed

section \<open>Packages do not disturb each other\<close>

lemma first_slash:
  assumes "a @ CHR ''/'' # x = b @ CHR ''/'' # y" and "CHR ''/'' \<notin> set a" and "CHR ''/'' \<notin> set b"
  shows "a = b"
proof -
  have "takeWhile (\<lambda>c. c \<noteq> CHR ''/'') (a @ CHR ''/'' # x) = a"
    "takeWhile (\<lambda>c. c \<noteq> CHR ''/'') (b @ CHR ''/'' # y) = b"
    using assms(2,3) by (simp_all add: takeWhile_append)
  with assms(1) show ?thesis by metis
qed

lemma ancestors_prefix: "q \<in> set (ancestors p) \<Longrightarrow> \<exists>t. p = q @ t"
  unfolding ancestors_def by auto (metis append_take_drop_id)

lemma spares_other:
  assumes "spares (npm @ ''/'' @ n2) d d'" and "n1 \<noteq> n2" and "plain_seg n1" and "plain_seg n2"
  shows "map_of d' (npm @ ''/'' @ n1 @ ''/'' @ x) = map_of d (npm @ ''/'' @ n1 @ ''/'' @ x)"
proof -
  let ?q = "npm @ ''/'' @ n1 @ ''/'' @ x"
  have apart: "n1 @ CHR ''/'' # u \<noteq> n2 @ CHR ''/'' # v" for u v
    using first_slash [of n1 u n2 v] assms(2,3,4) by (auto simp: plain_seg_def)
  have "\<not> has_prefix ?q ((npm @ ''/'' @ n2) @ ''/bin/'')"
    using apart by (auto simp: has_prefix_iff)
  moreover have "?q \<noteq> (npm @ ''/'' @ n2) @ ''/package.json''" using apart by simp
  moreover have "?q \<notin> set (ancestors ((npm @ ''/'' @ n2) @ ''/bin''))"
  proof
    assume "?q \<in> set (ancestors ((npm @ ''/'' @ n2) @ ''/bin''))"
    from ancestors_prefix [OF this] obtain t where "n2 @ CHR ''/'' # ''bin'' = n1 @ CHR ''/'' # (x @ t)" by auto
    with apart show False by metis
  qed
  ultimately show ?thesis using assms(1) unfolding spares_def untouched_def by blast
qed

lemma children_cong:
  assumes "\<And>n. map_of d (dir @ ''/'' @ n) = map_of d' (dir @ ''/'' @ n)"
  shows "children d dir = children d' dir"
proof (rule sorted_distinct_set_unique)
  show "set (children d dir) = set (children d' dir)" using assms by (simp only: set_eq_iff children_iff simp_thms)
qed (simp_all add: children_def)

lemma package_stands_other:
  assumes "package_stands E (npm @ ''/'' @ n1) p url d" and "spares (npm @ ''/'' @ n2) d d'" and "n1 \<noteq> n2"
    and "n1 \<in> set package_names" and "n2 \<in> set package_names"
  shows "package_stands E (npm @ ''/'' @ n1) p url d'"
proof -
  have same: "map_of d' ((npm @ ''/'' @ n1) @ ''/'' @ x) = map_of d ((npm @ ''/'' @ n1) @ ''/'' @ x)" for x
    using spares_other [OF assms(2,3) plain_names(1) [OF assms(4)] plain_names(1) [OF assms(5)], of x] by simp
  have "children d' ((npm @ ''/'' @ n1) @ ''/bin'') = children d ((npm @ ''/'' @ n1) @ ''/bin'')"
    by (rule children_cong) (use same [of "''bin/'' @ _"] in simp)
  then show ?thesis
    using assms(1) same [of "''package.json''"] same [of "''bin/'' @ exe_name (bp_name p)"]
    by (simp add: package_stands_def)
qed

lemma write_package_json_spares:
  assumes "rooted D" and "write_package_json E D p d = (r, d')"
  shows "spares D d d'"
  using assms(2) unfolding write_package_json_def write_package_json_path [OF assms(1)]
  by (auto split: sum.splits intro: file_steps_keep(1) [OF touched(1)])

lemma package_steps_keep:
  assumes "rooted npm" and p: "platform_package parent m = Inr (p, b)"
    and run: "for_each (\<lambda>step d. step d) (package_steps E npm p b a) d = (r, d')"
  shows "spares (npm @ ''/'' @ bp_name p) d d'"
proof (rule for_each_invariant [where I = "spares (npm @ ''/'' @ bp_name p) d", OF _ spares_refl run])
  let ?D = "npm @ ''/'' @ bp_name p"
  note D = package_steps_eq(1) [OF assms(1) p]
  note bin = touched(2) [of ?D "exe_name (bp_name p)"]
  have steps: "list_all (\<lambda>step. \<forall>s r s'. step s = (r, s') \<longrightarrow> spares ?D s s') (package_steps E npm p b a)"
    unfolding package_steps_eq(2) [OF assms(1) p] list.pred_inject
    by (intro conjI allI impI TrueI;
        (erule MkdirAll_spares | erule clear_dir_spares [OF D] | erule write_package_json_spares [OF D]
          | erule file_steps_keep [OF bin] | simp))
  show "spares ?D d s'" if "step \<in> set (package_steps E npm p b a)" "spares ?D d s" "step s = (r, s')" for step s r s'
    using spares_trans [OF that(2)] steps that(1,3) unfolding list_all_iff by blast
qed

section \<open>The whole release\<close>

text \<open>A file is passed over if its name is of no binary or of a checksum; otherwise it is a package.\<close>

definition passed_over :: "asset \<Rightarrow> bool" where
  "passed_over a \<longleftrightarrow> (case FindStringSubmatch (as_name a) of None \<Rightarrow> True | Some m \<Rightarrow> m ! 5 \<noteq> '''')"

definition published_as :: "ParentPackage \<Rightarrow> asset \<Rightarrow> BinPackage option" where
  "published_as parent a =
     (if passed_over a then None
      else case FindStringSubmatch (as_name a) of
        None \<Rightarrow> None
      | Some m \<Rightarrow> (case platform_package parent m of Inl _ \<Rightarrow> None | Inr (p, b) \<Rightarrow> Some p))"

lemma published_name: "published_as parent a = Some p \<Longrightarrow> bp_name p \<in> set package_names"
  using platform_package_Some by (fastforce simp: published_as_def split: option.splits sum.splits if_splits)

lemma publish_asset_cases:
  obtains "passed_over a" and "published_as parent a = None" and "publish_asset E parent npm a d = (Inr [], d)"
  | e where "publish_asset E parent npm a d = (Inl e, d)"
  | m p b where "platform_package parent m = Inr (p, b)" and "published_as parent a = Some p"
    and "publish_asset E parent npm a d =
      (case for_each (\<lambda>step d. step d) (package_steps E npm p b a) d of
         (Inl e, d1) \<Rightarrow> (Inl e, d1)
       | (Inr _, d1) \<Rightarrow> (Inr [publish_line p], d1))"
proof (cases "passed_over a")
  case True
  then show thesis using that(1)
    by (auto simp: publish_asset_def passed_over_def published_as_def split: option.splits)
next
  case False
  then obtain m where m: "FindStringSubmatch (as_name a) = Some m" "m ! 5 = ''''"
    by (auto simp: passed_over_def split: option.splits)
  show thesis
  proof (cases "platform_package parent m")
    case (Inl e)
    with m show thesis using that(2) by (simp add: publish_asset_def)
  next
    case (Inr pb)
    obtain p b where "pb = (p, b)" by fastforce
    with m Inr False show thesis using that(3) [of m p b]
      by (simp add: publish_asset_def published_as_def)
  qed
qed

lemma publish_asset_spares:
  assumes "rooted npm" and "publish_asset E parent npm a d = (r, d')"
  shows "d' = d \<or> (\<exists>p. published_as parent a = Some p \<and> spares (npm @ ''/'' @ bp_name p) d d')"
proof (rule publish_asset_cases [of a parent E npm d])
  fix m p b
  assume p: "platform_package parent m = Inr (p, b)" and pub: "published_as parent a = Some p"
    and run: "publish_asset E parent npm a d =
      (case for_each (\<lambda>step d. step d) (package_steps E npm p b a) d of
         (Inl e, d1) \<Rightarrow> (Inl e, d1)
       | (Inr _, d1) \<Rightarrow> (Inr [publish_line p], d1))"
  obtain r1 d1 where f: "for_each (\<lambda>step d. step d) (package_steps E npm p b a) d = (r1, d1)" by fastforce
  with run assms(2) have "d1 = d'" by (auto split: sum.splits)
  with package_steps_keep [OF assms(1) p f] pub show ?thesis by blast
qed (use assms(2) in auto)

lemma publish_assets_keep:
  assumes "rooted npm" and "publish_assets E parent npm as d = (r, d')"
    and "map_of d q = Some n" and "list_all (\<lambda>name. untouched (npm @ ''/'' @ name) q) package_names"
  shows "map_of d' q = Some n"
  using assms(2,3)
proof (induction as arbitrary: d r)
  case (Cons a as)
  obtain r1 d1 where a: "publish_asset E parent npm a d = (r1, d1)" by fastforce
  have "map_of d1 q = Some n"
    using publish_asset_spares [OF assms(1) a] published_name Cons.prems(2) assms(4)
    unfolding spares_def list_all_iff by (metis option.distinct(1))
  with Cons a show ?case by (cases r1) (auto split: prod.splits sum.splits)
qed simp

definition asset_done :: "release_env \<Rightarrow> ParentPackage \<Rightarrow> string \<Rightarrow> rdisk \<Rightarrow> asset \<Rightarrow> bool" where
  "asset_done E parent npm d a \<longleftrightarrow>
     (case published_as parent a of
        None \<Rightarrow> passed_over a
      | Some p \<Rightarrow> package_stands E (npm @ ''/'' @ bp_name p) p (as_url a) d)"

lemma publish_assets_stand:
  assumes "rooted npm" and "package_stands E (npm @ ''/'' @ bp_name p) p url d" and "bp_name p \<in> set package_names"
    and "publish_assets E parent npm as d = (r, d')"
    and "bp_name p \<notin> set (map bp_name (List.map_filter (published_as parent) as))"
  shows "package_stands E (npm @ ''/'' @ bp_name p) p url d'"
  using assms(2,4,5)
proof (induction as arbitrary: d r)
  case (Cons a as)
  obtain r1 d1 where a: "publish_asset E parent npm a d = (r1, d1)" by fastforce
  have "package_stands E (npm @ ''/'' @ bp_name p) p url d1"
    using publish_asset_spares [OF assms(1) a]
  proof (elim disjE exE conjE)
    fix p'
    assume p': "published_as parent a = Some p'" "spares (npm @ ''/'' @ bp_name p') d d1"
    with Cons.prems(3) have "bp_name p \<noteq> bp_name p'" by auto
    from package_stands_other [OF Cons.prems(1) p'(2) this assms(3) published_name [OF p'(1)]] show ?thesis .
  qed (use Cons.prems in simp)
  moreover have "bp_name p \<notin> set (map bp_name (List.map_filter (published_as parent) as))"
    using Cons.prems(3) by (auto split: option.splits)
  ultimately show ?case using Cons a by (cases r1) (auto split: prod.splits sum.splits)
qed simp

lemma publish_assets_ok:
  assumes "rooted npm" and "publish_assets E parent npm as d = (Inr work, d')"
    and "distinct (map bp_name (List.map_filter (published_as parent) as))"
  shows "list_all (asset_done E parent npm d') as
    \<and> work = map publish_line (List.map_filter (published_as parent) as)"
  using assms(2,3)
proof (induction as arbitrary: d work)
  case (Cons a as)
  from Cons.prems(1) obtain w1 d1 rest where a: "publish_asset E parent npm a d = (Inr w1, d1)"
    and as: "publish_assets E parent npm as d1 = (Inr rest, d')" and work: "work = w1 @ rest"
    by (auto split: prod.splits sum.splits)
  have "distinct (map bp_name (List.map_filter (published_as parent) as))"
    using Cons.prems(2) by (auto split: option.splits)
  note IH = Cons.IH [OF as this]
  show ?case
  proof (rule publish_asset_cases [of a parent E npm d])
    assume "passed_over a" "published_as parent a = None" "publish_asset E parent npm a d = (Inr [], d)"
    with a IH work show ?thesis by (simp add: asset_done_def)
  next
    fix m p b
    assume p: "platform_package parent m = Inr (p, b)" and pub: "published_as parent a = Some p"
      and run: "publish_asset E parent npm a d =
        (case for_each (\<lambda>step d. step d) (package_steps E npm p b a) d of
           (Inl e, d1) \<Rightarrow> (Inl e, d1)
         | (Inr _, d1) \<Rightarrow> (Inr [publish_line p], d1))"
    have steps: "for_each (\<lambda>step d. step d) (package_steps E npm p b a) d = (Inr (), d1)" "w1 = [publish_line p]"
      using run a by (auto split: prod.splits sum.splits)
    have "bp_name p \<notin> set (map bp_name (List.map_filter (published_as parent) as))"
      using Cons.prems(2) pub by simp
    with package_steps_ok [OF assms(1) p steps(1)] published_name [OF pub] as
    have "package_stands E (npm @ ''/'' @ bp_name p) p (as_url a) d'"
      by (rule publish_assets_stand [OF assms(1)])
    with IH steps(2) work pub show ?thesis by (simp add: asset_done_def)
  qed (use a in simp)
qed simp


text \<open>
  The script touches nothing else. However it ends, what was on the disk before it is still there,
  but for the descriptions of the platform packages and what their \<open>bin\<close> directories held.
\<close>

theorem release_touches_packages_only:
  assumes "release_main E d = (r, d')" and "re_getwd E = Inr cwd" and "is_abs cwd" and "map_of d q = Some n"
    and "list_all (\<lambda>name. untouched (path_abs cwd ''npm'' @ ''/'' @ name) q) package_names"
  shows "map_of d' q = Some n"
proof (cases "read_parent E")
  case (Inr parent)
  show ?thesis
  proof (cases "choose_release E (pp_version parent)")
    case rel: (Inr rel)
    obtain r1 d1 where run: "publish_assets E parent (path_abs cwd ''npm'') (rl_assets rel) d = (r1, d1)" by fastforce
    then have "d1 = d'" using assms(1,2) Inr rel by (simp add: release_main_def split: sum.splits)
    with publish_assets_keep [OF rooted_abs [OF assms(3)] run assms(4,5)] show ?thesis by simp
  qed (use assms(1,4) Inr in \<open>simp add: release_main_def\<close>)
qed (use assms(1,4) in \<open>simp add: release_main_def\<close>)

section \<open>A release\<close>

definition toy_parent :: ParentPackage where
  "toy_parent = \<lparr>pp_name = ''contain'', pp_version = ''1.1.0'', pp_homepage = '''', pp_licence = ''MPL-2.0''\<rparr>"

definition toy_assets :: "asset list" where
  "toy_assets =
     [\<lparr>as_name = ''contain-v1.1.0-linux-amd64'', as_url = ''u1''\<rparr>,
      \<lparr>as_name = ''contain-v1.1.0-linux-amd64.sha256'', as_url = ''u2''\<rparr>,
      \<lparr>as_name = ''notes.txt'', as_url = ''u3''\<rparr>,
      \<lparr>as_name = ''contain-v1.0.9-windows-amd64.exe'', as_url = ''u4''\<rparr>]"

definition toy_release :: release_env where
  "toy_release =
     \<lparr>re_parent = Inr ''{}'', re_unmarshal = (\<lambda>b. Inr toy_parent), re_client = None, re_repository = None,
      re_tags = Inr [''v1.0.0'', ''v1.1.0''], re_releases = Inr [\<lparr>rl_tag = ''v1.1.0'', rl_assets = toy_assets\<rparr>],
      re_getwd = Inr ''/w'', re_get = (\<lambda>url. Inr (''body of '' @ url, None)), re_marshal = (\<lambda>j. Inr ''{}''),
      re_umask = 18, re_fail = (\<lambda>d c. None)\<rparr>"

text \<open>An earlier run left a file, and there is one that is not of the script.\<close>

definition toy_disk :: rdisk where
  "toy_disk =
     [(''/w'', NDir), (''/w/npm'', NDir), (''/w/npm/README'', NFile ''text'' 420),
      (''/w/npm/contain-linux-x64'', NDir), (''/w/npm/contain-linux-x64/bin'', NDir),
      (''/w/npm/contain-linux-x64/bin/old'', NFile ''old'' 493)]"

definition toy_printed :: string where
  "toy_printed =
     ''(cd npm/contain-linux-x64; npm publish --access public)'' @ [CHR 10]
     @ ''(cd npm/contain-win32-x64; npm publish --access public)'' @ [CHR 10]
     @ ''npm publish --access public'' @ [CHR 10]"

lemma toy_released: "fst (release_main toy_release toy_disk) = Inr toy_printed"
  by code_simp

lemma toy_released': "release_main toy_release toy_disk = (Inr toy_printed, snd (release_main toy_release toy_disk))"
  by (simp add: prod_eq_iff toy_released)

lemma toy_chosen:
  "read_parent toy_release = Inr toy_parent"
  "choose_release toy_release (pp_version toy_parent) = Inr \<lparr>rl_tag = ''v1.1.0'', rl_assets = toy_assets\<rparr>"
  "re_getwd toy_release = Inr ''/w''" "is_abs ''/w''" "path_abs ''/w'' ''npm'' = ''/w/npm''"
  "distinct (map bp_name (List.map_filter (published_as toy_parent) toy_assets))"
  by code_simp+


theorem release_touches_packages_only_witness:
  "map_of (snd (release_main toy_release toy_disk)) ''/w/npm/README'' = Some (NFile ''text'' 420)"
proof (rule release_touches_packages_only [OF toy_released' toy_chosen(3,4)])
  show "map_of toy_disk ''/w/npm/README'' = Some (NFile ''text'' 420)" by code_simp
  show "list_all (\<lambda>name. untouched (path_abs ''/w'' ''npm'' @ ''/'' @ name) ''/w/npm/README'') package_names"
    by code_simp
qed

text \<open>The version of a package is that of the file name, whatever the version of the release.\<close>

lemma version_of_file_name:
  "map_option bp_version (published_as toy_parent (toy_assets ! 3)) = Some ''1.0.9''"
  by code_simp

end
